(* ===== verification/Prelude.thy ===== *)
theory Prelude
  imports
    Main
    "HOL-Library.AList"
    "HOL-Library.Char_ord"
    "HOL-Library.List_Lexorder"
    "HOL-Library.Product_Lexorder"
    "HOL-Library.Option_ord"
begin

text \<open>
  What every component shares: the Python string operations the code applies to its inputs
  (\<open>str(x or "").strip()\<close>, \<open>.lower()\<close>), dictionaries in insertion order, exceptions as
  values, and the lemmas about them.

  A Python string is a \<^typ>\<open>string\<close>: code points 0 to 255. A value that is a string or
  \<open>None\<close> (or a missing key, which \<open>dict.get\<close> does not tell from \<open>None\<close>) is a
  \<^typ>\<open>string option\<close>.
\<close>

named_theorems py_defs \<open>definitions of the operations, unfolded by the component proofs\<close>

section \<open>Exceptions\<close>

text \<open>
  The exceptions the modelled code raises, with their message. An operation on a state returns
  \<open>(py_error + 'a) \<times> 's\<close>: the exception or the value, and the state it leaves behind.
\<close>

datatype py_error =
    ValueError string
  | KeyError string
  | RuntimeError string
  | TypeError string
  | AttributeError string
  | LeaseLostError string
  | RevisionConflictError string
  | PersonaUnavailableError string
  | OverflowError string
  | SnapshotError string string \<comment> \<open>its code and its message\<close>

type_synonym ('s, 'a) op = "'s \<Rightarrow> (py_error + 'a) \<times> 's"

text \<open>The rest of a computation after a step that may raise.\<close>

definition sbind :: "'e + 'a \<Rightarrow> ('a \<Rightarrow> 'e + 'b) \<Rightarrow> 'e + 'b" where
  "sbind x f = (case x of Inl e \<Rightarrow> Inl e | Inr v \<Rightarrow> f v)"

lemma sbind_simps [simp]: "sbind (Inl e) f = Inl e" "sbind (Inr v) f = f v"
  by (simp_all add: sbind_def)

lemma sbind_Inr: "sbind x f = Inr y \<longleftrightarrow> (\<exists>v. x = Inr v \<and> f v = Inr y)"
  by (cases x) simp_all

lemma map_sum_Inr: "map_sum id f x = Inr y \<longleftrightarrow> (\<exists>v. x = Inr v \<and> f v = y)"
  by (cases x) auto

section \<open>Strings\<close>

text \<open>\<open>str.isspace\<close> on the code points below 256.\<close>

definition py_space :: "char \<Rightarrow> bool" where
  "py_space c =
     (let n = (of_char c :: nat)
      in (9 \<le> n \<and> n \<le> 13) \<or> (28 \<le> n \<and> n \<le> 32) \<or> n = 133 \<or> n = 160)"

definition strip :: "string \<Rightarrow> string" where
  "strip s = rev (dropWhile py_space (rev (dropWhile py_space s)))"

text \<open>\<open>str.lower\<close> on the code points below 256 (ASCII and Latin-1 capitals).\<close>

definition lower_char :: "char \<Rightarrow> char" where
  "lower_char c =
     (let n = (of_char c :: nat)
      in if (65 \<le> n \<and> n \<le> 90) \<or> (192 \<le> n \<and> n \<le> 222 \<and> n \<noteq> 215)
         then char_of (n + 32) else c)"

definition lower :: "string \<Rightarrow> string" where
  "lower s = map lower_char s"

text \<open>\<open>str(x or "")\<close>, \<open>str(x or "").strip()\<close>, \<open>str(x or "").strip().lower()\<close>.\<close>

definition ostr :: "string option \<Rightarrow> string" where
  "ostr x = (case x of None \<Rightarrow> [] | Some s \<Rightarrow> s)"

definition ostrip :: "string option \<Rightarrow> string" where
  "ostrip x = strip (ostr x)"

definition olower :: "string option \<Rightarrow> string" where
  "olower x = lower (strip (ostr x))"

definition slower :: "string \<Rightarrow> string" where
  "slower s = lower (strip s)"

text \<open>\<open>x or None\<close> and \<open>x or y\<close> on a string.\<close>

definition or_none :: "string \<Rightarrow> string option" where
  "or_none s = (if s = [] then None else Some s)"

definition or_else :: "string \<Rightarrow> string \<Rightarrow> string" where
  "or_else s t = (if s = [] then t else s)"

text \<open>\<open>a or b\<close> on values that are a string or \<open>None\<close>: the first one that is truthy.\<close>

definition o_or :: "string option \<Rightarrow> string option \<Rightarrow> string option" where
  "o_or a b = (if ostr a = [] then b else a)"

lemma ostr_simps [simp]: "ostr None = []" "ostr (Some s) = s"
  by (simp_all add: ostr_def)

lemma dropWhile_idem: "dropWhile P (dropWhile P xs) = dropWhile P xs"
  by (induction xs) auto

lemma strip_Nil [simp]: "strip [] = []"
  by (simp add: strip_def)

text \<open>A string no end of which is white space is its own \<open>strip\<close>.\<close>

definition stripped :: "string \<Rightarrow> bool" where
  "stripped s \<longleftrightarrow> s = [] \<or> (\<not> py_space (hd s) \<and> \<not> py_space (last s))"

lemma dropWhile_hd: "dropWhile P xs \<noteq> [] \<Longrightarrow> \<not> P (hd (dropWhile P xs))"
  by (induction xs) auto

lemma last_dropWhile: "dropWhile P xs \<noteq> [] \<Longrightarrow> last (dropWhile P xs) = last xs"
  by (induction xs) auto

lemma stripped_strip: "stripped (strip s)"
proof (cases "strip s = []")
  case False
  let ?a = "dropWhile py_space s"
  let ?b = "dropWhile py_space (rev ?a)"
  from False have b: "?b \<noteq> []" by (simp add: strip_def)
  then have "?a \<noteq> []" by (cases "?a = []") simp_all
  then have "\<not> py_space (hd ?a)" by (rule dropWhile_hd)
  moreover have "last ?b = last (rev ?a)" using b by (rule last_dropWhile)
  moreover have "\<not> py_space (hd ?b)" using b by (rule dropWhile_hd)
  ultimately show ?thesis
    using b \<open>?a \<noteq> []\<close> by (simp add: stripped_def strip_def hd_rev last_rev)
qed (simp add: stripped_def)

lemma strip_stripped: "stripped s \<Longrightarrow> strip s = s"
proof (cases "s = []")
  case False
  assume "stripped s"
  with False have h: "\<not> py_space (hd s)" and l: "\<not> py_space (last s)"
    by (auto simp: stripped_def)
  have a: "dropWhile py_space s = s" using False h by (cases s) auto
  have "dropWhile py_space (rev s) = rev s"
    using False l by (cases "rev s") (auto simp: hd_rev simp flip: hd_rev)
  with a show ?thesis by (simp add: strip_def)
qed simp

lemma strip_strip [simp]: "strip (strip s) = strip s"
  by (rule strip_stripped) (rule stripped_strip)

lemma of_char_less: "(of_char c :: nat) < 256"
  by (cases c) simp

lemma of_char_lower_char:
  "(of_char (lower_char c) :: nat) =
     (let n = of_char c
      in if (65 \<le> n \<and> n \<le> 90) \<or> (192 \<le> n \<and> n \<le> 222 \<and> n \<noteq> 215) then n + 32 else n)"
  by (simp add: lower_char_def Let_def)

lemma py_space_lower [simp]: "py_space (lower_char c) = py_space c"
  by (simp add: py_space_def of_char_lower_char Let_def)

lemma lower_char_idem [simp]: "lower_char (lower_char c) = lower_char c"
  unfolding lower_char_def [of "lower_char c"] by (simp add: of_char_lower_char Let_def) auto

lemma lower_simps [simp]: "lower [] = []" "lower (lower s) = lower s" "lower s = [] \<longleftrightarrow> s = []"
  by (simp_all add: lower_def comp_def)

lemma stripped_lower [simp]: "stripped (lower s) = stripped s"
  by (cases "s = []") (simp_all add: stripped_def lower_def hd_map last_map)

lemma strip_lower [simp]: "strip (lower s) = lower (strip s)"
  by (simp add: strip_def lower_def dropWhile_map rev_map comp_def)

lemma normalised_idem [simp]:
  "ostrip (Some (strip s)) = strip s" "olower (Some (lower (strip s))) = lower (strip s)"
  "strip (ostrip x) = ostrip x" "slower (slower s) = slower s"
  by (simp_all add: ostrip_def olower_def slower_def)

lemma slower_simps [simp]: "slower [] = []" "slower (strip s) = slower s" "strip (slower s) = slower s"
  by (simp_all add: slower_def)

lemma ostr_or_none [simp]: "ostr (or_none s) = s"
  by (simp add: or_none_def)

lemma or_else_simps [simp]: "or_else [] t = t" "s \<noteq> [] \<Longrightarrow> or_else s t = s"
  by (simp_all add: or_else_def)

section \<open>Dictionaries\<close>

text \<open>
  A dictionary iterates over its keys in the order they were first inserted, and storing under
  a key that is present keeps the key's place: an association list with \<^const>\<open>AList.update\<close>.
\<close>

type_synonym ('k, 'v) dict = "('k \<times> 'v) list"

abbreviation dget :: "('k, 'v) dict \<Rightarrow> 'k \<Rightarrow> 'v option" where
  "dget d k \<equiv> map_of d k"

abbreviation dset :: "'k \<Rightarrow> 'v \<Rightarrow> ('k, 'v) dict \<Rightarrow> ('k, 'v) dict" where
  "dset \<equiv> AList.update"

abbreviation dvalues :: "('k, 'v) dict \<Rightarrow> 'v list" where
  "dvalues d \<equiv> map snd d"

definition setdefault :: "'k \<Rightarrow> 'v \<Rightarrow> ('k, 'v) dict \<Rightarrow> ('k, 'v) dict" where
  "setdefault k v d = (case dget d k of None \<Rightarrow> dset k v d | Some _ \<Rightarrow> d)"

text \<open>\<open>next((v for v in d.values() if P(v)), None)\<close>, with the key it is stored under.\<close>

definition dfind :: "('v \<Rightarrow> bool) \<Rightarrow> ('k, 'v) dict \<Rightarrow> ('k \<times> 'v) option" where
  "dfind P d = find (\<lambda>e. P (snd e)) d"

text \<open>Writing the same change to every row that satisfies a test, in place.\<close>

definition dupdate_where :: "('v \<Rightarrow> bool) \<Rightarrow> ('v \<Rightarrow> 'v) \<Rightarrow> ('k, 'v) dict \<Rightarrow> ('k, 'v) dict" where
  "dupdate_where P f d = map (\<lambda>(k, v). (k, if P v then f v else v)) d"

abbreviation wf_dict :: "('k, 'v) dict \<Rightarrow> bool" where
  "wf_dict d \<equiv> distinct (map fst d)"

lemma dget_dset: "dget (dset k v d) j = (if j = k then Some v else dget d j)"
  by (simp add: update_conv')

lemma dget_setdefault:
  "dget (setdefault k v d) j = (if j = k \<and> dget d k = None then Some v else dget d j)"
  by (auto simp: setdefault_def dget_dset split: option.splits)

lemma wf_setdefault [simp]: "wf_dict d \<Longrightarrow> wf_dict (setdefault k v d)"
  by (simp add: setdefault_def distinct_update split: option.splits)

lemma wf_dset [simp]: "wf_dict d \<Longrightarrow> wf_dict (dset k v d)"
  by (rule distinct_update)

lemma dget_dupdate_where:
  "dget (dupdate_where P f d) k = map_option (\<lambda>v. if P v then f v else v) (dget d k)"
  by (induction d) (auto simp: dupdate_where_def)

lemma keys_dupdate_where [simp]: "map fst (dupdate_where P f d) = map fst d"
  by (simp add: dupdate_where_def comp_def split_def)

lemma dfind_SomeD:
  "dfind P d = Some (k, v) \<Longrightarrow> (k, v) \<in> set d \<and> P v"
  by (induction d) (auto simp: dfind_def split: if_splits)

lemma dfind_dget: "wf_dict d \<Longrightarrow> dfind P d = Some (k, v) \<Longrightarrow> dget d k = Some v"
  by (meson dfind_SomeD map_of_is_SomeI)

lemma find_dvalues: "find P (dvalues d) = map_option snd (dfind P d)"
  by (induction d) (auto simp: dfind_def)

lemma dfind_None: "dfind P d = None \<longleftrightarrow> (\<forall>v \<in> set (dvalues d). \<not> P v)"
  by (auto simp: dfind_def find_None_iff)

lemma dfind_dset:
  "wf_dict d \<Longrightarrow> dfind P d = Some (k, v) \<Longrightarrow> P v' \<Longrightarrow> dfind P (dset k v' d) = Some (k, v')"
proof (induction d)
  case (Cons e d)
  obtain k1 v1 where e: "e = (k1, v1)" by (cases e)
  show ?case
  proof (cases "P v1")
    case True
    with Cons.prems e show ?thesis by (simp add: dfind_def)
  next
    case False
    with Cons.prems e have f: "dfind P d = Some (k, v)" by (simp add: dfind_def)
    from dfind_SomeD [OF this] Cons.prems(1) e have "k1 \<noteq> k" by force
    with False Cons.IH [OF _ f Cons.prems(3)] Cons.prems(1) e show ?thesis by (simp add: dfind_def)
  qed
qed (simp add: dfind_def)

text \<open>\<open>d.values()\<close> of a dictionary after a store.\<close>

lemma set_dvalues_dset: "set (dvalues (dset k v d)) \<subseteq> insert v (set (dvalues d))"
proof -
  have "set (dset k v d) \<subseteq> insert (k, v) (set d)"
    by (induction d) auto
  then show ?thesis by force
qed

text \<open>A test that holds under at most one key holds for at most one value.\<close>

lemma unique_length:
  assumes "wf_dict d"
    and "\<And>k1 v1 k2 v2. dget d k1 = Some v1 \<Longrightarrow> P v1 \<Longrightarrow> dget d k2 = Some v2 \<Longrightarrow> P v2 \<Longrightarrow> k1 = k2"
  shows "length (filter P (dvalues d)) \<le> 1"
  using assms
proof (induction d)
  case (Cons e d)
  obtain k v where e: "e = (k, v)" by (cases e)
  have other: "dget (e # d) j = dget d j" if "dget d j \<noteq> None" for j
  proof -
    from that obtain w where "(j, w) \<in> set d" by (auto dest: map_of_SomeD)
    with Cons.prems(1) have "j \<noteq> k" by (force simp: e)
    then show ?thesis by (simp add: e)
  qed
  show ?case
  proof (cases "P v")
    case True
    have "\<not> P w" if "w \<in> set (dvalues d)" for w
    proof
      assume "P w"
      from that obtain j where "(j, w) \<in> set d" by auto
      then have j: "dget d j = Some w" using Cons.prems(1) by (simp add: e)
      with other have "dget (e # d) j = Some w" by auto
      moreover have "dget (e # d) k = Some v" by (simp add: e)
      ultimately have "j = k" using Cons.prems(2) True \<open>P w\<close> by blast
      with j Cons.prems(1) show False by (force simp: e dest: map_of_SomeD)
    qed
    then have "filter P (dvalues d) = []" by (simp add: filter_empty_conv)
    with True show ?thesis by (simp add: e)
  next
    case False
    have "length (filter P (dvalues d)) \<le> 1"
    proof (rule Cons.IH)
      show "wf_dict d" using Cons.prems(1) by simp
      show "k1 = k2" if "dget d k1 = Some v1" "P v1" "dget d k2 = Some v2" "P v2" for k1 v1 k2 v2
        using Cons.prems(2) [of k1 v1 k2 v2] other that by auto
    qed
    with False show ?thesis by (simp add: e)
  qed
qed simp

text \<open>A property of every row of a table.\<close>

abbreviation rows_ok :: "('v \<Rightarrow> bool) \<Rightarrow> ('k, 'v) dict \<Rightarrow> bool" where
  "rows_ok P t \<equiv> list_all P (dvalues t)"

lemma rows_ok_dget: "rows_ok P t \<Longrightarrow> dget t k = Some r \<Longrightarrow> P r"
  by (force simp: list_all_iff dest: map_of_SomeD)

lemma rows_ok_dset: "rows_ok P t \<Longrightarrow> P r \<Longrightarrow> rows_ok P (dset k r t)"
  using set_dvalues_dset [of k r t] by (force simp: list_all_iff)

lemma rows_ok_setdefault: "rows_ok P t \<Longrightarrow> P r \<Longrightarrow> rows_ok P (setdefault k r t)"
  by (simp add: setdefault_def rows_ok_dset split: option.split)

lemma rows_ok_update_where:
  "rows_ok P t \<Longrightarrow> (\<And>r. P r \<Longrightarrow> Q r \<Longrightarrow> P (f r)) \<Longrightarrow> rows_ok P (dupdate_where Q f t)"
  by (force simp: list_all_iff dupdate_where_def)

section \<open>Sorting and limits\<close>

text \<open>\<open>sorted(..., reverse=True)\<close> keeps the order of equal keys.\<close>

definition sort_desc :: "('a \<Rightarrow> 'k::linorder) \<Rightarrow> 'a list \<Rightarrow> 'a list" where
  "sort_desc f xs = rev (sort_key f (rev xs))"

text \<open>\<open>rows[: max(1, min(int(limit), cap))]\<close>.\<close>

definition take_limit :: "int \<Rightarrow> int \<Rightarrow> 'a list \<Rightarrow> 'a list" where
  "take_limit cap limit xs = take (nat (max 1 (min limit cap))) xs"

lemma length_take_limit: "1 \<le> cap \<Longrightarrow> int (length (take_limit cap limit xs)) \<le> cap"
  by (simp add: take_limit_def)

lemma set_take_limit: "set (take_limit cap limit xs) \<subseteq> set xs"
  by (simp add: take_limit_def set_take_subset)

lemma sorted_take_limit: "sorted (map f xs) \<Longrightarrow> sorted (map f (take_limit cap limit xs))"
  by (simp add: take_limit_def sorted_wrt_take flip: take_map)

text \<open>\<open>xs[:n]\<close>, which counts from the end when \<open>n\<close> is negative.\<close>

definition py_take :: "int \<Rightarrow> 'a list \<Rightarrow> 'a list" where
  "py_take n xs = take (if 0 \<le> n then nat n else length xs - nat (- n)) xs"

end
