(* ===== verification/Timestamps.thy ===== *)
theory Timestamps
  imports Prelude "HOL-Library.Monad_Syntax"
begin

text \<open>
  The part of Python's \<open>datetime\<close> the code relies on: the proleptic Gregorian calendar,
  \<open>datetime.fromisoformat\<close> on the extended ISO 8601 forms
  \<open>YYYY-MM-DD[?HH:MM[:SS[.f+]][Z|+HH:MM|-HH:MM]]\<close> (after the code's own
  \<open>replace("Z", "+00:00")\<close>; the other ISO spellings are rejected here), \<open>isoformat\<close> of
  a UTC time, and the conversion to UTC.

  An instant is a number of microseconds since the start of day 1 of year 1; a parsed value keeps
  its wall clock and, if it has one, its offset, because Python refuses to compare a naive time
  with an aware one.
\<close>

section \<open>The calendar\<close>

definition leap :: "int \<Rightarrow> bool" where
  "leap y \<longleftrightarrow> y mod 4 = 0 \<and> (y mod 100 \<noteq> 0 \<or> y mod 400 = 0)"

definition year_len :: "int \<Rightarrow> int" where
  "year_len y = (if leap y then 366 else 365)"

definition month_lens :: "int \<Rightarrow> int list" where
  "month_lens y = [31, if leap y then 29 else 28, 31, 30, 31, 30, 31, 31, 30, 31, 30, 31]"

text \<open>Days before 1 January of year \<open>y \<ge> 1\<close>.\<close>

definition days_before_year :: "int \<Rightarrow> int" where
  "days_before_year y = (let p = y - 1 in p * 365 + p div 4 - p div 100 + p div 400)"

definition days_before_month :: "int \<Rightarrow> int \<Rightarrow> int" where
  "days_before_month y m = sum_list (take (nat (m - 1)) (month_lens y))"

definition valid_date :: "int \<Rightarrow> int \<Rightarrow> int \<Rightarrow> bool" where
  "valid_date y m d \<longleftrightarrow>
     1 \<le> y \<and> y \<le> 9999 \<and> 1 \<le> m \<and> m \<le> 12 \<and> 1 \<le> d \<and> d \<le> month_lens y ! nat (m - 1)"

text \<open>Days since the start of year 1.\<close>

definition ymd_days :: "int \<Rightarrow> int \<Rightarrow> int \<Rightarrow> int" where
  "ymd_days y m d = days_before_year y + days_before_month y m + (d - 1)"

function find_year :: "int \<Rightarrow> int \<Rightarrow> int \<times> int" where
  "find_year y r = (if r < year_len y then (y, r) else find_year (y + 1) (r - year_len y))"
  by pat_completeness auto
termination
proof (relation "measure (\<lambda>(y, r). nat r)", goal_cases)
  case (2 y r)
  have "0 < year_len y" by (simp add: year_len_def)
  with 2 show ?case by simp
qed simp

declare find_year.simps [simp del]

fun find_month :: "int list \<Rightarrow> int \<Rightarrow> int \<Rightarrow> int \<times> int" where
  "find_month [] m r = (m, r)"
| "find_month (l # ls) m r = (if r < l then (m, r) else find_month ls (m + 1) (r - l))"

text \<open>The date of a day number: the 400-year cycle first, then the year, then the month.\<close>

definition days_ymd :: "int \<Rightarrow> int \<times> int \<times> int" where
  "days_ymd n =
     (let (y, r) = find_year (400 * (n div 146097) + 1) (n mod 146097);
          (m, d) = find_month (month_lens y) 1 r
      in (y, m, d + 1))"

lemma div_step: "0 < (k::int) \<Longrightarrow> p div k = (p - 1) div k + (if p mod k = 0 then 1 else 0)"
proof -
  assume k: "0 < k"
  show ?thesis
  proof (cases "p mod k = 0")
    case True
    have "(p - 1) div k = p div k - 1"
    proof (rule int_div_pos_eq)
      show "p - 1 = k * (p div k - 1) + (k - 1)"
        using True mult_div_mod_eq [of k p] by (simp add: algebra_simps)
    qed (use k in simp_all)
    with True show ?thesis by simp
  next
    case False
    have "(p - 1) div k = p div k"
    proof (rule int_div_pos_eq)
      show "p - 1 = k * (p div k) + (p mod k - 1)"
        using mult_div_mod_eq [of k p] by simp
      show "0 \<le> p mod k - 1" using False k pos_mod_sign [of k p] by linarith
      show "p mod k - 1 < k" using k pos_mod_bound [of k p] by linarith
    qed
    with False show ?thesis by simp
  qed
qed

lemma days_before_year_Suc: "days_before_year (y + 1) = days_before_year y + year_len y"
proof -
  have m: "y mod 400 = 0 \<Longrightarrow> y mod 100 = 0" "y mod 100 = 0 \<Longrightarrow> y mod 4 = 0"
    by (auto simp: mod_eq_0_iff_dvd intro: dvd_trans)
  have d: "y div 4 = (y - 1) div 4 + (if y mod 4 = 0 then 1 else 0)"
    "y div 100 = (y - 1) div 100 + (if y mod 100 = 0 then 1 else 0)"
    "y div 400 = (y - 1) div 400 + (if y mod 400 = 0 then 1 else 0)"
    by (rule div_step, simp)+
  have s: "y + 1 - 1 = y" by simp
  show ?thesis
    unfolding days_before_year_def Let_def s d year_len_def leap_def
    using m by (cases "y mod 4 = 0"; cases "y mod 100 = 0"; cases "y mod 400 = 0") simp_all
qed

lemma days_before_era: "days_before_year (400 * e + 1) = 146097 * e"
  by (simp add: days_before_year_def Let_def)

lemma days_before_year_mono: "0 \<le> k \<Longrightarrow> days_before_year y \<le> days_before_year (y + int k)"
proof (induction k)
  case (Suc k)
  have "year_len (y + int k) \<ge> 0" by (simp add: year_len_def)
  with Suc days_before_year_Suc [of "y + int k"] show ?case by (simp add: algebra_simps)
qed simp

lemma find_year_spec:
  "0 \<le> r \<Longrightarrow> find_year y r = (y', r') \<Longrightarrow>
     y \<le> y' \<and> 0 \<le> r' \<and> r' < year_len y' \<and> days_before_year y' + r' = days_before_year y + r"
proof (induction y r rule: find_year.induct)
  case (1 y r)
  show ?case
  proof (cases "r < year_len y")
    case True
    with "1.prems" show ?thesis by (simp add: find_year.simps [of y r])
  next
    case False
    with "1.prems" have "find_year (y + 1) (r - year_len y) = (y', r')"
      by (simp add: find_year.simps [of y r])
    with "1.IH" [OF False] "1.prems" False days_before_year_Suc [of y] show ?thesis by auto
  qed
qed

lemma find_month_spec:
  "0 \<le> r \<Longrightarrow> r < sum_list ls \<Longrightarrow> find_month ls m r = (m', r') \<Longrightarrow>
     m \<le> m' \<and> m' < m + int (length ls) \<and> 0 \<le> r' \<and> r' < ls ! nat (m' - m) \<and>
     sum_list (take (nat (m' - m)) ls) + r' = r"
proof (induction ls m r rule: find_month.induct)
  case (2 l ls m r)
  show ?case
  proof (cases "r < l")
    case True
    with 2 show ?thesis by auto
  next
    case False
    with "2.prems" have "0 \<le> r - l" "r - l < sum_list ls" "find_month ls (m + 1) (r - l) = (m', r')"
      by auto
    from "2.IH" [OF False this] have
      a: "m + 1 \<le> m'" "m' < m + 1 + int (length ls)" "0 \<le> r'" "r' < ls ! nat (m' - (m + 1))"
         "sum_list (take (nat (m' - (m + 1))) ls) + r' = r - l" by auto
    from a(1) have "nat (m' - m) = Suc (nat (m' - (m + 1)))" by simp
    with a False show ?thesis by simp
  qed
qed simp

lemma sum_month_lens: "sum_list (month_lens y) = year_len y"
  by (simp add: month_lens_def year_len_def)

lemma days_ymd_spec:
  assumes "days_ymd n = (y, m, d)" and n: "0 \<le> n"
  shows "1 \<le> y" "1 \<le> m" "m \<le> 12" "1 \<le> d" "d \<le> month_lens y ! nat (m - 1)" "ymd_days y m d = n"
proof -
  obtain y' r where f: "find_year (400 * (n div 146097) + 1) (n mod 146097) = (y', r)"
    by (cases "find_year (400 * (n div 146097) + 1) (n mod 146097)") simp
  from find_year_spec [OF _ f]
  have s: "400 * (n div 146097) + 1 \<le> y'" "0 \<le> r" "r < year_len y'"
    "days_before_year y' + r = days_before_year (400 * (n div 146097) + 1) + n mod 146097"
    by simp_all
  have y: "1 \<le> y'" using s(1) n pos_imp_zdiv_nonneg_iff [of 146097 n] by linarith
  have nn: "days_before_year y' + r = n"
    using s(4) by (simp only: days_before_era) simp
  obtain m' d' where g: "find_month (month_lens y') 1 r = (m', d')"
    by (cases "find_month (month_lens y') 1 r") simp
  from assms f g have eq: "y = y'" "m = m'" "d = d' + 1"
    by (auto simp: days_ymd_def)
  have "r < sum_list (month_lens y')" using s(3) by (simp add: sum_month_lens)
  from find_month_spec [OF s(2) this g]
  have "1 \<le> m'" "m' < 1 + int (length (month_lens y'))" "0 \<le> d'"
    "d' < month_lens y' ! nat (m' - 1)" "sum_list (take (nat (m' - 1)) (month_lens y')) + d' = r"
    by auto
  then show "1 \<le> y" "1 \<le> m" "m \<le> 12" "1 \<le> d" "d \<le> month_lens y ! nat (m - 1)" "ymd_days y m d = n"
    using y nn eq by (auto simp: ymd_days_def days_before_month_def month_lens_def)
qed

section \<open>Fixed-width numbers\<close>

definition dig :: "int \<Rightarrow> char" where
  "dig n = char_of (48 + nat n)"

definition undig :: "char \<Rightarrow> int option" where
  "undig c = (let n = (of_char c :: int) in if 48 \<le> n \<and> n \<le> 57 then Some (n - 48) else None)"

fun show_num :: "nat \<Rightarrow> int \<Rightarrow> string" where
  "show_num 0 n = []"
| "show_num (Suc k) n = show_num k (n div 10) @ [dig (n mod 10)]"

fun read_num :: "nat \<Rightarrow> string \<Rightarrow> int \<Rightarrow> (int \<times> string) option" where
  "read_num 0 s a = Some (a, s)"
| "read_num (Suc k) [] a = None"
| "read_num (Suc k) (c # s) a =
     (case undig c of None \<Rightarrow> None | Some d \<Rightarrow> read_num k s (10 * a + d))"

lemma of_char_int: "(of_char c :: int) = int (of_char c)"
  by (cases c) simp

lemma undig_dig [simp]: "0 \<le> n \<Longrightarrow> n < 10 \<Longrightarrow> undig (dig n) = Some n"
  by (simp add: undig_def dig_def of_char_int)

lemma read_num_add:
  "read_num k s a = Some (b, s') \<Longrightarrow> read_num (k + j) s a = read_num j s' b"
  by (induction k s a rule: read_num.induct) (auto split: option.splits)

lemma read_show_num [simp]:
  "0 \<le> n \<Longrightarrow> n < 10 ^ k \<Longrightarrow> read_num k (show_num k n @ s) a = Some (a * 10 ^ k + n, s)"
proof (induction k arbitrary: n s)
  case (Suc k)
  have "read_num k (show_num k (n div 10) @ dig (n mod 10) # s) a =
        Some (a * 10 ^ k + n div 10, dig (n mod 10) # s)"
    using Suc.prems by (intro Suc.IH) auto
  from read_num_add [OF this, of 1] show ?case by simp
qed simp

lemma length_show_num [simp]: "length (show_num k n) = k"
  by (induction k arbitrary: n) auto

section \<open>Parsing and printing\<close>

datatype pydt =
    Naive int \<comment> \<open>the wall clock\<close>
  | Aware int int \<comment> \<open>the wall clock and the offset from UTC\<close>

definition expect :: "char \<Rightarrow> string \<Rightarrow> string option" where
  "expect c s = (case s of [] \<Rightarrow> None | x # r \<Rightarrow> if x = c then Some r else None)"

definition parse_date :: "string \<Rightarrow> (int \<times> string) option" where
  "parse_date s = do {
     (y, s) \<leftarrow> read_num 4 s 0; s \<leftarrow> expect CHR ''-'' s;
     (m, s) \<leftarrow> read_num 2 s 0; s \<leftarrow> expect CHR ''-'' s;
     (d, s) \<leftarrow> read_num 2 s 0;
     if valid_date y m d then Some (ymd_days y m d, s) else None }"

text \<open>Fractions of a second: at least one digit, those after the sixth are dropped.\<close>

definition parse_frac :: "string \<Rightarrow> (int \<times> string) option" where
  "parse_frac s =
     (let ds = takeWhile (\<lambda>c. undig c \<noteq> None) s
      in if ds = [] then None
         else map_option (\<lambda>r. (fst r, drop (length ds) s))
                (read_num 6 (ds @ replicate 6 CHR ''0'') 0))"

definition parse_secs :: "string \<Rightarrow> (int \<times> int \<times> string) option" where
  "parse_secs s =
     (case s of [] \<Rightarrow> Some (0, 0, [])
      | c # r \<Rightarrow>
          if c \<noteq> CHR '':'' then Some (0, 0, s)
          else do {
            (sec, r) \<leftarrow> read_num 2 r 0;
            (case r of [] \<Rightarrow> Some (sec, 0, [])
             | c # q \<Rightarrow>
                 if c = CHR ''.'' \<or> c = CHR '','' then do {
                   (us, q) \<leftarrow> parse_frac q; Some (sec, us, q) }
                 else Some (sec, 0, r)) })"

definition parse_time :: "string \<Rightarrow> (int \<times> string) option" where
  "parse_time s = do {
     (h, s) \<leftarrow> read_num 2 s 0; s \<leftarrow> expect CHR '':'' s;
     (m, s) \<leftarrow> read_num 2 s 0;
     (sec, us, s) \<leftarrow> parse_secs s;
     if h < 24 \<and> m < 60 \<and> sec < 60
     then Some (((h * 60 + m) * 60 + sec) * 1000000 + us, s) else None }"

definition parse_tz :: "string \<Rightarrow> int option option" where
  "parse_tz s =
     (case s of [] \<Rightarrow> Some None
      | c # r \<Rightarrow>
          if c = CHR ''Z'' then (if r = [] then Some (Some 0) else None)
          else if c = CHR ''+'' \<or> c = CHR ''-'' then do {
            (t, r) \<leftarrow> parse_time r;
            if r = [] then Some (Some (if c = CHR ''+'' then t else - t)) else None }
          else None)"

definition fromisoformat :: "string \<Rightarrow> pydt option" where
  "fromisoformat s = do {
     (n, s) \<leftarrow> parse_date s;
     (case s of [] \<Rightarrow> Some (Naive (n * 86400000000))
      | _ # r \<Rightarrow> do {
          (t, r) \<leftarrow> parse_time r;
          tz \<leftarrow> parse_tz r;
          let w = n * 86400000000 + t;
          Some (case tz of None \<Rightarrow> Naive w | Some off \<Rightarrow> Aware w off) }) }"

text \<open>The code's \<open>datetime.fromisoformat(text.replace("Z", "+00:00"))\<close>.\<close>

definition z_replace :: "string \<Rightarrow> string" where
  "z_replace s = concat (map (\<lambda>c. if c = CHR ''Z'' then ''+00:00'' else [c]) s)"

definition parse_iso :: "string \<Rightarrow> pydt option" where
  "parse_iso s = fromisoformat (z_replace s)"

text \<open>\<open>dt.replace(tzinfo=utc) if dt.tzinfo is None\<close>, then \<open>.astimezone(utc)\<close>.\<close>

fun utc_instant :: "pydt \<Rightarrow> int" where
  "utc_instant (Naive w) = w"
| "utc_instant (Aware w off) = w - off"

text \<open>\<open>a <= b\<close> on times as parsed: a naive and an aware time do not compare.\<close>

fun dt_le :: "pydt \<Rightarrow> pydt \<Rightarrow> py_error + bool" where
  "dt_le (Naive v) (Naive w) = Inr (v \<le> w)"
| "dt_le (Aware v o1) (Aware w o2) = Inr (v - o1 \<le> w - o2)"
| "dt_le _ _ = Inl (TypeError ''can't compare offset-naive and offset-aware datetimes'')"

text \<open>\<open>isoformat()\<close> of an aware UTC time.\<close>

definition iso_text :: "int \<Rightarrow> int \<Rightarrow> int \<Rightarrow> int \<Rightarrow> int \<Rightarrow> int \<Rightarrow> int \<Rightarrow> string" where
  "iso_text y m d h mi sec us =
     show_num 4 y @ ''-'' @ show_num 2 m @ ''-'' @ show_num 2 d @ ''T'' @
     show_num 2 h @ '':'' @ show_num 2 mi @ '':'' @ show_num 2 sec @
     (if us = 0 then [] else ''.'' @ show_num 6 us) @ ''+00:00''"

definition isoformat :: "int \<Rightarrow> string" where
  "isoformat t =
     (let r = t mod 86400000000; us = r mod 1000000; q = r div 1000000;
          (y, m, d) = days_ymd (t div 86400000000)
      in iso_text y m d (q div 3600) (q div 60 mod 60) (q mod 60) us)"

text \<open>\<open>isoformat(timespec="microseconds")\<close>: the fraction is printed even when it is zero.\<close>

definition iso_micros_text :: "int \<Rightarrow> int \<Rightarrow> int \<Rightarrow> int \<Rightarrow> int \<Rightarrow> int \<Rightarrow> int \<Rightarrow> string" where
  "iso_micros_text y m d h mi sec us =
     show_num 4 y @ ''-'' @ show_num 2 m @ ''-'' @ show_num 2 d @ ''T'' @
     show_num 2 h @ '':'' @ show_num 2 mi @ '':'' @ show_num 2 sec @
     ''.'' @ show_num 6 us @ ''+00:00''"

definition iso_micros :: "int \<Rightarrow> string" where
  "iso_micros t =
     (let r = t mod 86400000000; us = r mod 1000000; q = r div 1000000;
          (y, m, d) = days_ymd (t div 86400000000)
      in iso_micros_text y m d (q div 3600) (q div 60 mod 60) (q mod 60) us)"

text \<open>The instants whose UTC date Python can represent (years 1 to 9999).\<close>

definition valid_instant :: "int \<Rightarrow> bool" where
  "valid_instant t \<longleftrightarrow> 0 \<le> t \<and> t < 315537897600000000"

section \<open>What is printed is read back\<close>

lemma dig_not_Z: "0 \<le> n \<Longrightarrow> n < 10 \<Longrightarrow> dig n \<noteq> CHR ''Z''"
proof
  assume n: "0 \<le> n" "n < 10" and "dig n = CHR ''Z''"
  then have "undig CHR ''Z'' = Some n" using undig_dig [OF n] by simp
  then show False by (simp add: undig_def)
qed

lemma z_replace_simps [simp]:
  "z_replace [] = []"
  "z_replace (c # s) = (if c = CHR ''Z'' then ''+00:00'' @ z_replace s else c # z_replace s)"
  "z_replace (s @ t) = z_replace s @ z_replace t"
  by (simp_all add: z_replace_def)

lemma z_replace_show_num [simp]: "z_replace (show_num k n) = show_num k n"
proof (induction k arbitrary: n)
  case (Suc k)
  have "dig (n mod 10) \<noteq> CHR ''Z''" by (rule dig_not_Z) simp_all
  with Suc show ?case by simp
qed simp

lemma z_replace_iso_text [simp]: "z_replace (iso_text y m d h mi sec us) = iso_text y m d h mi sec us"
  by (simp add: iso_text_def)

lemma z_replace_isoformat [simp]: "z_replace (isoformat t) = isoformat t"
  unfolding isoformat_def Let_def by (simp only: z_replace_iso_text split: prod.split) simp

lemma month_lens_less: "1 \<le> m \<Longrightarrow> m \<le> 12 \<Longrightarrow> month_lens y ! nat (m - 1) < 100"
proof -
  assume "1 \<le> m" "m \<le> 12"
  then have "month_lens y ! nat (m - 1) \<in> set (month_lens y)"
    by (intro nth_mem) (simp add: month_lens_def)
  then show ?thesis by (auto simp: month_lens_def split: if_splits)
qed

lemma days_ymd_year:
  assumes "days_ymd n = (y, m, d)" "0 \<le> n" "n < 3652059"
  shows "y \<le> 9999"
proof (rule ccontr)
  assume "\<not> y \<le> 9999"
  then have "days_before_year 10000 \<le> days_before_year (10000 + int (nat (y - 10000)))"
    by (intro days_before_year_mono) simp
  with \<open>\<not> y \<le> 9999\<close> have "3652059 \<le> days_before_year y"
    by (simp add: days_before_year_def)
  moreover have "0 \<le> days_before_month y m"
    unfolding days_before_month_def
    by (rule sum_list_nonneg) (auto simp: month_lens_def dest!: in_set_takeD split: if_splits)
  ultimately show False
    using days_ymd_spec(4,6) [OF assms(1,2)] assms(3) by (simp add: ymd_days_def)
qed

lemma parse_date_show:
  assumes "days_ymd n = (y, m, d)" "0 \<le> n" "n < 3652059"
  shows "parse_date (show_num 4 y @ ''-'' @ show_num 2 m @ ''-'' @ show_num 2 d @ s) = Some (n, s)"
proof -
  note p = days_ymd_spec [OF assms(1,2)]
  have "d < 100" using p(5) month_lens_less [OF p(2,3), of y] by linarith
  then show ?thesis
    using p days_ymd_year [OF assms] by (simp add: parse_date_def expect_def valid_date_def)
qed

lemma parse_frac_show: 
  assumes "0 \<le> us" "us < 1000000"
  shows "parse_frac (show_num 6 us @ CHR ''+'' # s) = Some (us, CHR ''+'' # s)"
proof -
  have digs: "undig c \<noteq> None" if "c \<in> set (show_num k n)" for c k n
    using that by (induction k arbitrary: n) (auto simp del: not_None_eq)
  have plus: "undig CHR ''+'' = None" by (simp add: undig_def)
  have tw: "takeWhile (\<lambda>c. undig c \<noteq> None) (show_num 6 us @ CHR ''+'' # s) = show_num 6 us"
    using digs plus by (subst takeWhile_append2) auto
  have "show_num 6 us \<noteq> []" by (metis length_show_num list.size(3) zero_neq_numeral)
  then show ?thesis
    unfolding parse_frac_def Let_def tw using assms by simp
qed

lemma parse_tz_utc: "parse_tz ''+00:00'' = Some (Some 0)"
  by code_simp

lemma parse_time_show:
  assumes "0 \<le> h" "h < 24" "0 \<le> mi" "mi < 60" "0 \<le> sec" "sec < 60" "0 \<le> us" "us < 1000000"
  shows "parse_time (show_num 2 h @ '':'' @ show_num 2 mi @ '':'' @ show_num 2 sec @
      (if us = 0 then [] else ''.'' @ show_num 6 us) @ CHR ''+'' # z)
    = Some (((h * 60 + mi) * 60 + sec) * 1000000 + us, CHR ''+'' # z)"
proof -
  have "parse_secs ('':'' @ show_num 2 sec @
      (if us = 0 then [] else ''.'' @ show_num 6 us) @ CHR ''+'' # z) = Some (sec, us, CHR ''+'' # z)"
    using assms parse_frac_show [of us z] by (cases "us = 0") (simp_all add: parse_secs_def)
  then show ?thesis
    using assms by (simp add: parse_time_def expect_def)
qed

lemma parse_time_micros:
  assumes "0 \<le> h" "h < 24" "0 \<le> mi" "mi < 60" "0 \<le> sec" "sec < 60" "0 \<le> us" "us < 1000000"
  shows "parse_time (show_num 2 h @ '':'' @ show_num 2 mi @ '':'' @ show_num 2 sec @
      ''.'' @ show_num 6 us @ CHR ''+'' # z)
    = Some (((h * 60 + mi) * 60 + sec) * 1000000 + us, CHR ''+'' # z)"
proof -
  have "parse_secs ('':'' @ show_num 2 sec @ ''.'' @ show_num 6 us @ CHR ''+'' # z) =
      Some (sec, us, CHR ''+'' # z)"
    using assms parse_frac_show [of us z] by (simp add: parse_secs_def)
  then show ?thesis
    using assms by (simp add: parse_time_def expect_def)
qed

lemma fromisoformat_iso_text:
  assumes "days_ymd n = (y, m, d)" "0 \<le> n" "n < 3652059"
    and "0 \<le> h" "h < 24" "0 \<le> mi" "mi < 60" "0 \<le> sec" "sec < 60" "0 \<le> us" "us < 1000000"
  shows "fromisoformat (iso_text y m d h mi sec us) =
    Some (Aware (n * 86400000000 + (((h * 60 + mi) * 60 + sec) * 1000000 + us)) 0)"
proof -
  have "iso_text y m d h mi sec us =
      show_num 4 y @ ''-'' @ show_num 2 m @ ''-'' @ show_num 2 d @
      (CHR ''T'' # (show_num 2 h @ '':'' @ show_num 2 mi @ '':'' @ show_num 2 sec @
        (if us = 0 then [] else ''.'' @ show_num 6 us) @ CHR ''+'' # ''00:00''))"
    by (simp add: iso_text_def)
  then show ?thesis
    unfolding fromisoformat_def
    by (simp only: parse_date_show [OF assms(1-3)] parse_time_show [OF assms(4-)] parse_tz_utc
        bind.bind_lunit prod.case list.case option.case Let_def)
qed

lemma time_parts:
  assumes "valid_instant t"
  defines "n \<equiv> t div 86400000000" and "r \<equiv> t mod 86400000000"
  defines "us \<equiv> r mod 1000000" and "q \<equiv> r div 1000000"
  shows "0 \<le> n" "n < 3652059" "0 \<le> us" "us < 1000000" "0 \<le> q div 3600" "q div 3600 < 24"
    "0 \<le> q div 60 mod 60" "q div 60 mod 60 < 60" "0 \<le> q mod 60" "q mod 60 < 60"
    "n * 86400000000 + (((q div 3600 * 60 + q div 60 mod 60) * 60 + q mod 60) * 1000000 + us) = t"
proof -
  have nr: "n * 86400000000 + r = t" "0 \<le> r" "r < 86400000000"
    by (simp_all add: n_def r_def)
  have qu: "q * 1000000 + us = r" "0 \<le> us" "us < 1000000"
    by (simp_all add: q_def us_def)
  show "0 \<le> n" "n < 3652059" using nr assms(1) by (auto simp: valid_instant_def)
  show "0 \<le> us" "us < 1000000" using qu by auto
  have q: "0 \<le> q" "q < 86400" using qu nr by linarith+
  have "q div 60 div 60 = q div 3600" by (simp add: zdiv_zmult2_eq [symmetric])
  then have h: "q div 3600 * 60 + q div 60 mod 60 = q div 60"
    by (metis div_mult_mod_eq)
  show "0 \<le> q div 3600" "0 \<le> q div 60 mod 60" "q div 60 mod 60 < 60" "0 \<le> q mod 60" "q mod 60 < 60"
    using q by (simp_all add: pos_imp_zdiv_nonneg_iff)
  show "q div 3600 < 24" using q by linarith
  show "n * 86400000000 + (((q div 3600 * 60 + q div 60 mod 60) * 60 + q mod 60) * 1000000 + us) = t"
    using nr qu by (simp only: h div_mult_mod_eq)
qed

lemma fromisoformat_micros:
  assumes "days_ymd n = (y, m, d)" "0 \<le> n" "n < 3652059"
    and "0 \<le> h" "h < 24" "0 \<le> mi" "mi < 60" "0 \<le> sec" "sec < 60" "0 \<le> us" "us < 1000000"
  shows "fromisoformat (iso_micros_text y m d h mi sec us) =
    Some (Aware (n * 86400000000 + (((h * 60 + mi) * 60 + sec) * 1000000 + us)) 0)"
proof -
  have "iso_micros_text y m d h mi sec us =
      show_num 4 y @ ''-'' @ show_num 2 m @ ''-'' @ show_num 2 d @
      (CHR ''T'' # (show_num 2 h @ '':'' @ show_num 2 mi @ '':'' @ show_num 2 sec @
        ''.'' @ show_num 6 us @ CHR ''+'' # ''00:00''))"
    by (simp add: iso_micros_text_def)
  then show ?thesis
    unfolding fromisoformat_def
    by (simp only: parse_date_show [OF assms(1-3)] parse_time_micros [OF assms(4-)] parse_tz_utc
        bind.bind_lunit prod.case list.case option.case Let_def)
qed

lemma z_replace_micros [simp]: "z_replace (iso_micros t) = iso_micros t"
  by (simp add: iso_micros_def iso_micros_text_def Let_def split: prod.split)

lemma parse_iso_micros:
  assumes "valid_instant t"
  shows "parse_iso (iso_micros t) = Some (Aware t 0)"
proof -
  obtain y m d where ymd: "days_ymd (t div 86400000000) = (y, m, d)"
    by (cases "days_ymd (t div 86400000000)")
  note tp = time_parts [OF assms]
  show ?thesis
    unfolding parse_iso_def z_replace_micros
    unfolding iso_micros_def ymd Let_def prod.case
      fromisoformat_micros [OF ymd tp(1,2,5-10) tp(3,4)] tp(11) ..
qed

lemma hd_show_num: "0 < k \<Longrightarrow> \<exists>j. hd (show_num k n) = dig (j mod 10) \<and> show_num k n \<noteq> []"
proof (induction k arbitrary: n)
  case (Suc k)
  show ?case
  proof (cases "k = 0")
    case False
    with Suc.IH [of "n div 10"] show ?thesis by (auto simp: hd_append)
  qed auto
qed simp

lemma dig_not_space: "\<not> py_space (dig (j mod 10))"
proof -
  have "nat (j mod 10) < 10" by simp
  then show ?thesis by (simp add: py_space_def dig_def)
qed

lemma strip_micros [simp]: "strip (iso_micros t) = iso_micros t" "iso_micros t \<noteq> []"
proof -
  obtain y m d where ymd: "days_ymd (t div 86400000000) = (y, m, d)"
    by (cases "days_ymd (t div 86400000000)")
  obtain j where "hd (show_num 4 y) = dig (j mod 10)" "show_num 4 y \<noteq> []"
    using hd_show_num [of 4 y] by auto
  then have "\<not> py_space (hd (iso_micros t))" "iso_micros t \<noteq> []"
    by (simp_all add: iso_micros_def iso_micros_text_def ymd Let_def dig_not_space del: show_num.simps)
  moreover have "\<not> py_space (last (iso_micros t))"
    by (simp add: iso_micros_def iso_micros_text_def ymd Let_def py_space_def)
  ultimately show "strip (iso_micros t) = iso_micros t" "iso_micros t \<noteq> []"
    by (simp_all add: strip_stripped stripped_def)
qed

theorem parse_isoformat:
  assumes "valid_instant t"
  shows "parse_iso (isoformat t) = Some (Aware t 0)"
proof -
  obtain y m d where ymd: "days_ymd (t div 86400000000) = (y, m, d)"
    by (cases "days_ymd (t div 86400000000)")
  note tp = time_parts [OF assms]
  show ?thesis
    unfolding parse_iso_def z_replace_isoformat
    unfolding isoformat_def ymd Let_def prod.case
      fromisoformat_iso_text [OF ymd tp(1,2,5-10) tp(3,4)] tp(11) ..
qed

end
