(* ===== verification/Json_Values.thy ===== *)
theory Json_Values
  imports Timestamps
begin

text \<open>
  The free-form dictionaries of the code: tickets, messages, account cases and payloads are
  Python dictionaries of JSON values, and the code reads them with \<open>dict.get\<close>, truthiness
  and \<open>str(x or "")\<close>. Here a JSON value is a \<open>json\<close>, a dictionary an association list in
  insertion order. Floating-point numbers do not occur.
\<close>

datatype json =
    JNull
  | JBool bool
  | JInt int
  | JStr string
  | JList "json list"
  | JDict "(string \<times> json) list"

type_synonym jdict = "(string, json) dict"

section \<open>Printing\<close>

fun show_digits :: "nat \<Rightarrow> int \<Rightarrow> string" where
  "show_digits 0 n = []"
| "show_digits (Suc k) n =
     (if n < 10 then [dig n] else show_digits k (n div 10) @ [dig (n mod 10)])"

text \<open>\<open>str(n)\<close>: a number has no more digits than it has bits.\<close>

definition show_int :: "int \<Rightarrow> string" where
  "show_int n = (if n < 0 then CHR ''-'' # show_digits (nat (- n) + 1) (- n)
                 else show_digits (nat n + 1) n)"

lemma show_digits_fuel:
  "0 \<le> n \<Longrightarrow> nat n < k \<Longrightarrow> nat n < j \<Longrightarrow> show_digits k n = show_digits j n"
proof (induction k arbitrary: n j)
  case (Suc k)
  then obtain i where "j = Suc i" by (cases j) auto
  moreover have "n < 10 \<or> show_digits k (n div 10) = show_digits i (n div 10)"
  proof (cases "n < 10")
    case False
    then have "nat (n div 10) < nat n" by (simp add: nat_less_eq_zless)
    with Suc.prems \<open>j = Suc i\<close> have "nat (n div 10) < k" "nat (n div 10) < i" by auto
    with Suc.prems show ?thesis using Suc.IH [of "n div 10" i] by simp
  qed simp
  ultimately show ?case by auto
qed simp

lemma show_int_rec [code]:
  "show_int n = (if n < 0 then CHR ''-'' # show_int (- n)
     else if n < 10 then [dig n] else show_int (n div 10) @ [dig (n mod 10)])"
proof (cases "n < 10")
  case False
  then have "nat (n div 10) < nat n" by (simp add: nat_less_eq_zless)
  then have "show_digits (nat n) (n div 10) = show_digits (nat (n div 10) + 1) (n div 10)"
    using False by (intro show_digits_fuel) auto
  with False show ?thesis by (simp add: show_int_def)
qed (simp add: show_int_def)

text \<open>\<open>repr\<close> of a string and of a value, which \<open>str\<close> of a list or a dictionary prints.\<close>

definition hex_digit :: "nat \<Rightarrow> char" where
  "hex_digit n = (if n < 10 then char_of (48 + n) else char_of (87 + n))"

definition repr_char :: "char \<Rightarrow> char \<Rightarrow> string" where
  "repr_char q c =
     (let n = (of_char c :: nat)
      in if c = q \<or> n = 92 then [CHR 0x5C, c]
         else if n = 9 then [CHR 0x5C, CHR ''t'']
         else if n = 10 then [CHR 0x5C, CHR ''n'']
         else if n = 13 then [CHR 0x5C, CHR ''r'']
         else if n < 32 \<or> (127 \<le> n \<and> n \<le> 160) \<or> n = 173
         then [CHR 0x5C, CHR ''x'', hex_digit (n div 16), hex_digit (n mod 16)]
         else [c])"

definition repr_str :: "string \<Rightarrow> string" where
  "repr_str s =
     (let q = (if CHR 0x27 \<in> set s \<and> CHR 0x22 \<notin> set s then CHR 0x22 else CHR 0x27)
      in [q] @ concat (map (repr_char q) s) @ [q])"

fun intersperse :: "string \<Rightarrow> string list \<Rightarrow> string" where
  "intersperse sep [] = []"
| "intersperse sep [x] = x"
| "intersperse sep (x # y # xs) = x @ sep @ intersperse sep (y # xs)"

fun py_repr :: "json \<Rightarrow> string" where
  "py_repr JNull = ''None''"
| "py_repr (JBool b) = (if b then ''True'' else ''False'')"
| "py_repr (JInt n) = show_int n"
| "py_repr (JStr s) = repr_str s"
| "py_repr (JList xs) = ''['' @ intersperse '', '' (map py_repr xs) @ '']''"
| "py_repr (JDict d) =
     ''{'' @ intersperse '', '' (map (\<lambda>(k, v). repr_str k @ '': '' @ py_repr v) d) @ ''}''"

fun py_str :: "json \<Rightarrow> string" where
  "py_str (JStr s) = s"
| "py_str v = py_repr v"

section \<open>Reading\<close>

fun truthy :: "json \<Rightarrow> bool" where
  "truthy JNull = False"
| "truthy (JBool b) = b"
| "truthy (JInt n) = (n \<noteq> 0)"
| "truthy (JStr s) = (s \<noteq> [])"
| "truthy (JList xs) = (xs \<noteq> [])"
| "truthy (JDict d) = (d \<noteq> [])"

text \<open>\<open>d.get(k)\<close>, where a missing key reads as \<open>None\<close>, and \<open>a or b\<close>.\<close>

definition jget :: "jdict \<Rightarrow> string \<Rightarrow> json" where
  "jget d k = (case dget d k of None \<Rightarrow> JNull | Some v \<Rightarrow> v)"

definition jor :: "json \<Rightarrow> json \<Rightarrow> json" where
  "jor a b = (if truthy a then a else b)"

text \<open>\<open>str(x or "")\<close>, then \<open>.strip()\<close>, then \<open>.lower()\<close>; the value of \<open>s or None\<close>.\<close>

definition jstr :: "json \<Rightarrow> string" where
  "jstr x = (if truthy x then py_str x else [])"

definition jstrip :: "json \<Rightarrow> string" where
  "jstrip x = strip (jstr x)"

definition jlower :: "json \<Rightarrow> string" where
  "jlower x = lower (jstrip x)"

definition jopt :: "string \<Rightarrow> json" where
  "jopt s = (if s = [] then JNull else JStr s)"

text \<open>\<open>dict(x) if isinstance(x, dict) else {}\<close>, \<open>isinstance(x, dict)\<close>.\<close>

fun jdict :: "json \<Rightarrow> jdict" where
  "jdict (JDict d) = d"
| "jdict _ = []"

fun jlist :: "json \<Rightarrow> json list" where
  "jlist (JList xs) = xs"
| "jlist _ = []"

fun is_jdict :: "json \<Rightarrow> bool" where
  "is_jdict (JDict d) = True"
| "is_jdict _ = False"

fun of_opt :: "string option \<Rightarrow> json" where
  "of_opt None = JNull"
| "of_opt (Some s) = JStr s"

text \<open>\<open>d.update({...})\<close>, key by key.\<close>

definition jupdate :: "jdict \<Rightarrow> jdict \<Rightarrow> jdict" where
  "jupdate new d = fold (\<lambda>(k, v). dset k v) new d"

lemma jget_dset [simp]: "jget (dset k v d) j = (if j = k then v else jget d j)"
  by (simp add: jget_def dget_dset)

lemma jget_Nil [simp]: "jget [] k = JNull"
  by (simp add: jget_def)

lemma jget_Cons [simp]: "jget ((k, v) # d) j = (if j = k then v else jget d j)"
  by (simp add: jget_def)

lemma jstr_simps [simp]: "jstr (JStr s) = s" "jstr JNull = []"
  by (simp_all add: jstr_def)

lemma jstrip_simps [simp]:
  "jstrip (JStr s) = strip s" "jstrip JNull = []" "jlower (JStr s) = slower s" "jlower JNull = []"
  by (simp_all add: jstrip_def jlower_def slower_def)

lemma strip_jstrip [simp]: "strip (jstrip x) = jstrip x" "slower (jlower x) = jlower x"
  by (simp_all add: jstrip_def jlower_def slower_def)

lemma jopt_simps [simp]: "jstr (jopt s) = s" "truthy (jopt s) = (s \<noteq> [])"
  "jstrip (jopt s) = strip s" "jlower (jopt s) = slower s"
  by (simp_all add: jopt_def)

lemma jupdate_simps [simp]:
  "jupdate [] d = d" "jupdate ((k, v) # new) d = jupdate new (dset k v d)"
  by (simp_all add: jupdate_def)

lemma jget_jupdate:
  "wf_dict new \<Longrightarrow> jget (jupdate new d) k = (if k \<in> fst ` set new then jget new k else jget d k)"
  by (induction new arbitrary: d) (auto simp: rev_image_eqI)

section \<open>Splitting\<close>

text \<open>\<open>s.split()\<close> and \<open>" ".join(s.split())\<close>.\<close>

fun words_acc :: "string \<Rightarrow> string \<Rightarrow> string list" where
  "words_acc w [] = (if w = [] then [] else [rev w])"
| "words_acc w (c # s) =
     (if py_space c then (if w = [] then words_acc [] s else rev w # words_acc [] s)
      else words_acc (c # w) s)"

definition split_ws :: "string \<Rightarrow> string list" where
  "split_ws s = words_acc [] s"

definition join_ws :: "string \<Rightarrow> string" where
  "join_ws s = intersperse '' '' (split_ws s)"

lemma words_acc_plain:
  "\<forall>c \<in> set v. \<not> py_space c \<Longrightarrow> words_acc w (v @ s) = words_acc (rev v @ w) s"
  by (induction v arbitrary: w) auto

lemma words_acc_words:
  "\<forall>c \<in> set w. \<not> py_space c \<Longrightarrow> v \<in> set (words_acc w s) \<Longrightarrow> v \<noteq> [] \<and> (\<forall>c \<in> set v. \<not> py_space c)"
proof (induction w s rule: words_acc.induct)
  case (1 w)
  then show ?case by (cases "w = []") simp_all
next
  case (2 w c s)
  consider "py_space c" "w = []" | "py_space c" "w \<noteq> []" | "\<not> py_space c" by blast
  then show ?case
  proof cases
    case 1
    with 2(1) [OF 1] 2(5) show ?thesis by simp
  next
    case 2
    with \<open>v \<in> set (words_acc w (c # s))\<close> have "v = rev w \<or> v \<in> set (words_acc [] s)" by simp
    with 2 "2.IH"(2) [OF 2] "2.prems"(1) show ?thesis by auto
  next
    case 3
    with "2.IH"(3) [OF 3] "2.prems" show ?thesis by simp
  qed
qed

lemma split_join:
  "\<forall>v \<in> set ws. v \<noteq> [] \<and> (\<forall>c \<in> set v. \<not> py_space c) \<Longrightarrow> split_ws (intersperse '' '' ws) = ws"
proof (induction ws rule: induct_list012)
  case (2 v)
  then show ?case using words_acc_plain [of v "[]" "[]"] by (simp add: split_ws_def)
next
  case (3 v u ws)
  have "py_space CHR '' ''" by (simp add: py_space_def)
  then have "split_ws (v @ '' '' @ intersperse '' '' (u # ws)) = v # split_ws (intersperse '' '' (u # ws))"
    using 3(3) words_acc_plain [of v "[]" "'' '' @ intersperse '' '' (u # ws)"] by (simp add: split_ws_def)
  with 3 show ?case by simp
qed (simp add: split_ws_def)

lemma intersperse_ends:
  "ws \<noteq> [] \<Longrightarrow> \<forall>v \<in> set ws. v \<noteq> [] \<Longrightarrow>
     intersperse sep ws \<noteq> [] \<and> hd (intersperse sep ws) = hd (hd ws) \<and>
     last (intersperse sep ws) = last (last ws)"
  by (induction ws rule: induct_list012) auto

lemma strip_join_ws [simp]: "strip (join_ws s) = join_ws s"
proof (cases "split_ws s = []")
  case False
  have w: "v \<noteq> [] \<and> (\<forall>c \<in> set v. \<not> py_space c)" if "v \<in> set (split_ws s)" for v
    using words_acc_words [of "[]" v s] that by (simp add: split_ws_def)
  have "hd (split_ws s) \<in> set (split_ws s)" "last (split_ws s) \<in> set (split_ws s)" using False by simp_all
  with w have "\<not> py_space (hd (hd (split_ws s)))" "\<not> py_space (last (last (split_ws s)))" by auto
  with intersperse_ends [OF False, of "'' ''"] w show ?thesis
    by (intro strip_stripped) (simp add: stripped_def join_ws_def)
qed (simp add: join_ws_def)

lemma join_ws_idem [simp]: "join_ws (join_ws s) = join_ws s"
proof -
  have "\<forall>v \<in> set (split_ws s). v \<noteq> [] \<and> (\<forall>c \<in> set v. \<not> py_space c)"
    using words_acc_words [of "[]" _ s] by (simp add: split_ws_def)
  then show ?thesis by (simp add: join_ws_def split_join)
qed

text \<open>\<open>t in s\<close>.\<close>

fun occurs_in :: "string \<Rightarrow> string \<Rightarrow> bool" where
  "occurs_in t [] = (t = [])"
| "occurs_in t (c # s) = (take (length t) (c # s) = t \<or> occurs_in t s)"

text \<open>\<open>urllib.parse.quote(s, safe="")\<close> of code points below 256, encoded as UTF-8.\<close>

definition unreserved :: "char \<Rightarrow> bool" where
  "unreserved c =
     (let n = (of_char c :: nat)
      in (65 \<le> n \<and> n \<le> 90) \<or> (97 \<le> n \<and> n \<le> 122) \<or> (48 \<le> n \<and> n \<le> 57) \<or>
         n = 45 \<or> n = 46 \<or> n = 95 \<or> n = 126)"

definition utf8 :: "char \<Rightarrow> nat list" where
  "utf8 c = (let n = (of_char c :: nat) in if n < 128 then [n] else [192 + n div 64, 128 + n mod 64])"

definition percent :: "nat \<Rightarrow> string" where
  "percent n =
     (let h = (\<lambda>d. if d < 10 then char_of (48 + d) else char_of (55 + d))
      in [CHR ''%'', h (n div 16), h (n mod 16)])"

definition quote :: "string \<Rightarrow> string" where
  "quote s = concat (map (\<lambda>c. if unreserved c then [c] else concat (map percent (utf8 c))) s)"

section \<open>Integers\<close>

text \<open>\<open>int(text)\<close>: blanks around, a sign, digits with single underscores between them.\<close>

fun int_digits :: "string \<Rightarrow> int \<Rightarrow> int option" where
  "int_digits [] a = Some a"
| "int_digits (c # s) a =
     (case undig c of
        Some d \<Rightarrow> int_digits s (10 * a + d)
      | None \<Rightarrow>
          if c \<noteq> CHR ''_'' then None
          else case s of [] \<Rightarrow> None
             | c' # s' \<Rightarrow> (case undig c' of None \<Rightarrow> None | Some d \<Rightarrow> int_digits s' (10 * a + d)))"

definition py_int :: "string \<Rightarrow> int option" where
  "py_int text =
     (let s = strip text;
          neg = (s \<noteq> [] \<and> hd s = CHR ''-'');
          t = (if s \<noteq> [] \<and> hd s \<in> {CHR ''-'', CHR ''+''} then tl s else s)
      in if t = [] \<or> undig (hd t) = None then None
         else map_option (\<lambda>n. if neg then - n else n) (int_digits t 0))"

text \<open>\<open>int(x)\<close>, where \<open>None\<close> stands for \<open>TypeError\<close> or \<open>ValueError\<close>.\<close>

fun jint :: "json \<Rightarrow> int option" where
  "jint (JInt n) = Some n"
| "jint (JBool b) = Some (if b then 1 else 0)"
| "jint (JStr s) = py_int s"
| "jint _ = None"

text \<open>\<open>d.get(k, default)\<close>.\<close>

definition jget_or :: "jdict \<Rightarrow> string \<Rightarrow> json \<Rightarrow> json" where
  "jget_or d k w = (case dget d k of None \<Rightarrow> w | Some v \<Rightarrow> v)"

end
