(* ===== verification/Case_Routing.thy ===== *)
theory Case_Routing
  imports Json_Values
begin

text \<open>
  The route taxonomy of account cases: processing profiles
  (\<open>services/account_processing_profiles.py\<close>), the registry of automations
  (\<open>services/automation_routing.py\<close>, \<open>services/account_billing_handlers.py\<close>,
  \<open>services/account_automation_handlers.py\<close>), the case filters of the list view
  (\<open>services/account_case_filters.py\<close>) and the normal form every stored case has
  (\<open>_normalize_account_case_record\<close>).

  A case is a dictionary of JSON values.
\<close>

text \<open>\<open>str(x or d).strip().lower()\<close>, \<open>str(x).strip().lower()\<close>.\<close>

definition jlower_or :: "json \<Rightarrow> string \<Rightarrow> string" where
  "jlower_or x d = slower (if truthy x then py_str x else d)"

section \<open>Processing profiles\<close>

definition account_processing_profiles :: "string list" where
  "account_processing_profiles = [''staging'', ''preproduction'', ''production'']"

definition live_account_processing_profiles :: "string list" where
  "live_account_processing_profiles = [''preproduction'', ''production'']"

definition normalize_account_processing_profile :: "json \<Rightarrow> string \<Rightarrow> py_error + string" where
  "normalize_account_processing_profile value d =
     (let normalized = jlower_or value d
      in if normalized \<notin> set account_processing_profiles
         then Inl (ValueError ''processing_profile must be staging, preproduction, or production'')
         else Inr normalized)"

definition is_live_account_processing_profile :: "json \<Rightarrow> bool" where
  "is_live_account_processing_profile value = (jlower value \<in> set live_account_processing_profiles)"

section \<open>The registry of automations\<close>

definition active_automation_subcategories :: "string list" where
  "active_automation_subcategories = [''fraud_account'', ''enablement'', ''account_suspension'']"

definition automation_handler_registry :: "(string, string list) dict" where
  "automation_handler_registry =
     [(''billing'', [''account_verification'', ''fraud_account'', ''detailed_invoice'']),
      (''enablement'', [''enablement'']),
      (''quota'', [''quota'']),
      (''account_suspension'', [''account_suspension''])]"

definition registered_automation_subcategories :: "string list" where
  "registered_automation_subcategories = concat (dvalues automation_handler_registry)"

definition handler_for_subcategory :: "string \<Rightarrow> string option" where
  "handler_for_subcategory subcategory =
     map_option fst (find (\<lambda>(handler, supported). subcategory \<in> set supported) automation_handler_registry)"

text \<open>The table of aliases is empty.\<close>

definition canonical_automation_subcategory :: "json \<Rightarrow> string" where
  "canonical_automation_subcategory value = jlower value"

text \<open>The four fields of a route, as the dictionary the code returns.\<close>

definition route_metadata :: "json \<Rightarrow> json \<Rightarrow> string \<Rightarrow> json \<Rightarrow> jdict" where
  "route_metadata category subcategory route_status handler =
     [(''category'', category), (''subcategory'', subcategory),
      (''route_status'', JStr route_status), (''automation_handler'', handler)]"

definition automation_metadata :: "json \<Rightarrow> json \<Rightarrow> jdict" where
  "automation_metadata route_family execution_action =
     (let family = jlower route_family;
          action = canonical_automation_subcategory execution_action;
          automated = (family \<in> {''automated'', ''billing_automation''})
      in case (if automated \<and> action \<in> set active_automation_subcategories
               then handler_for_subcategory action else None) of
           None \<Rightarrow> route_metadata (if family \<noteq> [] \<and> \<not> automated then JStr family else JNull)
                      (jopt action) ''not_automated'' JNull
         | Some handler \<Rightarrow> route_metadata (JStr ''automation'') (JStr action) ''automated'' (JStr handler))"

definition is_registered_automation :: "json \<Rightarrow> json \<Rightarrow> bool" where
  "is_registered_automation route_family execution_action =
     (jget (automation_metadata route_family execution_action) ''route_status'' = JStr ''automated'')"

definition account_billing_subcategories :: "string list" where
  "account_billing_subcategories = [''account_suspension'', ''fraud_account'', ''detailed_invoice'', ''other'']"

text \<open>The implementation registered for a billing subcategory.\<close>

definition account_billing_handlers :: "(string, string option) dict" where
  "account_billing_handlers =
     [(''account_suspension'', Some ''billing''), (''fraud_account'', Some ''billing''),
      (''detailed_invoice'', Some ''billing''), (''other'', None)]"

definition account_billing_handler :: "json \<Rightarrow> (string \<times> string option) option" where
  "account_billing_handler subcategory =
     (let k = jlower subcategory in map_option (Pair k) (dget account_billing_handlers k))"

definition account_billing_metadata :: "json \<Rightarrow> jdict" where
  "account_billing_metadata subcategory =
     (let s = jlower subcategory;
          normalized = (if s \<in> set account_billing_subcategories then s else ''other'');
          automated = (normalized \<in> set active_automation_subcategories)
      in route_metadata (JStr ''account_billing'') (JStr normalized)
           (if automated then ''automated'' else ''not_automated'')
           (if normalized = ''account_suspension'' then JStr normalized
            else if automated then JStr ''billing'' else JNull))"

text \<open>Handler and implementation of the automations, the deprecated alias first.\<close>

definition account_automation_handlers :: "(string, string \<times> string) dict" where
  "account_automation_handlers =
     [(''account_verification'', ''billing'', ''account_verification''),
      (''fraud_account'', ''billing'', ''account_verification''),
      (''detailed_invoice'', ''billing'', ''billing''),
      (''enablement'', ''enablement'', ''enablement''),
      (''quota'', ''quota'', ''quota''),
      (''account_suspension'', ''account_suspension'', ''account_suspension'')]"

definition account_automation_handler :: "string \<Rightarrow> (string \<times> string) option" where
  "account_automation_handler subcategory = dget account_automation_handlers (slower subcategory)"

definition registered_account_automation_subcategories :: "string list" where
  "registered_account_automation_subcategories =
     filter (\<lambda>k. k \<noteq> ''account_verification'') (map fst account_automation_handlers)"

section \<open>Case filters\<close>

text \<open>The groups of the list view with their children, in display order.\<close>

record filter_group =
  fg_id :: string
  fg_label :: string
  fg_children :: "(string \<times> string) list"

definition account_case_filter_groups :: "filter_group list" where
  "account_case_filter_groups =
     [\<lparr> fg_id = ''all'', fg_label = ''All'', fg_children = [] \<rparr>,
      \<lparr> fg_id = ''automation'', fg_label = ''Automated'', fg_children =
          [(''fraud_account'', ''Account & Billing / Fraud Account''),
           (''enablement'', ''Backend Operation / Enablement'')] \<rparr>,
      \<lparr> fg_id = ''backend_operation'', fg_label = ''Backend Operation'', fg_children =
          [(''enablement'', ''Enablement''), (''quota'', ''Quota''), (''unregistered'', ''Unregistered'')] \<rparr>,
      \<lparr> fg_id = ''account_billing'', fg_label = ''Account & Billing'', fg_children =
          [(''account_suspension'', ''Account Suspension''), (''fraud_account'', ''Fraud Account''),
           (''detailed_invoice'', ''Detailed Invoice''), (''other'', ''Other'')] \<rparr>,
      \<lparr> fg_id = ''agora_technical'', fg_label = ''Tech'', fg_children = [] \<rparr>,
      \<lparr> fg_id = ''security_compliance'', fg_label = ''Security & Compliance'', fg_children = [] \<rparr>,
      \<lparr> fg_id = ''conversation'', fg_label = ''Conversation'', fg_children =
          [(''resolve'', ''Resolve''), (''follow_up'', ''Follow-up''), (''human_review'', ''Human Review'')] \<rparr>,
      \<lparr> fg_id = ''human_review'', fg_label = ''Human Review'', fg_children =
          [(''uncategorized'', ''Uncategorized''), (''uncertain'', ''Uncertain''),
           (''non_agora'', ''Non-Agora''), (''other'', ''Other'')] \<rparr>]"

text \<open>A group or leaf key, \<open>group:child\<close>.\<close>

definition leaf_key :: "string \<Rightarrow> string \<Rightarrow> string" where
  "leaf_key gid child = gid @ '':'' @ child"

definition account_case_filter_keys :: "string list" where
  "account_case_filter_keys =
     ''all'' # concat (map (\<lambda>g. fg_id g # map (\<lambda>c. leaf_key (fg_id g) (fst c)) (fg_children g))
       (filter (\<lambda>g. fg_id g \<noteq> ''all'') account_case_filter_groups))"

definition legacy_route_filters :: "(string, string) dict" where
  "legacy_route_filters =
     [(''human_review'', ''human_review''), (''conversation'', ''conversation''),
      (''agora_technical'', ''agora_technical''), (''agora_non_technical'', ''agora_non_technical''),
      (''account_billing'', ''account_billing''), (''uncertain'', ''human_review:uncertain'')]"

definition find_group :: "string \<Rightarrow> filter_group option" where
  "find_group i = find (\<lambda>g. fg_id g = i) account_case_filter_groups"

text \<open>The filter of a group and a subcategory, both normalised.\<close>

definition group_filter :: "string \<Rightarrow> string \<Rightarrow> py_error + string option" where
  "group_filter gid sub =
     (if gid = ''all'' then
        (if sub \<noteq> [] then Inl (ValueError ''All does not accept a route_subcategory'') else Inr None)
      else if gid = ''human_review'' \<and> sub = ''unregistered'' then Inr (Some ''human_review:unregistered'')
      else if gid = ''agora_non_technical'' then
        (if sub \<noteq> [] then Inl (ValueError ''deprecated route_group does not accept a route_subcategory'')
         else Inr (Some gid))
      else case find_group gid of
          None \<Rightarrow> Inl (ValueError ''unsupported route_group'')
        | Some g \<Rightarrow>
            if sub = [] then Inr (Some gid)
            else if sub \<notin> set (map fst (fg_children g))
            then Inl (ValueError ''unsupported route_subcategory for route_group'')
            else Inr (Some (leaf_key gid sub)))"

definition split_colon :: "string \<Rightarrow> string \<times> string" where
  "split_colon s = (takeWhile (\<lambda>c. c \<noteq> CHR '':'') s, tl (dropWhile (\<lambda>c. c \<noteq> CHR '':'') s))"

definition legacy_filter :: "string \<Rightarrow> py_error + string option" where
  "legacy_filter legacy =
     (case dget legacy_route_filters legacy of
        Some k \<Rightarrow> Inr (Some k)
      | None \<Rightarrow>
          if legacy = ''all'' then Inr None
          else if find_group legacy \<noteq> None then Inr (Some legacy)
          else if CHR '':'' \<in> set legacy then
            (if legacy = ''human_review:unregistered'' then Inr (Some legacy)
             else let (g, s) = split_colon legacy; gid = slower g; sub = slower s
                  in if gid = [] then
                       (if sub \<noteq> [] then Inl (ValueError ''route_subcategory requires route_group'') else Inr None)
                     else group_filter gid sub)
          else Inl (ValueError ''unsupported route_label''))"

definition normalize_account_case_filter ::
  "string option \<Rightarrow> string option \<Rightarrow> string option \<Rightarrow> py_error + string option" where
  "normalize_account_case_filter route_group subcategory legacy_label =
     (let g = olower route_group; s = olower subcategory; l = olower legacy_label
      in if g \<noteq> [] \<and> l \<noteq> [] then Inl (ValueError ''route_group and route_label cannot be used together'')
         else if s \<noteq> [] \<and> g = [] then Inl (ValueError ''route_subcategory requires route_group'')
         else if g \<noteq> [] then group_filter g s
         else if l \<noteq> [] then legacy_filter l
         else Inr None)"

definition backend_operation_subcategories :: "string list" where
  "backend_operation_subcategories = [''enablement'', ''quota'', ''unregistered'']"

definition backend_operation_metadata :: "json \<Rightarrow> jdict" where
  "backend_operation_metadata subcategory =
     (let s = jlower subcategory;
          normalized = (if s \<in> set backend_operation_subcategories then s else ''unregistered'');
          automated = (normalized = ''enablement'')
      in route_metadata (JStr ''backend_operation'') (JStr normalized)
           (if automated then ''automated'' else ''not_automated'')
           (if automated then JStr normalized else JNull))"

definition security_compliance_metadata :: jdict where
  "security_compliance_metadata = route_metadata (JStr ''security_compliance'') JNull ''not_automated'' JNull"

fun first_nonempty_route_value :: "json list \<Rightarrow> string" where
  "first_nonempty_route_value [] = []"
| "first_nonempty_route_value (v # vs) = (if jlower v \<noteq> [] then jlower v else first_nonempty_route_value vs)"

text \<open>\<open>source.get(k) if isinstance(source, dict) else None\<close>.\<close>

definition source_get :: "jdict \<Rightarrow> json option \<Rightarrow> string \<Rightarrow> json" where
  "source_get item classification k =
     (let source = (case classification of Some c \<Rightarrow> if is_jdict c then c else jget item ''route_classification''
                    | None \<Rightarrow> jget item ''route_classification'')
      in jget (jdict source) k)"

definition account_billing_leaf :: "jdict \<Rightarrow> json option \<Rightarrow> string" where
  "account_billing_leaf item classification =
     (let v = or_else (first_nonempty_route_value
            [source_get item classification ''account_billing_subcategory'', jget item ''subcategory'']) ''other'';
          candidate = (if v = ''account_verification'' then ''fraud_account'' else v)
      in if candidate \<in> set account_billing_subcategories then candidate else ''other'')"

definition backend_operation_leaf :: "jdict \<Rightarrow> json option \<Rightarrow> string" where
  "backend_operation_leaf item classification =
     (let candidate = first_nonempty_route_value
            [source_get item classification ''backend_operation_subcategory'',
             source_get item classification ''automation_subcategory'', jget item ''subcategory'',
             jget item ''execution_action'', jget item ''route'']
      in if candidate \<in> set backend_operation_subcategories then candidate else ''unregistered'')"

definition automation_leaf :: "jdict \<Rightarrow> json option \<Rightarrow> string" where
  "automation_leaf item classification =
     (let candidate = first_nonempty_route_value
            [source_get item classification ''automation_subcategory'', jget item ''subcategory'',
             jget item ''execution_action'', jget item ''route'']
      in if candidate \<in> {''account_verification'', ''fraud_account'', ''detailed_invoice''} then candidate
         else if candidate \<in> set backend_operation_subcategories then candidate
         else ''unregistered'')"

text \<open>Where an automation is listed: billing automations under Account & Billing.\<close>

definition automation_key :: "string \<Rightarrow> string" where
  "automation_key candidate =
     (if candidate \<in> {''fraud_account'', ''account_verification'', ''detailed_invoice''}
      then leaf_key ''account_billing''
             (if candidate = ''account_verification'' then ''fraud_account'' else candidate)
      else if candidate \<in> set backend_operation_subcategories then leaf_key ''backend_operation'' candidate
      else ''backend_operation:unregistered'')"

text \<open>The key of an Agora route, shared by the intents \<open>agora\<close> and \<open>support_request\<close>.\<close>

definition agora_route_key :: "jdict \<Rightarrow> json \<Rightarrow> string \<Rightarrow> string" where
  "agora_route_key item classification agora_route =
     (if agora_route = ''technical'' then ''agora_technical''
      else if agora_route = ''non_technical'' then ''agora_non_technical''
      else if agora_route = ''security_compliance'' then ''security_compliance''
      else if agora_route = ''account_billing''
      then leaf_key ''account_billing'' (account_billing_leaf item (Some classification))
      else if agora_route = ''backend_operation''
      then leaf_key ''backend_operation'' (backend_operation_leaf item (Some classification))
      else if agora_route = ''automation'' then automation_key (automation_leaf item (Some classification))
      else ''human_review:uncategorized'')"

definition classified_key :: "jdict \<Rightarrow> json \<Rightarrow> string" where
  "classified_key item classification =
     (let get = (\<lambda>k d. jlower_or (jget (jdict classification) k) d);
          intent = get ''intent_class'' ''unclear''
      in if intent = ''conversation'' then
           (let action = get ''conversation_action'' ''human_review''
            in leaf_key ''conversation''
                 (if action \<in> {''resolve'', ''follow_up''} then action else ''human_review''))
         else if intent = ''uncertain'' then ''human_review:uncertain''
         else if intent = ''agora'' then
           agora_route_key item classification (get ''agora_route'' ''uncategorized'')
         else if intent = ''support_request'' then
           (if get ''support_scope'' ''unclear'' = ''non_agora'' then ''human_review:non_agora''
            else agora_route_key item classification (get ''agora_route'' ''unclear''))
         else ''human_review:uncertain'')"

definition scope_key :: "jdict \<Rightarrow> string \<Rightarrow> string" where
  "scope_key item action =
     (let scope = jlower (jget item ''scope_label'')
      in if scope = ''ticket_resolution'' then ''conversation:resolve''
         else if scope \<in> {''small_talk'', ''conversation''} then ''conversation:follow_up''
         else if scope = ''agora_technical'' then ''agora_technical''
         else if scope = ''agora_non_technical'' then ''agora_non_technical''
         else if scope \<in> {''security_compliance'', ''agora_security_compliance''} then ''security_compliance''
         else if scope \<in> {''account_billing'', ''billing''}
         then leaf_key ''account_billing'' (account_billing_leaf item None)
         else if scope \<in> {''automation'', ''backend_operation'', ''enablement'', ''quota''}
         then (if action \<in> set backend_operation_subcategories then leaf_key ''backend_operation'' action
               else ''backend_operation:unregistered'')
         else if scope = ''unregistered'' then ''backend_operation:unregistered''
         else if scope \<in> {''uncertain'', ''unclear''} then ''human_review:uncertain''
         else if scope = ''non_agora'' then ''human_review:non_agora''
         else if scope \<in> {''human_review'', ''uncategorized''} then ''human_review:uncategorized''
         else ''human_review:other'')"

definition account_case_filter_key :: "jdict \<Rightarrow> string" where
  "account_case_filter_key item =
     (let classification = jget item ''route_classification''
      in if is_jdict classification \<and> truthy classification then classified_key item classification
         else
           let action = canonical_automation_subcategory
                 (jor (jor (jget item ''execution_action'') (jget item ''subcategory'')) (jget item ''route''))
           in if action = ''account_suspension'' then ''account_billing:account_suspension''
              else if jlower (jget item ''route_family'') \<in> {''automated'', ''billing_automation''}
              then automation_key action
              else scope_key item action)"

definition automation_child_by_primary :: "(string, string) dict" where
  "automation_child_by_primary =
     [(''account_billing:fraud_account'', ''fraud_account''),
      (''backend_operation:enablement'', ''enablement''),
      (''backend_operation:quota'', ''quota'')]"

definition key_memberships :: "string \<Rightarrow> bool \<Rightarrow> string list" where
  "key_memberships primary automated =
     remdups ([primary] @
       (if CHR '':'' \<in> set primary then [fst (split_colon primary)] else []) @
       (case dget automation_child_by_primary primary of
          Some child \<Rightarrow> if automated then [''automation'', leaf_key ''automation'' child] else []
        | None \<Rightarrow> []) @
       (if take 13 primary = ''human_review:'' then [''human_review''] else []))"

definition account_case_filter_memberships :: "jdict \<Rightarrow> string list" where
  "account_case_filter_memberships item =
     key_memberships (account_case_filter_key item)
       (jlower (jget item ''route_status'') = ''automated'' \<or>
        jlower (jget item ''route_family'') \<in> {''automated'', ''billing_automation''})"

definition account_case_filter_matches :: "jdict \<Rightarrow> string option \<Rightarrow> bool" where
  "account_case_filter_matches item filter_key =
     (if ostr filter_key = [] then True
      else if filter_key = Some ''human_review:unregistered''
      then account_case_filter_key item = ''backend_operation:unregistered''
      else ostr filter_key \<in> set (account_case_filter_memberships item))"

text \<open>\<open>_account_case_matches_route_filter\<close>: an invalid filter matches nothing.\<close>

definition account_case_matches_route_filter :: "jdict \<Rightarrow> string option \<Rightarrow> bool" where
  "account_case_matches_route_filter item route_filter =
     (case normalize_account_case_filter None None route_filter of
        Inl _ \<Rightarrow> False
      | Inr k \<Rightarrow> account_case_filter_matches item k)"

section \<open>Lemmas\<close>

text \<open>Every leaf an item is mapped to is a child of its group.\<close>

lemma billing_leaf: "account_billing_leaf item c \<in> set account_billing_subcategories"
  by (simp add: account_billing_leaf_def Let_def account_billing_subcategories_def)

lemma backend_leaf: "backend_operation_leaf item c \<in> set backend_operation_subcategories"
  by (simp add: backend_operation_leaf_def Let_def backend_operation_subcategories_def)

text \<open>The keys cases are listed under, which leave out the groups with children.\<close>

definition primary_keys :: "string list" where
  "primary_keys =
     [''agora_technical'', ''agora_non_technical'', ''security_compliance'',
      ''human_review:uncategorized'', ''human_review:uncertain'', ''human_review:non_agora'',
      ''human_review:other'', ''conversation:resolve'', ''conversation:follow_up'', ''conversation:human_review''] @
     map (leaf_key ''account_billing'') account_billing_subcategories @
     map (leaf_key ''backend_operation'') backend_operation_subcategories"

lemma conversation_key:
  "leaf_key ''conversation'' ''resolve'' \<in> set primary_keys"
  "leaf_key ''conversation'' ''follow_up'' \<in> set primary_keys"
  "leaf_key ''conversation'' ''human_review'' \<in> set primary_keys"
  by (auto simp: primary_keys_def leaf_key_def)

lemma billing_key: "leaf_key ''account_billing'' (account_billing_leaf item c) \<in> set primary_keys"
  unfolding primary_keys_def set_append set_map using billing_leaf by blast

lemma backend_key: "leaf_key ''backend_operation'' (backend_operation_leaf item c) \<in> set primary_keys"
  unfolding primary_keys_def set_append set_map using backend_leaf by blast

lemma automation_key_primary: "automation_key c \<in> set primary_keys"
  by (auto simp: automation_key_def primary_keys_def leaf_key_def account_billing_subcategories_def
      backend_operation_subcategories_def)

lemmas key_primary = conversation_key billing_key backend_key automation_key_primary

lemma literal_keys:
  "''agora_technical'' \<in> set primary_keys" "''agora_non_technical'' \<in> set primary_keys"
  "''security_compliance'' \<in> set primary_keys" "''human_review:uncategorized'' \<in> set primary_keys"
  "''human_review:uncertain'' \<in> set primary_keys" "''human_review:non_agora'' \<in> set primary_keys"
  "''human_review:other'' \<in> set primary_keys" "''conversation:resolve'' \<in> set primary_keys"
  "''conversation:follow_up'' \<in> set primary_keys" "''account_billing:account_suspension'' \<in> set primary_keys"
  "''backend_operation:unregistered'' \<in> set primary_keys"
  "a \<in> set backend_operation_subcategories \<Longrightarrow> leaf_key ''backend_operation'' a \<in> set primary_keys"
  by (simp_all add: primary_keys_def leaf_key_def account_billing_subcategories_def
      backend_operation_subcategories_def)

lemma agora_primary: "agora_route_key item c r \<in> set primary_keys"
  by (simp add: agora_route_key_def key_primary literal_keys)

lemma classified_primary: "classified_key item c \<in> set primary_keys"
  by (simp add: classified_key_def Let_def agora_primary literal_keys conversation_key)

lemma scope_primary: "scope_key item a \<in> set primary_keys"
  by (simp add: scope_key_def Let_def billing_key literal_keys)

lemma filter_key_primary: "account_case_filter_key item \<in> set primary_keys"
  by (simp add: account_case_filter_key_def Let_def classified_primary scope_primary automation_key_primary
      literal_keys)

text \<open>The finitely many keys are checked one by one.\<close>

lemma primary_normal:
  "list_all (\<lambda>k. normalize_account_case_filter None None (Some k) = Inr (Some k) \<and>
     normalize_account_case_filter None None (Some (fst (split_colon k))) = Inr (Some (fst (split_colon k))) \<and>
     k \<noteq> [] \<and> fst (split_colon k) \<noteq> [] \<and>
     k \<noteq> ''human_review:unregistered'' \<and> fst (split_colon k) \<noteq> ''human_review:unregistered'') primary_keys"
  by code_simp

lemma primary_known: "list_all (\<lambda>k. k = ''agora_non_technical'' \<or> k \<in> set account_case_filter_keys) primary_keys"
  by code_simp

definition partition_groups :: "string list" where
  "partition_groups =
     ''agora_non_technical'' # filter (\<lambda>g. g \<noteq> ''all'' \<and> g \<noteq> ''automation'') (map fg_id account_case_filter_groups)"

lemma primary_groups:
  "list_all (\<lambda>k. list_all (\<lambda>automated. filter (\<lambda>g. g \<in> set (key_memberships k automated)) partition_groups =
       [fst (split_colon k)] \<and> k \<in> set (key_memberships k automated) \<and>
       fst (split_colon k) \<in> set (key_memberships k automated)) [True, False]) primary_keys"
  by code_simp

lemma key_groups:
  assumes "k \<in> set primary_keys"
  shows "filter (\<lambda>g. g \<in> set (key_memberships k b)) partition_groups = [fst (split_colon k)] \<and>
    k \<in> set (key_memberships k b) \<and> fst (split_colon k) \<in> set (key_memberships k b)"
  using primary_groups assms by (cases b) (simp_all add: list_all_iff)

lemma memberships_groups:
  "filter (\<lambda>g. g \<in> set (account_case_filter_memberships item)) partition_groups =
     [fst (split_colon (account_case_filter_key item))]"
  "account_case_filter_key item \<in> set (account_case_filter_memberships item)"
  "fst (split_colon (account_case_filter_key item)) \<in> set (account_case_filter_memberships item)"
  unfolding account_case_filter_memberships_def using key_groups [OF filter_key_primary] by blast+

lemma partition_plain: "list_all (\<lambda>g. g \<noteq> [] \<and> g \<noteq> ''human_review:unregistered'') partition_groups"
  by code_simp

section \<open>Properties\<close>

text \<open>
  The label a case is listed under is always a key of the filter taxonomy, or the deprecated
  non-technical group.
\<close>

theorem case_label_in_taxonomy:
  "account_case_filter_key item \<in> set (''agora_non_technical'' # account_case_filter_keys)"
  using primary_known filter_key_primary [of item] by (auto simp: list_all_iff)

text \<open>
  A label works as a filter: sent back as \<open>route_label\<close>, the label of a case and the group of
  that label are accepted unchanged and select the case.
\<close>

theorem case_found_under_label:
  "normalize_account_case_filter None None (Some (account_case_filter_key item)) =
     Inr (Some (account_case_filter_key item)) \<and>
   account_case_matches_route_filter item (Some (account_case_filter_key item)) \<and>
   account_case_matches_route_filter item (Some (fst (split_colon (account_case_filter_key item))))"
  using primary_normal filter_key_primary [of item] memberships_groups(2,3) [of item]
  by (simp add: list_all_iff account_case_matches_route_filter_def account_case_filter_matches_def)

text \<open>C35
  Apart from \<open>all\<close> and the cross-cutting automation view, the groups of the taxonomy (with the
  deprecated non-technical one) split the cases: every case is in exactly one.
\<close>

theorem case_groups_partition:
  "length (filter (\<lambda>g. account_case_filter_matches item (Some g)) partition_groups) = 1"
proof -
  have "filter (\<lambda>g. account_case_filter_matches item (Some g)) partition_groups =
      filter (\<lambda>g. g \<in> set (account_case_filter_memberships item)) partition_groups"
    using partition_plain by (intro filter_cong) (auto simp: list_all_iff account_case_filter_matches_def)
  then show ?thesis by (simp add: memberships_groups(1))
qed

text \<open>
  An automated quota case is a member of \<open>automation:quota\<close>, a key the taxonomy does not
  have: no filter can ask for it.
\<close>

theorem quota_membership_unreachable:
  "\<exists>item. ''automation:quota'' \<in> set (account_case_filter_memberships item) \<and>
     ''automation:quota'' \<notin> set account_case_filter_keys \<and>
     normalize_account_case_filter (Some ''automation'') (Some ''quota'') None =
       Inl (ValueError ''unsupported route_subcategory for route_group'') \<and>
     normalize_account_case_filter None None (Some ''automation:quota'') =
       Inl (ValueError ''unsupported route_subcategory for route_group'')"
proof (intro exI conjI)
  show "''automation:quota'' \<in> set (account_case_filter_memberships
     [(''route_status'', JStr ''automated''), (''execution_action'', JStr ''quota''),
      (''scope_label'', JStr ''quota'')])" by code_simp
qed code_simp+

end
