(* ===== verification/Workspace.thy ===== *)
theory Workspace
  imports Json_Values
begin

text \<open>
  The workspace tables of \<open>InMemoryTicketRepository\<close>: accounts, invitations, engineer schedules and
  the audit trail, and when a shift is on duty (\<open>services/workspace_schedules.py\<close>). The clock
  and the random invitation id are arguments.
\<close>

record account =
  ac_account_id :: string
  ac_email :: "string option"
  ac_display_name :: string
  ac_role :: string
  ac_password_hash :: string
  ac_active :: bool
  ac_last_assigned_at :: "string option"
  ac_created_at :: string
  ac_updated_at :: string

text \<open>
  The dictionary a caller saves. For the two keys whose absence matters the outer
  \<open>None\<close> is a missing key.
\<close>

record account_input =
  ai_account_id :: "string option"
  ai_email :: "string option option"
  ai_display_name :: "string option"
  ai_role :: "string option"
  ai_password_hash :: "string option"
  ai_active :: "bool option"
  ai_last_assigned_at :: "string option option"
  ai_created_at :: "string option"
  ai_updated_at :: "string option"

record invitation =
  iv_id :: string
  iv_email :: string
  iv_role :: string
  iv_token_hash :: string
  iv_delivery_status :: string
  iv_delivery_error :: "string option"
  iv_used_at :: "string option"
  iv_used_by :: "string option"
  iv_created_by :: string
  iv_created_at :: string
  iv_updated_at :: string
  iv_expires_at :: string

record shift =
  sh_engineer_id :: string
  sh_weekday :: int
  sh_start_minute :: int
  sh_end_minute :: int
  sh_timezone :: string
  sh_updated_by :: string
  sh_updated_at :: string

record audit_event =
  au_event_type :: string
  au_actor_id :: string
  au_target_id :: "string option"
  au_payload :: jdict
  au_created_at :: string

record workspace =
  ws_accounts :: "(string, account) dict"
  ws_invitations :: "(string, invitation) dict"
  ws_schedules :: "(string \<times> int, shift) dict"
  ws_audit :: "audit_event list"

section \<open>The audit trail\<close>

definition record_workspace_audit_event ::
  "string \<Rightarrow> string \<Rightarrow> string option \<Rightarrow> jdict \<Rightarrow> string \<Rightarrow> audit_event list \<Rightarrow> audit_event list" where
  "record_workspace_audit_event event_type actor_id target_id payload created_at log =
     log @ [\<lparr> au_event_type =
                or_else (strip (or_else event_type ''workspace_event'')) ''workspace_event'',
              au_actor_id = or_else (strip (or_else actor_id ''system'')) ''system'',
              au_target_id = or_none (ostrip target_id), au_payload = payload,
              au_created_at = created_at \<rparr>]"

text \<open>The newest first: \<open>reversed(events[-safe_limit:])\<close>.\<close>

definition list_workspace_audit_events :: "int \<Rightarrow> audit_event list \<Rightarrow> audit_event list" where
  "list_workspace_audit_events limit log =
     take_limit 1000 (if limit = 0 then 100 else limit) (rev log)"

section \<open>Accounts\<close>

definition normalize_workspace_role :: "string option \<Rightarrow> string" where
  "normalize_workspace_role value =
     (let role = slower (or_else (ostr value) ''engineer'')
      in if role \<in> {''admin'', ''engineer''} then role else ''engineer'')"

definition normalize_workspace_account :: "account_input \<Rightarrow> string \<Rightarrow> py_error + account" where
  "normalize_workspace_account a utc_now =
     (let account_id = ostrip (ai_account_id a);
          now = or_else (or_else (ostr (ai_updated_at a)) (ostr (ai_created_at a))) utc_now
      in if account_id = [] then Inl (ValueError ''account_id is required'')
         else Inr \<lparr> ac_account_id = account_id,
                    ac_email = (case ai_email a of None \<Rightarrow> None | Some e \<Rightarrow> or_none (olower e)),
                    ac_display_name =
                      or_else (strip (or_else (ostr (ai_display_name a)) account_id)) account_id,
                    ac_role = normalize_workspace_role (ai_role a),
                    ac_password_hash = ostrip (ai_password_hash a),
                    ac_active = (case ai_active a of None \<Rightarrow> True | Some b \<Rightarrow> b),
                    ac_last_assigned_at = (case ai_last_assigned_at a of None \<Rightarrow> None | Some t \<Rightarrow> t),
                    ac_created_at = or_else (ostr (ai_created_at a)) now,
                    ac_updated_at = now \<rparr>)"

text \<open>What a stored account contributes to the one that replaces it.\<close>

definition merge_account :: "account_input \<Rightarrow> account \<Rightarrow> account \<Rightarrow> account" where
  "merge_account a existing n =
     n\<lparr> ac_created_at := or_else (ac_created_at existing) (ac_created_at n),
        ac_email := (if ai_email a = None then ac_email existing else ac_email n),
        ac_password_hash :=
          (if ac_password_hash n = [] then ac_password_hash existing else ac_password_hash n),
        ac_last_assigned_at :=
          (case ai_last_assigned_at a of None \<Rightarrow> ac_last_assigned_at existing | Some t \<Rightarrow> t) \<rparr>"

definition save_workspace_account :: "account_input \<Rightarrow> string \<Rightarrow> (workspace, account) op" where
  "save_workspace_account a utc_now w =
     (case normalize_workspace_account a utc_now of
        Inl e \<Rightarrow> (Inl e, w)
      | Inr n \<Rightarrow>
          let n' = (case dget (ws_accounts w) (ac_account_id n) of
                      None \<Rightarrow> n | Some existing \<Rightarrow> merge_account a existing n)
          in if ac_password_hash n' = [] then (Inl (ValueError ''password_hash is required''), w)
             else (Inr n', w\<lparr>ws_accounts := dset (ac_account_id n) n' (ws_accounts w)\<rparr>))"

definition get_workspace_account :: "string \<Rightarrow> workspace \<Rightarrow> account option" where
  "get_workspace_account account_id w = dget (ws_accounts w) (strip account_id)"

definition list_workspace_accounts :: "workspace \<Rightarrow> account list" where
  "list_workspace_accounts w =
     sort_key (\<lambda>a. (lower (ac_display_name a), ac_account_id a)) (dvalues (ws_accounts w))"

definition get_workspace_account_by_email :: "string \<Rightarrow> workspace \<Rightarrow> account option" where
  "get_workspace_account_by_email email w =
     find (\<lambda>a. olower (ac_email a) = slower email) (dvalues (ws_accounts w))"

section \<open>Invitations\<close>

record invitation_input =
  ii_id :: "string option"
  ii_email :: "string option"
  ii_role :: "string option"
  ii_token_hash :: "string option"
  ii_created_by :: string
  ii_created_at :: string
  ii_updated_at :: string
  ii_expires_at :: string

definition new_invitation :: "invitation_input \<Rightarrow> string \<Rightarrow> invitation" where
  "new_invitation i uuid =
     \<lparr> iv_id = or_else (ostr (ii_id i)) uuid, iv_email = olower (ii_email i),
       iv_role = normalize_workspace_role (ii_role i), iv_token_hash = ostr (ii_token_hash i),
       iv_delivery_status = ''pending'', iv_delivery_error = None, iv_used_at = None,
       iv_used_by = None, iv_created_by = ii_created_by i, iv_created_at = ii_created_at i,
       iv_updated_at = ii_updated_at i, iv_expires_at = ii_expires_at i \<rparr>"

text \<open>\<open>a > b\<close> and \<open>a <= b\<close> on parsed times; an unparsable one raises \<open>ValueError\<close> where it is read.\<close>

definition iso_or_error :: "string \<Rightarrow> py_error + pydt" where
  "iso_or_error s = (case parse_iso s of
     None \<Rightarrow> Inl (ValueError ''Invalid isoformat string'') | Some t \<Rightarrow> Inr t)"

definition dt_gt :: "pydt \<Rightarrow> pydt \<Rightarrow> py_error + bool" where
  "dt_gt a b = (case dt_le a b of Inl e \<Rightarrow> Inl e | Inr le \<Rightarrow> Inr (\<not> le))"

text \<open>Is there an invitation for the address that can still be used? Rows are read in order.\<close>

fun active_invitation :: "string \<Rightarrow> pydt \<Rightarrow> invitation list \<Rightarrow> py_error + bool" where
  "active_invitation email now [] = Inr False"
| "active_invitation email now (e # es) =
     (case iso_or_error (iv_expires_at e) of
        Inl err \<Rightarrow> Inl err
      | Inr expires_at \<Rightarrow>
          if iv_email e = email \<and> iv_delivery_status e \<in> {''pending'', ''sent''} \<and> ostr (iv_used_at e) = []
          then (case dt_gt expires_at now of
                  Inl err \<Rightarrow> Inl err
                | Inr True \<Rightarrow> Inr True
                | Inr False \<Rightarrow> active_invitation email now es)
          else active_invitation email now es)"

definition create_workspace_invitation ::
  "invitation_input \<Rightarrow> string \<Rightarrow> (workspace, invitation) op" where
  "create_workspace_invitation i uuid w =
     (let n = new_invitation i uuid
      in if iv_email n = [] \<or> ostrip (ii_token_hash i) = []
         then (Inl (ValueError ''email and token_hash are required''), w)
         else case iso_or_error (iv_created_at n) of
             Inl e \<Rightarrow> (Inl e, w)
           | Inr now \<Rightarrow>
               if get_workspace_account_by_email (iv_email n) w \<noteq> None
               then (Inl (ValueError ''workspace account email already exists''), w)
               else case active_invitation (iv_email n) now (dvalues (ws_invitations w)) of
                   Inl e \<Rightarrow> (Inl e, w)
                 | Inr active \<Rightarrow>
                     if active then (Inl (ValueError ''active workspace invitation already exists''), w)
                     else (Inr n, w\<lparr>ws_invitations := dset (iv_id n) n (ws_invitations w)\<rparr>))"

definition get_workspace_invitation :: "string \<Rightarrow> workspace \<Rightarrow> invitation option" where
  "get_workspace_invitation token_hash w =
     find (\<lambda>i. iv_token_hash i = strip token_hash) (dvalues (ws_invitations w))"

definition set_workspace_invitation_delivery ::
  "string \<Rightarrow> string \<Rightarrow> string option \<Rightarrow> string \<Rightarrow> (workspace, invitation option) op" where
  "set_workspace_invitation_delivery invitation_id status error updated_at w =
     (if status \<notin> {''sent'', ''failed''}
      then (Inl (ValueError ''invalid invitation delivery status''), w)
      else case dget (ws_invitations w) (strip invitation_id) of
          None \<Rightarrow> (Inr None, w)
        | Some i \<Rightarrow>
            let i' = i\<lparr>iv_delivery_status := status, iv_delivery_error := or_none (ostrip error),
                       iv_updated_at := updated_at\<rparr>
            in (Inr (Some i'),
                w\<lparr>ws_invitations := dset (strip invitation_id) i' (ws_invitations w)\<rparr>))"

definition invited_account :: "invitation \<Rightarrow> string \<Rightarrow> string \<Rightarrow> string \<Rightarrow> account_input" where
  "invited_account i display_name password_hash completed_at =
     \<lparr> ai_account_id = Some (slower (iv_email i)), ai_email = Some (Some (iv_email i)),
       ai_display_name = Some display_name, ai_role = Some (iv_role i),
       ai_password_hash = Some password_hash, ai_active = Some True, ai_last_assigned_at = None,
       ai_created_at = Some completed_at, ai_updated_at = Some completed_at \<rparr>"

definition complete_workspace_invitation ::
  "string \<Rightarrow> string \<Rightarrow> string \<Rightarrow> string \<Rightarrow> (workspace, account) op" where
  "complete_workspace_invitation token_hash display_name password_hash completed_at w =
     (case dfind (\<lambda>i. iv_token_hash i = strip token_hash) (ws_invitations w) of
        None \<Rightarrow> (Inl (ValueError ''invitation unavailable''), w)
      | Some (k, i) \<Rightarrow>
          (case (iso_or_error completed_at, iso_or_error (iv_expires_at i)) of
             (Inl e, _) \<Rightarrow> (Inl e, w)
           | (Inr _, Inl e) \<Rightarrow> (Inl e, w)
           | (Inr completed, Inr expires) \<Rightarrow>
               if iv_delivery_status i \<noteq> ''sent'' \<or> ostr (iv_used_at i) \<noteq> []
               then (Inl (ValueError ''invitation unavailable''), w)
               else case dt_le expires completed of
                   Inl e \<Rightarrow> (Inl e, w)
                 | Inr expired \<Rightarrow>
                     if expired then (Inl (ValueError ''invitation unavailable''), w)
                     else let account_id = slower (iv_email i)
                       in if dget (ws_accounts w) account_id \<noteq> None
                          then (Inl (ValueError ''workspace account already exists''), w)
                          else if get_workspace_account_by_email (iv_email i) w \<noteq> None
                          then (Inl (ValueError ''workspace account email already exists''), w)
                          else case save_workspace_account
                                 (invited_account i display_name password_hash completed_at)
                                 completed_at w of
                              (Inl e, w') \<Rightarrow> (Inl e, w')
                            | (Inr acc, w') \<Rightarrow>
                                (Inr acc, w'\<lparr>
                                   ws_invitations := dset k
                                     (i\<lparr>iv_used_at := Some completed_at, iv_used_by := Some account_id,
                                        iv_updated_at := completed_at\<rparr>) (ws_invitations w'),
                                   ws_audit := record_workspace_audit_event
                                     ''workspace_invitation_completed'' account_id (Some account_id)
                                     [(''email'', JStr (iv_email i)), (''role'', JStr (iv_role i))]
                                     completed_at (ws_audit w')\<rparr>)))"

section \<open>Schedules\<close>

definition list_engineer_schedules :: "workspace \<Rightarrow> shift list" where
  "list_engineer_schedules w =
     sort_key (\<lambda>s. (sh_engineer_id s, sh_weekday s)) (dvalues (ws_schedules w))"

text \<open>The new week of an engineer; a weekday given twice keeps the last shift.\<close>

definition replace_engineer_schedule ::
  "string \<Rightarrow> string \<Rightarrow> (int \<times> int \<times> int) list \<Rightarrow> string \<Rightarrow> string
    \<Rightarrow> (workspace, shift list option) op" where
  "replace_engineer_schedule engineer_id timezone_name shifts actor_id updated_at w =
     (let e = strip engineer_id
      in case dget (ws_accounts w) e of
           None \<Rightarrow> (Inr None, w)
         | Some account \<Rightarrow>
             if ac_role account \<noteq> ''engineer'' then (Inr None, w)
             else
               let others = filter (\<lambda>(k, s). fst k \<noteq> e) (ws_schedules w);
                   table = fold (\<lambda>(weekday, start_minute, end_minute).
                     dset (e, weekday)
                       \<lparr> sh_engineer_id = e, sh_weekday = weekday, sh_start_minute = start_minute,
                         sh_end_minute = end_minute, sh_timezone = timezone_name,
                         sh_updated_by = actor_id, sh_updated_at = updated_at \<rparr>) shifts others;
                   w' = w\<lparr>ws_schedules := table,
                          ws_audit := record_workspace_audit_event ''engineer_schedule_changed''
                            actor_id (Some e)
                            [(''timezone'', JStr timezone_name),
                             (''shift_count'', JInt (int (length shifts)))]
                            updated_at (ws_audit w)\<rparr>
               in (Inr (Some (filter (\<lambda>s. sh_engineer_id s = e) (list_engineer_schedules w'))), w'))"

text \<open>
  The local time of an instant in a named zone: the zone database is a parameter, the offset in
  microseconds of a zone at an instant. Day 0 is a Monday.
\<close>

type_synonym zones = "string \<Rightarrow> int \<Rightarrow> int"

definition local_weekday :: "int \<Rightarrow> int" where
  "local_weekday local = (local div 86400000000) mod 7"

definition local_minute :: "int \<Rightarrow> int" where
  "local_minute local = (local mod 86400000000) div 60000000"

definition is_shift_active :: "zones \<Rightarrow> shift \<Rightarrow> int \<Rightarrow> bool" where
  "is_shift_active zone s now =
     (let local_now = now + zone (or_else (sh_timezone s) ''Asia/Shanghai'') now;
          weekday = sh_weekday s; start_minute = sh_start_minute s; end_minute = sh_end_minute s;
          today = local_weekday local_now;
          current_minute = local_minute local_now
      in if start_minute < end_minute
         then today = weekday \<and> start_minute \<le> current_minute \<and> current_minute < end_minute
         else (today = weekday \<and> current_minute \<ge> start_minute) \<or>
              (today = (weekday + 1) mod 7 \<and> current_minute < end_minute))"

definition on_schedule_engineer_ids :: "zones \<Rightarrow> shift list \<Rightarrow> int \<Rightarrow> string list" where
  "on_schedule_engineer_ids zone schedules now =
     map (\<lambda>s. strip (sh_engineer_id s))
       (filter (\<lambda>s. strip (sh_engineer_id s) \<noteq> [] \<and> is_shift_active zone s now) schedules)"

text \<open>\<open>HH:MM\<close> and minutes.\<close>

definition pad2 :: "int \<Rightarrow> string" where
  "pad2 n = (if 0 \<le> n \<and> n < 10 then ''0'' @ show_int n else show_int n)"

definition minutes_to_time :: "int \<Rightarrow> string" where
  "minutes_to_time v = pad2 (v div 60) @ '':'' @ pad2 (v mod 60)"

fun split_on :: "char \<Rightarrow> string \<Rightarrow> string list" where
  "split_on x [] = [[]]"
| "split_on x (c # s) =
     (if c = x then [] # split_on x s
      else case split_on x s of [] \<Rightarrow> [[c]] | w # ws \<Rightarrow> (c # w) # ws)"

definition time_to_minutes :: "string \<Rightarrow> bool \<Rightarrow> py_error + int" where
  "time_to_minutes value allow_24 =
     (case split_on CHR '':'' (strip value) of
        [h, m] \<Rightarrow>
          (case (py_int h, py_int m) of
             (Some hour, Some minute) \<Rightarrow>
               if allow_24 \<and> hour = 24 \<and> minute = 0 then Inr (24 * 60)
               else if \<not> (0 \<le> hour \<and> hour \<le> 23) \<or> \<not> (0 \<le> minute \<and> minute \<le> 59)
               then Inl (ValueError ''time must use HH:MM'')
               else Inr (hour * 60 + minute)
           | _ \<Rightarrow> Inl (ValueError ''time must use HH:MM''))
      | _ \<Rightarrow> Inl (ValueError ''time must use HH:MM''))"

section \<open>Lemmas\<close>

text \<open>Two digits, as the clock prints and reads them.\<close>

definition two_digits :: "int \<Rightarrow> string" where
  "two_digits n = [dig (n div 10), dig (n mod 10)]"

lemma dig_0: "dig 0 = CHR ''0''"
  by code_simp

lemma pad_two: "0 \<le> n \<Longrightarrow> n < 100 \<Longrightarrow> pad2 n = two_digits n"
proof (cases "n < 10")
  case False
  assume "n < 100"
  with False have "0 \<le> n div 10" "n div 10 < 10" by auto
  with False show ?thesis
    by (simp add: pad2_def two_digits_def show_int_rec [of n] show_int_rec [of "n div 10"])
qed (simp add: pad2_def two_digits_def dig_0 show_int_rec [of n])

lemma dig_code: "0 \<le> n \<Longrightarrow> n < 10 \<Longrightarrow> (of_char (dig n) :: nat) = 48 + nat n"
  by (simp add: dig_def)

lemma dig_plain:
  assumes "0 \<le> n" "n < 10"
  shows "\<not> py_space (dig n)" "dig n \<noteq> CHR '':''" "dig n \<noteq> CHR ''-''" "dig n \<noteq> CHR ''+''"
proof -
  have c: "of_char (dig n) = 48 + nat n" and l: "nat n < 10" using assms by (simp_all add: dig_code)
  then show "\<not> py_space (dig n)" by (simp add: py_space_def Let_def)
  show "dig n \<noteq> CHR '':''" "dig n \<noteq> CHR ''-''" "dig n \<noteq> CHR ''+''"
    using c l by (auto dest!: arg_cong [where f = "of_char :: char \<Rightarrow> nat"])
qed

lemma py_int_two: "0 \<le> n \<Longrightarrow> n < 100 \<Longrightarrow> py_int (two_digits n) = Some n"
proof -
  assume n: "0 \<le> n" "n < 100"
  then have d: "0 \<le> n div 10" "n div 10 < 10" "0 \<le> n mod 10" "n mod 10 < 10" by auto
  have "strip (two_digits n) = two_digits n"
    using d by (intro strip_stripped) (simp add: stripped_def two_digits_def dig_plain)
  then show ?thesis
    using d by (simp add: py_int_def two_digits_def dig_plain Let_def)
qed

lemma split_time:
  assumes n: "0 \<le> h" "h < 100" "0 \<le> m" "m < 100"
  shows "split_on CHR '':'' (strip (two_digits h @ '':'' @ two_digits m)) = [two_digits h, two_digits m]"
proof -
  have d: "0 \<le> h div 10" "h div 10 < 10" "0 \<le> h mod 10" "h mod 10 < 10"
    "0 \<le> m div 10" "m div 10 < 10" "0 \<le> m mod 10" "m mod 10 < 10" using n by auto
  have "strip (two_digits h @ '':'' @ two_digits m) = two_digits h @ '':'' @ two_digits m"
    using d by (intro strip_stripped) (simp add: stripped_def two_digits_def dig_plain)
  then show ?thesis using d by (simp add: two_digits_def dig_plain)
qed

lemma mod_week:
  fixes x :: int
  assumes "- 10080 \<le> x" "x < 10080"
  shows "x mod 10080 = (if x < 0 then x + 10080 else x)"
proof (cases "x < 0")
  case True
  have "x mod 10080 = (x + 10080) mod 10080" by simp
  also have "\<dots> = x + 10080" using assms True by (intro mod_pos_pos_trivial) linarith+
  finally show ?thesis using True by simp
qed (use assms in \<open>simp add: mod_pos_pos_trivial\<close>)

text \<open>The minute of the week of a local time, Monday 00:00 being 0, and the length of a shift.\<close>

definition week_minute :: "int \<Rightarrow> int" where
  "week_minute local = local_weekday local * 1440 + local_minute local"

definition shift_length :: "shift \<Rightarrow> int" where
  "shift_length s =
     (if sh_start_minute s < sh_end_minute s then sh_end_minute s - sh_start_minute s
      else sh_end_minute s - sh_start_minute s + 1440)"

lemma local_parts:
  "0 \<le> local_weekday t" "local_weekday t < 7" "0 \<le> local_minute t" "local_minute t < 1440"
proof -
  have "t mod 86400000000 < 86400000000" "0 \<le> t mod 86400000000" by simp_all
  then show "0 \<le> local_minute t" "local_minute t < 1440"
    unfolding local_minute_def by linarith+
qed (simp_all add: local_weekday_def)

lemma shift_window:
  fixes wd d c a b :: int
  assumes "0 \<le> wd" "wd < 7" "0 \<le> d" "d < 7" "0 \<le> c" "c < 1440" "0 \<le> a" "a < 1440" "0 \<le> b" "b \<le> 1440"
  shows "(if a < b then d = wd \<and> a \<le> c \<and> c < b
          else (d = wd \<and> c \<ge> a) \<or> (d = (wd + 1) mod 7 \<and> c < b)) \<longleftrightarrow>
         (d * 1440 + c - (wd * 1440 + a)) mod 10080 < (if a < b then b - a else b - a + 1440)"
proof -
  let ?x = "d * 1440 + c - (wd * 1440 + a)"
  have nx: "(wd + 1) mod 7 = (if wd = 6 then 0 else wd + 1)" using assms(1,2) by auto
  have x: "?x mod 10080 = (if ?x < 0 then ?x + 10080 else ?x)"
    using assms by (intro mod_week) linarith+
  have trichotomy: "d = wd \<or> d = wd + 1 \<or> d \<ge> wd + 2 \<or> d = wd - 6 \<or> (d < wd \<and> d \<ge> wd - 5)"
    using assms by linarith
  show ?thesis
    unfolding x nx using trichotomy assms by (elim disjE) auto
qed

section \<open>Properties\<close>

text \<open>C36
  The two branches of the shift test (within a day, across midnight) are one window of the week:
  a shift is on duty exactly in the \<open>shift_length\<close> minutes that follow its start, counted
  cyclically in minutes of the local week, also across Sunday midnight.
\<close>

theorem shift_is_weekly_window:
  assumes "0 \<le> sh_weekday s" "sh_weekday s < 7" "0 \<le> sh_start_minute s" "sh_start_minute s < 1440"
    and "0 \<le> sh_end_minute s" "sh_end_minute s \<le> 1440"
  shows "is_shift_active zone s now \<longleftrightarrow>
     (week_minute (now + zone (or_else (sh_timezone s) ''Asia/Shanghai'') now)
        - (sh_weekday s * 1440 + sh_start_minute s)) mod 10080 < shift_length s"
  unfolding is_shift_active_def Let_def week_minute_def shift_length_def
  by (rule shift_window) (use assms local_parts in auto)

theorem shift_is_weekly_window_witness:
  "is_shift_active (\<lambda>z t. 28800000000)
     \<lparr> sh_engineer_id = ''e'', sh_weekday = 6, sh_start_minute = 1320, sh_end_minute = 120,
       sh_timezone = [], sh_updated_by = ''a'', sh_updated_at = ''t'' \<rparr> (6 * 86400000000 + 54000000000)
   \<longleftrightarrow>
   (week_minute (6 * 86400000000 + 54000000000 + (\<lambda>z t. 28800000000) (or_else [] ''Asia/Shanghai'')
      (6 * 86400000000 + 54000000000)) - (6 * 1440 + 1320)) mod 10080 < 240"
  using shift_is_weekly_window [of
    "\<lparr> sh_engineer_id = ''e'', sh_weekday = 6, sh_start_minute = 1320, sh_end_minute = 120,
       sh_timezone = [], sh_updated_by = ''a'', sh_updated_at = ''t'' \<rparr>" "\<lambda>z t. 28800000000"
    "6 * 86400000000 + 54000000000"]
  by (simp add: shift_length_def)

text \<open>
  A minute of the day printed as \<open>HH:MM\<close> reads back as the same minute.
\<close>

theorem time_roundtrip:
  assumes "0 \<le> v" "v < 1440"
  shows "time_to_minutes (minutes_to_time v) allow_24 = Inr v"
proof -
  have b: "0 \<le> v div 60" "v div 60 < 24" "0 \<le> v mod 60" "v mod 60 < 60" using assms by auto
  have p: "minutes_to_time v = two_digits (v div 60) @ '':'' @ two_digits (v mod 60)"
    using b by (simp add: minutes_to_time_def pad_two)
  have "split_on CHR '':'' (strip (minutes_to_time v)) = [two_digits (v div 60), two_digits (v mod 60)]"
    unfolding p by (rule split_time) (use b in auto)
  then show ?thesis using b by (simp add: time_to_minutes_def py_int_two)
qed

theorem time_roundtrip_witness: "time_to_minutes (minutes_to_time 545) False = Inr 545"
  by (rule time_roundtrip) simp_all

lemma parse_iso_Nil: "parse_iso [] = None"
  by code_simp

lemma iso_or_error_Inr: "iso_or_error s = Inr t \<longleftrightarrow> parse_iso s = Some t"
  by (simp add: iso_or_error_def split: option.split)

lemma save_account_others:
  "save_workspace_account a now w = (r, w') \<Longrightarrow>
     ws_invitations w' = ws_invitations w \<and> ws_schedules w' = ws_schedules w \<and> ws_audit w' = ws_audit w"
  by (auto simp: save_workspace_account_def Let_def split: sum.splits if_splits)

text \<open>What a completed invitation leaves behind.\<close>

lemma complete_invitation:
  assumes "complete_workspace_invitation tok name pw at w = (Inr acc, w')"
  obtains k and i :: invitation where
    "dfind (\<lambda>i. iv_token_hash i = strip tok) (ws_invitations w) = Some (k, i)"
    "ws_invitations w' = dset k (i\<lparr>iv_used_at := Some at, iv_used_by := Some (slower (iv_email i)),
       iv_updated_at := at\<rparr>) (ws_invitations w)"
    "parse_iso at \<noteq> None" "parse_iso (iv_expires_at i) \<noteq> None"
    "fst (save_workspace_account (invited_account i name pw at) at w) = Inr acc"
    "dget (ws_accounts w) (slower (iv_email i)) = None"
proof (cases "dfind (\<lambda>i. iv_token_hash i = strip tok) (ws_invitations w)")
  case None
  with assms show ?thesis by (simp add: complete_workspace_invitation_def)
next
  case (Some ki)
  obtain k i where ki: "ki = (k, i)" by (cases ki)
  show ?thesis
  proof (rule that [of k i])
  qed (use assms Some ki in
      \<open>auto simp: complete_workspace_invitation_def Let_def iso_or_error_def
         split: sum.splits option.splits if_splits prod.splits dest!: save_account_others\<close>)
qed

text \<open>
  An invitation is good for one account: once a completion succeeded, every later completion with
  the same token (whatever name, password and time) is refused as unavailable, or fails to parse
  its own time; and the account it created is the invited address with the invited role.
\<close>

theorem invitation_single_use:
  assumes wf: "wf_dict (ws_invitations w)"
    and ok: "complete_workspace_invitation tok name pw at w = (Inr acc, w')"
  shows "(fst (complete_workspace_invitation tok name' pw' at' w') = Inl (ValueError ''invitation unavailable'') \<or>
          parse_iso at' = None) \<and>
         (\<exists>i. get_workspace_invitation tok w = Some i \<and> ac_account_id acc = slower (iv_email i) \<and>
              ac_role acc = normalize_workspace_role (Some (iv_role i)))"
  using ok
proof (rule complete_invitation)
  fix k and i :: invitation
  let ?i = "i\<lparr>iv_used_at := Some at, iv_used_by := Some (slower (iv_email i)), iv_updated_at := at\<rparr>"
  assume f: "dfind (\<lambda>i. iv_token_hash i = strip tok) (ws_invitations w) = Some (k, i)"
    and w': "ws_invitations w' = dset k ?i (ws_invitations w)"
    and t: "parse_iso at \<noteq> None" "parse_iso (iv_expires_at i) \<noteq> None"
    and s: "fst (save_workspace_account (invited_account i name pw at) at w) = Inr acc"
    and new: "dget (ws_accounts w) (slower (iv_email i)) = None"
  have at: "at \<noteq> []"
    using t(1) parse_iso_Nil by auto
  from dfind_SomeD [OF f] have "iv_token_hash ?i = strip tok" by simp
  with dfind_dset [OF wf f] w'
  have f': "dfind (\<lambda>i. iv_token_hash i = strip tok) (ws_invitations w') = Some (k, ?i)" by simp
  have 1: "fst (complete_workspace_invitation tok name' pw' at' w') = Inl (ValueError ''invitation unavailable'')"
    if "parse_iso at' \<noteq> None"
    using that t at by (auto simp: complete_workspace_invitation_def f' iso_or_error_def)
  have 2: "get_workspace_invitation tok w = Some i"
    using f by (simp add: get_workspace_invitation_def find_dvalues)
  from s new have "ac_account_id acc = slower (iv_email i)"
    "ac_role acc = normalize_workspace_role (Some (iv_role i))"
    by (auto simp: save_workspace_account_def normalize_workspace_account_def invited_account_def
        ostrip_def Let_def split: option.splits if_splits)
  with 1 2 show ?thesis by auto
qed

definition sample_invitation :: invitation where
  "sample_invitation =
     \<lparr> iv_id = ''i1'', iv_email = ''a@b'', iv_role = ''admin'', iv_token_hash = ''h'',
       iv_delivery_status = ''sent'', iv_delivery_error = None, iv_used_at = None, iv_used_by = None,
       iv_created_by = ''root'', iv_created_at = ''2026-01-01T00:00:00Z'',
       iv_updated_at = ''2026-01-01T00:00:00Z'', iv_expires_at = ''2026-01-02T00:00:00Z'' \<rparr>"

definition sample_workspace :: workspace where
  "sample_workspace = \<lparr> ws_accounts = [], ws_invitations = [(''i1'', sample_invitation)],
     ws_schedules = [], ws_audit = [] \<rparr>"

definition sample_completion :: "(py_error + account) \<times> workspace" where
  "sample_completion =
     complete_workspace_invitation ''h'' ''Ann'' ''pw'' ''2026-01-01T10:00:00Z'' sample_workspace"

theorem invitation_single_use_witness:
  "(fst (complete_workspace_invitation ''h'' ''Bob'' ''x'' ''2026-01-01T11:00:00Z'' (snd sample_completion)) =
      Inl (ValueError ''invitation unavailable'') \<or> parse_iso ''2026-01-01T11:00:00Z'' = None) \<and>
   (\<exists>i. get_workspace_invitation ''h'' sample_workspace = Some i \<and>
        ac_account_id (projr (fst sample_completion)) = slower (iv_email i) \<and>
        ac_role (projr (fst sample_completion)) = normalize_workspace_role (Some (iv_role i)))"
proof (rule invitation_single_use)
  show "wf_dict (ws_invitations sample_workspace)" by (simp add: sample_workspace_def)
  have "\<not> isl (fst sample_completion)" by code_simp
  then show "complete_workspace_invitation ''h'' ''Ann'' ''pw'' ''2026-01-01T10:00:00Z'' sample_workspace =
      (Inr (projr (fst sample_completion)), snd sample_completion)"
    by (simp add: sample_completion_def prod_eq_iff)
qed

end
