(* ===== verification/Fence_Interface.thy ===== *)
theory Fence_Interface
  imports Prelude
begin

text \<open>
  The contract of the tables whose work is fenced by a token: a worker claims an item with its
  token, and every later write to the item is accepted only with the token that holds it
  (native notifications, reroute execution leases, automation reply claims). The interface says
  who may become the holder; its lemma is the reason the workers are safe: along any run, a write
  that is accepted comes from the last worker that won the item.
\<close>

datatype ('i, 'a, 'b, 'c) fence_op =
    FClaim 'i string 'a
  | FAct 'i string 'b
  | FOther 'c

datatype 'k fence_event = Won 'k string | Acted 'k string

text \<open>The claims that were won and the writes that were accepted, in order, and the final state.\<close>

fun fence_run ::
  "('i \<Rightarrow> 'k) \<Rightarrow> (string \<Rightarrow> string) \<Rightarrow> ('i \<Rightarrow> string \<Rightarrow> 'a \<Rightarrow> 's \<Rightarrow> bool \<times> 's)
    \<Rightarrow> ('i \<Rightarrow> string \<Rightarrow> 'b \<Rightarrow> 's \<Rightarrow> bool \<times> 's) \<Rightarrow> ('c \<Rightarrow> 's \<Rightarrow> 's)
    \<Rightarrow> ('i, 'a, 'b, 'c) fence_op list \<Rightarrow> 's \<Rightarrow> 'k fence_event list \<times> 's" where
  "fence_run key tok cl ac ot [] s = ([], s)"
| "fence_run key tok cl ac ot (FClaim i t a # ops) s =
     (let (ok, s') = cl i t a s; (log, s'') = fence_run key tok cl ac ot ops s'
      in (if ok then Won (key i) (tok t) # log else log, s''))"
| "fence_run key tok cl ac ot (FAct i t b # ops) s =
     (let (ok, s') = ac i t b s; (log, s'') = fence_run key tok cl ac ot ops s'
      in (if ok then Acted (key i) (tok t) # log else log, s''))"
| "fence_run key tok cl ac ot (FOther c # ops) s = fence_run key tok cl ac ot ops (ot c s)"

text \<open>Every accepted write is by the last winner of its item.\<close>

fun fenced_log :: "('k \<Rightarrow> string option) \<Rightarrow> 'k fence_event list \<Rightarrow> bool" where
  "fenced_log won [] = True"
| "fenced_log won (Won k t # log) = fenced_log (won(k \<mapsto> t)) log"
| "fenced_log won (Acted k t # log) = (won k = Some t \<and> fenced_log won log)"

definition acts_ok :: "('b \<Rightarrow> bool) \<Rightarrow> ('i, 'a, 'b, 'c) fence_op list \<Rightarrow> bool" where
  "acts_ok ok ops = list_all (\<lambda>p. case p of FAct _ _ b \<Rightarrow> ok b | _ \<Rightarrow> True) ops"

text \<open>What every step keeps holds at the end of a run.\<close>

lemma fence_run_invariant:
  assumes "\<And>i t a s. I s \<Longrightarrow> I (snd (cl i t a s))"
    and "\<And>i t b s. I s \<Longrightarrow> ok b \<Longrightarrow> I (snd (ac i t b s))" "\<And>c s. I s \<Longrightarrow> I (ot c s)"
  shows "I s \<Longrightarrow> acts_ok ok ops \<Longrightarrow> I (snd (fence_run key tok cl ac ot ops s))"
proof (induction ops arbitrary: s)
  case (Cons p ops)
  then show ?case
    using assms by (cases p) (simp_all add: split_def Let_def acts_ok_def)
qed simp

locale fenced =
  fixes holder :: "'s \<Rightarrow> 'k \<Rightarrow> string option"
    and key :: "'i \<Rightarrow> 'k"
    and tok :: "string \<Rightarrow> string"
    and claim :: "'i \<Rightarrow> string \<Rightarrow> 'a \<Rightarrow> 's \<Rightarrow> bool \<times> 's"
    and act :: "'i \<Rightarrow> string \<Rightarrow> 'b \<Rightarrow> 's \<Rightarrow> bool \<times> 's"
    and other :: "'c \<Rightarrow> 's \<Rightarrow> 's"
    and ok :: "'b \<Rightarrow> bool"
  assumes claim_won: "fst (claim i t a s) \<Longrightarrow> holder (snd (claim i t a s)) (key i) = Some (tok t)"
    and claim_keeps:
      "j \<noteq> key i \<or> \<not> fst (claim i t a s) \<Longrightarrow> holder (snd (claim i t a s)) j \<in> {None, holder s j}"
    and act_holder: "fst (act i t b s) \<Longrightarrow> holder s (key i) = Some (tok t)"
    and act_keeps: "ok b \<Longrightarrow> holder (snd (act i t b s)) j \<in> {None, holder s j}"
    and other_keeps: "holder (other c s) j \<in> {None, holder s j}"
begin

lemma run_fenced:
  "(\<And>j. holder s j \<in> {None, won j}) \<Longrightarrow> acts_ok ok ops \<Longrightarrow>
     fenced_log won (fst (fence_run key tok claim act other ops s))"
proof (induction ops arbitrary: s won)
  case (Cons p ops)
  from Cons.prems(2) have rest: "acts_ok ok ops" by (simp add: acts_ok_def)
  show ?case
  proof (cases p)
    case (FClaim i t a)
    let ?s = "snd (claim i t a s)"
    show ?thesis
    proof (cases "fst (claim i t a s)")
      case True
      have "holder ?s j \<in> {None, (won(key i \<mapsto> tok t)) j}" for j
        using claim_won [OF True] claim_keeps [of j i t a s] Cons.prems(1) [of j] by auto
      from Cons.IH [OF this rest] True show ?thesis
        by (simp add: FClaim split_def Let_def del: fun_upd_apply)
    next
      case False
      have "holder ?s j \<in> {None, won j}" for j
        using claim_keeps [of j i t a s] False Cons.prems(1) [of j] by auto
      from Cons.IH [OF this rest] False show ?thesis by (simp add: FClaim split_def Let_def)
    qed
  next
    case (FAct i t b)
    have "holder (snd (act i t b s)) j \<in> {None, won j}" for j
      using act_keeps [of b i t s j] Cons.prems(1) [of j] Cons.prems(2) by (auto simp: FAct acts_ok_def)
    from Cons.IH [OF this rest] act_holder [of i t b s] Cons.prems(1) [of "key i"]
    show ?thesis by (auto simp: FAct split_def Let_def)
  next
    case (FOther c)
    have "holder (other c s) j \<in> {None, won j}" for j
      using other_keeps [of c s j] Cons.prems(1) [of j] by auto
    from Cons.IH [OF this rest] show ?thesis by (simp add: FOther)
  qed
qed simp

end

end
