(* ===== verification/Idempotency.thy ===== *)
theory Idempotency
  imports Fence_Interface Json_Values
begin

text \<open>
  The table \<open>_idempotency_records\<close> of \<open>InMemoryTicketRepository\<close>: idempotent requests
  (begin, complete, fail) and, in the same table, the native notifications, which a worker claims
  with a token, checkpoints and finishes, and which a readback of the remote system can confirm.
\<close>

record idempotency_record =
  ir_scope :: string
  ir_key :: string
  ir_state :: string
  ir_response :: "jdict option"
  ir_created_at :: string
  ir_updated_at :: string

type_synonym idempotency_table = "(string \<times> string, idempotency_record) dict"

section \<open>Idempotent requests\<close>

definition new_idempotent_request :: "string \<Rightarrow> string \<Rightarrow> string \<Rightarrow> idempotency_record" where
  "new_idempotent_request scope k created_at =
     \<lparr> ir_scope = scope, ir_key = k, ir_state = ''processing'', ir_response = None,
       ir_created_at = created_at, ir_updated_at = created_at \<rparr>"

text \<open>The record and whether the caller is to do the work.\<close>

definition begin_idempotent_request ::
  "string \<Rightarrow> string \<Rightarrow> string \<Rightarrow> bool \<Rightarrow> (idempotency_table, idempotency_record \<times> bool) op" where
  "begin_idempotent_request scope idempotency_key created_at retry_failed t =
     (let k = (strip scope, strip idempotency_key)
      in if fst k = [] \<or> snd k = []
         then (Inl (ValueError ''scope and idempotency_key are required''), t)
         else case dget t k of
             Some existing \<Rightarrow>
               if retry_failed \<and> slower (ir_state existing) = ''failed''
               then let existing' = existing\<lparr>ir_state := ''processing'', ir_response := None,
                                             ir_updated_at := created_at\<rparr>
                    in (Inr (existing', True), dset k existing' t)
               else (Inr (existing, False), t)
           | None \<Rightarrow>
               let r = new_idempotent_request (fst k) (snd k) created_at
               in (Inr (r, True), dset k r t))"

definition complete_idempotent_request ::
  "string \<Rightarrow> string \<Rightarrow> jdict \<Rightarrow> string \<Rightarrow> (idempotency_table, unit) op" where
  "complete_idempotent_request scope idempotency_key response updated_at t =
     (let k = (strip scope, strip idempotency_key)
      in case dget t k of
           None \<Rightarrow> (Inl (ValueError ''idempotency request was not started''), t)
         | Some r \<Rightarrow> (Inr (), dset k (r\<lparr>ir_state := ''completed'', ir_response := Some response,
                                         ir_updated_at := updated_at\<rparr>) t))"

definition fail_idempotent_request ::
  "string \<Rightarrow> string \<Rightarrow> jdict \<Rightarrow> string \<Rightarrow> (idempotency_table, unit) op" where
  "fail_idempotent_request scope idempotency_key response updated_at t =
     (let k = (strip scope, strip idempotency_key)
      in case dget t k of
           None \<Rightarrow> (Inl (ValueError ''idempotency request was not started''), t)
         | Some r \<Rightarrow> (Inr (), dset k (r\<lparr>ir_state := ''failed'', ir_response := Some response,
                                         ir_updated_at := updated_at\<rparr>) t))"

section \<open>Native notifications\<close>

definition starts_with :: "string \<Rightarrow> string \<Rightarrow> bool" where
  "starts_with p s \<longleftrightarrow> take (length p) s = p"

definition ends_with :: "string \<Rightarrow> string \<Rightarrow> bool" where
  "ends_with p s \<longleftrightarrow> starts_with (rev p) (rev s)"

definition list_native_attachment_notifications ::
  "string \<Rightarrow> int \<Rightarrow> idempotency_table \<Rightarrow> idempotency_record list" where
  "list_native_attachment_notifications scope limit t =
     py_take limit (map snd (filter (\<lambda>((row_scope, k), row).
        row_scope = scope \<and> starts_with ''attachment:'' k \<and> \<not> ends_with '':failure-notice'' k \<and>
        ir_state row \<in> {''pending'', ''failed'', ''sending'', ''outcome_unknown''}) t))"

definition enqueue_native_notification ::
  "string \<Rightarrow> string \<Rightarrow> jdict \<Rightarrow> string \<Rightarrow> (idempotency_table, idempotency_record) op" where
  "enqueue_native_notification scope k payload created_at t =
     (let r = \<lparr> ir_scope = scope, ir_key = k, ir_state = ''pending'', ir_response = Some payload,
                ir_created_at = created_at, ir_updated_at = created_at \<rparr>
      in (Inr (case dget t (scope, k) of None \<Rightarrow> r | Some row \<Rightarrow> row), setdefault (scope, k) r t))"

text \<open>
  A claim changes the row before it stores the token in the payload; on a row without a payload
  that store raises, and the row stays \<open>sending\<close>.
\<close>

definition claim_native_notification ::
  "string \<Rightarrow> string \<Rightarrow> string \<Rightarrow> string \<Rightarrow> (idempotency_table, idempotency_record option) op" where
  "claim_native_notification scope k claim_token updated_at t =
     (if claim_token = []
      then (Inl (ValueError ''notification claim requires processing fence''), t)
      else case dget t (scope, k) of
          None \<Rightarrow> (Inr None, t)
        | Some row \<Rightarrow>
            if ir_state row \<notin> {''pending'', ''failed''} then (Inr None, t)
            else let row' = row\<lparr>ir_state := ''sending'', ir_updated_at := updated_at\<rparr>
                 in case ir_response row of
                      None \<Rightarrow> (Inl (TypeError ''NoneType does not support item assignment''),
                               dset (scope, k) row' t)
                    | Some p \<Rightarrow>
                        let row'' = row'\<lparr>ir_response := Some (dset ''claim_token'' (JStr claim_token) p)\<rparr>
                        in (Inr (Some row''), dset (scope, k) row'' t))"

text \<open>\<open>row["response_payload"].get("claim_token") != claim_token\<close>, which raises without a payload.\<close>

definition token_of :: "idempotency_record \<Rightarrow> py_error + json" where
  "token_of row = (case ir_response row of
     None \<Rightarrow> Inl (AttributeError ''NoneType has no attribute get'')
   | Some p \<Rightarrow> Inr (jget p ''claim_token''))"

definition checkpoint_native_notification ::
  "string \<Rightarrow> string \<Rightarrow> string \<Rightarrow> jdict \<Rightarrow> string \<Rightarrow> (idempotency_table, bool) op" where
  "checkpoint_native_notification scope k claim_token news updated_at t =
     (case dget t (scope, k) of
        None \<Rightarrow> (Inr False, t)
      | Some row \<Rightarrow>
          if ir_state row \<noteq> ''sending'' then (Inr False, t)
          else case token_of row of
              Inl e \<Rightarrow> (Inl e, t)
            | Inr tk \<Rightarrow>
                if tk \<noteq> JStr claim_token then (Inr False, t)
                else (Inr True, dset (scope, k)
                        (row\<lparr>ir_response := map_option (jupdate news) (ir_response row),
                             ir_updated_at := updated_at\<rparr>) t))"

definition finish_native_notification ::
  "string \<Rightarrow> string \<Rightarrow> string \<Rightarrow> string \<Rightarrow> jdict \<Rightarrow> string \<Rightarrow> (idempotency_table, bool) op" where
  "finish_native_notification scope k claim_token state delivery updated_at t =
     (if state \<notin> {''completed'', ''failed'', ''outcome_unknown''}
      then (Inl (ValueError ''invalid native notification outcome''), t)
      else case dget t (scope, k) of
          None \<Rightarrow> (Inr False, t)
        | Some row \<Rightarrow>
            if ir_state row \<noteq> ''sending'' then (Inr False, t)
            else case token_of row of
                Inl e \<Rightarrow> (Inl e, t)
              | Inr tk \<Rightarrow>
                  if tk \<noteq> JStr claim_token then (Inr False, t)
                  else (Inr True, dset (scope, k)
                          (row\<lparr>ir_state := state, ir_updated_at := updated_at,
                               ir_response := map_option (dset ''delivery'' (JDict delivery))
                                 (ir_response row)\<rparr>) t))"

text \<open>A readback of the remote system completes a row whatever token it carries.\<close>

definition confirm_native_attachment_readback ::
  "string \<Rightarrow> string \<Rightarrow> string \<Rightarrow> jdict \<Rightarrow> string \<Rightarrow> (idempotency_table, bool) op" where
  "confirm_native_attachment_readback scope k file_id delivery updated_at t =
     (if \<not> starts_with ''attachment:'' k
      then (Inl (ValueError ''attachment identity required''), t)
      else case dget t (scope, k) of
          None \<Rightarrow> (Inr False, t)
        | Some row \<Rightarrow>
            if ir_state row \<notin> {''sending'', ''outcome_unknown''} then (Inr False, t)
            else case ir_response row of
                None \<Rightarrow> (Inl (AttributeError ''NoneType has no attribute get''), t)
              | Some p \<Rightarrow>
                  if jget p ''slack_file_id'' \<noteq> JStr file_id then (Inr False, t)
                  else (Inr True, dset (scope, k)
                          (row\<lparr>ir_state := ''completed'', ir_updated_at := updated_at,
                               ir_response := Some (dset ''delivery'' (JDict delivery) p)\<rparr>) t))"

definition confirm_native_close_readback ::
  "string \<Rightarrow> string \<Rightarrow> jdict \<Rightarrow> string \<Rightarrow> (idempotency_table, bool) op" where
  "confirm_native_close_readback scope k delivery updated_at t =
     (if \<not> starts_with ''native-hermes-close:'' scope \<or>
         jget delivery ''ticket_status'' \<notin> {JStr ''solved'', JStr ''closed''}
      then (Inl (ValueError ''terminal native close readback required''), t)
      else case dget t (scope, k) of
          None \<Rightarrow> (Inr False, t)
        | Some row \<Rightarrow>
            if ir_state row \<notin> {''sending'', ''outcome_unknown''} then (Inr False, t)
            else let row' = row\<lparr>ir_state := ''completed'', ir_updated_at := updated_at\<rparr>
                 in case ir_response row of
                      None \<Rightarrow> (Inl (TypeError ''NoneType does not support item assignment''),
                               dset (scope, k) row' t)
                    | Some p \<Rightarrow>
                        (Inr True, dset (scope, k)
                           (row'\<lparr>ir_response := Some (dset ''delivery'' (JDict delivery) p)\<rparr>) t))"

section \<open>The notifications as fenced work\<close>

definition notification_holder :: "idempotency_table \<Rightarrow> string \<times> string \<Rightarrow> string option" where
  "notification_holder t k =
     (case dget t k of None \<Rightarrow> None
      | Some row \<Rightarrow>
          if ir_state row \<noteq> ''sending'' then None
          else case ir_response row of None \<Rightarrow> None
             | Some p \<Rightarrow> (case jget p ''claim_token'' of JStr tk \<Rightarrow> Some tk | _ \<Rightarrow> None))"

datatype notification_write =
    NCheckpoint jdict string
  | NFinish string jdict string

datatype notification_other =
    NEnqueue string string jdict string
  | NAttachment string string string jdict string
  | NClose string string jdict string
  | NComplete string string jdict string
  | NFail string string jdict string
  | NBegin string string string bool

definition succeeded :: "(py_error + bool) \<times> 's \<Rightarrow> bool \<times> 's" where
  "succeeded res = (fst res = Inr True, snd res)"

definition notification_claim_step ::
  "string \<times> string \<Rightarrow> string \<Rightarrow> string \<Rightarrow> idempotency_table \<Rightarrow> bool \<times> idempotency_table" where
  "notification_claim_step k tk at t =
     (let res = claim_native_notification (fst k) (snd k) tk at t
      in (case fst res of Inr (Some _) \<Rightarrow> True | _ \<Rightarrow> False, snd res))"

fun notification_act ::
  "string \<times> string \<Rightarrow> string \<Rightarrow> notification_write \<Rightarrow> idempotency_table \<Rightarrow> bool \<times> idempotency_table" where
  "notification_act k tk (NCheckpoint news at) t =
     succeeded (checkpoint_native_notification (fst k) (snd k) tk news at t)"
| "notification_act k tk (NFinish state delivery at) t =
     succeeded (finish_native_notification (fst k) (snd k) tk state delivery at t)"

fun notification_other_step :: "notification_other \<Rightarrow> idempotency_table \<Rightarrow> idempotency_table" where
  "notification_other_step (NEnqueue s k p at) t = snd (enqueue_native_notification s k p at t)"
| "notification_other_step (NAttachment s k f d at) t =
     snd (confirm_native_attachment_readback s k f d at t)"
| "notification_other_step (NClose s k d at) t = snd (confirm_native_close_readback s k d at t)"
| "notification_other_step (NComplete s k p at) t = snd (complete_idempotent_request s k p at t)"
| "notification_other_step (NFail s k p at) t = snd (fail_idempotent_request s k p at t)"
| "notification_other_step (NBegin s k at retry) t = snd (begin_idempotent_request s k at retry t)"

text \<open>A checkpoint that does not overwrite the token itself.\<close>

fun keeps_token :: "notification_write \<Rightarrow> bool" where
  "keeps_token (NCheckpoint news at) \<longleftrightarrow> wf_dict news \<and> ''claim_token'' \<notin> fst ` set news"
| "keeps_token (NFinish state delivery at) \<longleftrightarrow> True"

definition notification_run ::
  "(string \<times> string, string, notification_write, notification_other) fence_op list
    \<Rightarrow> idempotency_table \<Rightarrow> (string \<times> string) fence_event list \<times> idempotency_table" where
  "notification_run =
     fence_run id id notification_claim_step notification_act notification_other_step"

lemma notification_holder_dset:
  "notification_holder (dset k r t) j = (if j = k then notification_holder [(k, r)] k else notification_holder t j)"
  by (simp add: notification_holder_def dget_dset)

lemma notification_holder_setdefault:
  "notification_holder (setdefault k r t) j =
     (if j = k \<and> dget t k = None then notification_holder [(k, r)] k else notification_holder t j)"
  by (auto simp: notification_holder_def dget_setdefault)

lemma not_sending: "ir_state r \<noteq> ''sending'' \<Longrightarrow> notification_holder [(k, r)] k = None"
  by (simp add: notification_holder_def)

lemma notification_claim:
  "fst (notification_claim_step k tk at t) \<Longrightarrow>
     notification_holder (snd (notification_claim_step k tk at t)) k = Some tk"
  "j \<noteq> k \<or> \<not> fst (notification_claim_step k tk at t) \<Longrightarrow>
     notification_holder (snd (notification_claim_step k tk at t)) j \<in> {None, notification_holder t j}"
  by (auto simp: notification_claim_step_def claim_native_notification_def Let_def
      notification_holder_def dget_dset split: option.splits if_splits)

lemma notification_act_holder:
  "fst (notification_act k tk b t) \<Longrightarrow> notification_holder t k = Some tk"
  by (cases b)
     (auto simp: succeeded_def checkpoint_native_notification_def finish_native_notification_def
       token_of_def notification_holder_def split: option.splits if_splits)

lemma checkpoint_keeps:
  assumes "keeps_token (NCheckpoint news at)"
  shows "notification_holder (snd (checkpoint_native_notification s k tk news at t)) j =
         notification_holder t j"
proof -
  from assms have "jget (jupdate news p) ''claim_token'' = jget p ''claim_token''" for p
    by (simp add: jget_jupdate)
  then show ?thesis
    by (auto simp: checkpoint_native_notification_def token_of_def notification_holder_def dget_dset
        split: option.split)
qed

lemma finish_keeps:
  "notification_holder (snd (finish_native_notification s k tk st d at t)) j \<in>
     {None, notification_holder t j}"
  by (auto simp: finish_native_notification_def notification_holder_dset not_sending
      split: option.split sum.split)

interpretation notifications: fenced
  notification_holder id id notification_claim_step notification_act notification_other_step keeps_token
proof (unfold_locales, goal_cases)
  case (4 b i t s j)
  then show ?case
    using finish_keeps by (cases b) (auto simp: succeeded_def checkpoint_keeps simp del: keeps_token.simps)
next
  case (5 c s j)
  show ?case
    by (cases c)
       (auto simp: enqueue_native_notification_def confirm_native_attachment_readback_def
         confirm_native_close_readback_def complete_idempotent_request_def fail_idempotent_request_def
         begin_idempotent_request_def new_idempotent_request_def Let_def notification_holder_dset notification_holder_setdefault not_sending
         split: option.split)
qed (use notification_claim notification_act_holder in auto)

section \<open>Properties\<close>

text \<open>C13
  Along any sequence of operations on the table, a checkpoint or a finish of a native notification
  is accepted only from the worker whose claim was the last to win that notification: a worker
  whose notification was claimed again by another one can no longer write to it. (Checkpoints are
  assumed not to overwrite the stored token itself.)
\<close>

theorem notification_writes_fenced:
  assumes "acts_ok keeps_token ops"
  shows "fenced_log (\<lambda>k. None) (fst (notification_run ops []))"
  unfolding notification_run_def
  by (rule notifications.run_fenced) (simp_all add: assms notification_holder_def)

theorem notification_writes_fenced_witness:
  "fenced_log (\<lambda>k. None) (fst (notification_run
     [FOther (NEnqueue ''s'' ''n'' [] ''t0''), FClaim (''s'', ''n'') ''A'' ''t1'',
      FAct (''s'', ''n'') ''B'' (NFinish ''completed'' [] ''t2''),
      FAct (''s'', ''n'') ''A'' (NCheckpoint [(''step'', JInt 1)] ''t2''),
      FAct (''s'', ''n'') ''A'' (NFinish ''failed'' [] ''t3''),
      FClaim (''s'', ''n'') ''B'' ''t4'', FAct (''s'', ''n'') ''A'' (NFinish ''completed'' [] ''t5''),
      FAct (''s'', ''n'') ''B'' (NFinish ''completed'' [] ''t6'')] []))"
  by (rule notification_writes_fenced) (simp add: acts_ok_def)

datatype request_op =
    IBegin string string string bool
  | IComplete string string jdict string
  | IFail string string jdict string

text \<open>The keys whose begin told the caller to do the work, in order.\<close>

fun request_run :: "request_op list \<Rightarrow> idempotency_table \<Rightarrow> (string \<times> string) list" where
  "request_run [] t = []"
| "request_run (IBegin s k at retry # ops) t =
     (case begin_idempotent_request s k at retry t of
        (Inr (r, True), t') \<Rightarrow> (strip s, strip k) # request_run ops t'
      | (_, t') \<Rightarrow> request_run ops t')"
| "request_run (IComplete s k p at # ops) t = request_run ops (snd (complete_idempotent_request s k p at t))"
| "request_run (IFail s k p at # ops) t = request_run ops (snd (fail_idempotent_request s k p at t))"

definition open_for_work :: "idempotency_table \<Rightarrow> string \<times> string \<Rightarrow> bool" where
  "open_for_work t k \<longleftrightarrow>
     (case dget t k of None \<Rightarrow> True | Some r \<Rightarrow> slower (ir_state r) = ''failed'')"

lemma slower_processing [simp]: "slower ''processing'' = ''processing''" "slower ''completed'' = ''completed''"
  "slower ''failed'' = ''failed''"
  by code_simp+

lemma begin_request:
  assumes "begin_idempotent_request s k at retry t = (Inr (r, created), t')"
  shows "open_for_work t' j =
           (open_for_work t j \<and> \<not> (created \<and> j = (strip s, strip k)))"
    and "created \<Longrightarrow> open_for_work t (strip s, strip k)"
  using assms
  by (auto simp: begin_idempotent_request_def Let_def open_for_work_def new_idempotent_request_def
      dget_dset split: option.splits if_splits)

lemma begin_request_error:
  "begin_idempotent_request s k at retry t = (Inl e, t') \<Longrightarrow> t' = t"
  by (auto simp: begin_idempotent_request_def Let_def split: option.splits if_splits)

lemma complete_request:
  "open_for_work (snd (complete_idempotent_request s k p at t)) j \<Longrightarrow> open_for_work t j"
  by (auto simp: complete_idempotent_request_def Let_def open_for_work_def dget_dset
      split: option.splits if_splits)

lemma fail_request:
  "j \<noteq> (strip s, strip k) \<Longrightarrow>
     open_for_work (snd (fail_idempotent_request s k p at t)) j = open_for_work t j"
  by (auto simp: fail_idempotent_request_def Let_def open_for_work_def dget_dset split: option.splits)

text \<open>C12
  The work of an idempotent request is begun at most once, plus once for every failure that was
  recorded for it: however the begins (with or without retry), completions and failures of
  requests interleave, a duplicate begin of a request in flight or completed does no work.
\<close>

theorem idempotent_work_bounded:
  "length (filter (\<lambda>j. j = k) (request_run ops t))
     \<le> (if open_for_work t k then 1 else 0) +
        length (filter (\<lambda>p. case p of IFail s i _ _ \<Rightarrow> k = (strip s, strip i) | _ \<Rightarrow> False) ops)"
proof (induction ops arbitrary: t)
  case (Cons p ops)
  show ?case
  proof (cases p)
    case (IBegin s i at retry)
    obtain res t' where b: "begin_idempotent_request s i at retry t = (res, t')"
      by (cases "begin_idempotent_request s i at retry t") simp
    show ?thesis
    proof (cases res)
      case (Inl e)
      with b begin_request_error [of s i at retry t e t'] Cons.IH [of t'] show ?thesis
        by (simp add: IBegin)
    next
      case (Inr rc)
      obtain r created where rc: "rc = (r, created)" by (cases rc) simp
      from begin_request [OF b [unfolded Inr rc]] Cons.IH [of t'] b Inr rc show ?thesis
        by (cases created) (auto simp: IBegin split: if_splits)
    qed
  next
    case (IComplete s i q at)
    then show ?thesis
      using Cons.IH [of "snd (complete_idempotent_request s i q at t)"]
        complete_request [of s i q at t k] by (auto split: if_splits)
  next
    case (IFail s i q at)
    then show ?thesis
      using Cons.IH [of "snd (fail_idempotent_request s i q at t)"]
        fail_request [of k s i q at t] by (auto split: if_splits)
  qed
qed simp

end
