(* ===== verification/Outbox_Interface.thy ===== *)
theory Outbox_Interface
  imports Prelude
begin

text \<open>
  The contract the delivery tables share. Every outbound message (a Zendesk comment, a Slack
  event, a classification e-mail) is a row with a status. A worker claims a row, which succeeds
  only on a \<open>queued\<close> row and makes it \<open>pending\<close>; it then completes the row. A row may be put
  back to \<open>queued\<close> by other operations, the \<open>feeds\<close>. The interface says what those three may
  do to a status, and its lemmas are what the workers rely on: two claims of a row never
  both succeed without a feed between them, and a delivered row is never sent again.
\<close>

section \<open>Runs\<close>

datatype ('r, 'c, 'f) outbox_op = Claim 'r string | Complete 'r 'c | Feed 'f

text \<open>
  The operations one after the other (each holds the repository's lock): the requests whose
  claim succeeded, in order, and the state at the end.
\<close>

fun outbox_run ::
  "('r \<Rightarrow> string \<Rightarrow> 's \<Rightarrow> bool \<times> 's) \<Rightarrow> ('r \<Rightarrow> 'c \<Rightarrow> 's \<Rightarrow> 's) \<Rightarrow> ('f \<Rightarrow> 's \<Rightarrow> 's)
    \<Rightarrow> ('r, 'c, 'f) outbox_op list \<Rightarrow> 's \<Rightarrow> 'r list \<times> 's" where
  "outbox_run cl co fe [] s = ([], s)"
| "outbox_run cl co fe (Claim r t # ops) s =
     (let (won, s') = cl r t s; (ws, s'') = outbox_run cl co fe ops s'
      in (if won then r # ws else ws, s''))"
| "outbox_run cl co fe (Complete r c # ops) s = outbox_run cl co fe ops (co r c s)"
| "outbox_run cl co fe (Feed f # ops) s = outbox_run cl co fe ops (fe f s)"

text \<open>An invariant of the rows holds after a run if every step keeps it.\<close>

lemma outbox_run_invariant:
  assumes "\<And>r t s. I s \<Longrightarrow> I (snd (cl r t s))" "\<And>r c s. I s \<Longrightarrow> I (co r c s)"
    "\<And>f s. I s \<Longrightarrow> I (fe f s)"
  shows "I s \<Longrightarrow> I (snd (outbox_run cl co fe ops s))"
proof (induction ops arbitrary: s)
  case (Cons p ops)
  then show ?case
    using assms by (cases p) (simp_all add: split_def Let_def)
qed simp

text \<open>The normalised status of the row under a key, in a table whose rows have a status field.\<close>

definition table_status :: "('v \<Rightarrow> string) \<Rightarrow> ('k, 'v) dict \<Rightarrow> 'k \<Rightarrow> string option" where
  "table_status st t k = map_option (\<lambda>r. slower (st r)) (dget t k)"

lemma table_status_dset [simp]:
  "table_status st (dset k r t) j = (if j = k then Some (slower (st r)) else table_status st t j)"
  by (simp add: table_status_def dget_dset)

lemma table_status_setdefault:
  "table_status st (setdefault k r t) j =
     (if j = k \<and> table_status st t k = None then Some (slower (st r)) else table_status st t j)"
  by (simp add: table_status_def dget_setdefault)

lemmas table_effect = table_status_def dget_dset Let_def

text \<open>The statuses the workers use are their own normal forms.\<close>

lemma slower_literals [simp]:
  "slower ''queued'' = ''queued''" "slower ''pending'' = ''pending''"
  "slower ''delivered'' = ''delivered''" "slower ''account'' = ''account''"
  "slower ''failed'' = ''failed''" "slower ''outcome_unknown'' = ''outcome_unknown''"
  "slower ''waiting_zendesk'' = ''waiting_zendesk''"
  by code_simp+

section \<open>The interface\<close>

locale outbox =
  fixes row_status :: "'s \<Rightarrow> 'k \<Rightarrow> string option"
    and key :: "'r \<Rightarrow> 'k"
    and claim :: "'r \<Rightarrow> string \<Rightarrow> 's \<Rightarrow> bool \<times> 's"
    and complete :: "'r \<Rightarrow> 'c \<Rightarrow> 's \<Rightarrow> 's"
    and feed :: "'f \<Rightarrow> 's \<Rightarrow> 's"
    and feeds :: "'f \<Rightarrow> 'k \<Rightarrow> bool"
  assumes claim_flag: "fst (claim r t s) \<longleftrightarrow> row_status s (key r) = Some ''queued''"
    and claim_status:
      "row_status (snd (claim r t s)) k =
         (if k = key r \<and> row_status s k = Some ''queued'' then Some ''pending''
          else row_status s k)"
    and complete_other: "k \<noteq> key r \<Longrightarrow> row_status (complete r c s) k = row_status s k"
    and complete_not_queued:
      "row_status (complete r c s) k = Some ''queued'' \<Longrightarrow> row_status s k = Some ''queued''"
    and complete_delivered:
      "row_status s k = Some ''delivered'' \<Longrightarrow> row_status (complete r c s) k = Some ''delivered''"
    and feed_other: "\<not> feeds f k \<Longrightarrow> row_status (feed f s) k = row_status s k"
    and feed_delivered:
      "row_status s k = Some ''delivered'' \<Longrightarrow> row_status (feed f s) k = Some ''delivered''"
begin

abbreviation run :: "('r, 'c, 'f) outbox_op list \<Rightarrow> 's \<Rightarrow> 'r list \<times> 's" where
  "run \<equiv> outbox_run claim complete feed"

abbreviation wins :: "'k \<Rightarrow> ('r, 'c, 'f) outbox_op list \<Rightarrow> 's \<Rightarrow> nat" where
  "wins k ops s \<equiv> length (filter (\<lambda>r. key r = k) (fst (run ops s)))"

abbreviation fed :: "'k \<Rightarrow> ('r, 'c, 'f) outbox_op list \<Rightarrow> nat" where
  "fed k ops \<equiv> length (filter (\<lambda>o'. case o' of Feed f \<Rightarrow> feeds f k | _ \<Rightarrow> False) ops)"

text \<open>
  A row is sent at most once per time it is put into the queue: the number of successful claims
  is at most one for a row that is queued at the start, plus one per feed that names it.
\<close>

lemma claims_bounded:
  "wins k ops s \<le> (if row_status s k = Some ''queued'' then 1 else 0) + fed k ops"
proof (induction ops arbitrary: s)
  case (Cons p ops)
  show ?case
  proof (cases p)
    case (Claim r t)
    have "wins k (p # ops) s =
        (if fst (claim r t s) \<and> key r = k then 1 else 0) + wins k ops (snd (claim r t s))"
      by (simp add: Claim split_def Let_def)
    then show ?thesis
      using Cons.IH [of "snd (claim r t s)"]
      by (auto simp: Claim claim_flag claim_status split: if_splits)
  next
    case (Complete r c)
    then show ?thesis
      using Cons.IH [of "complete r c s"] complete_not_queued [of r c s k]
      by (auto split: if_splits)
  next
    case (Feed f)
    then show ?thesis
      using Cons.IH [of "feed f s"] feed_other [of f k s] by (auto split: if_splits)
  qed
qed simp

lemma two_claims_need_a_feed:
  "fst (claim r t s) \<Longrightarrow> fed (key r) ops = 0 \<Longrightarrow> wins (key r) ops (snd (claim r t s)) = 0"
  using claims_bounded [of "key r" ops "snd (claim r t s)"]
  by (auto simp: claim_flag claim_status)

lemma delivered_forever:
  "row_status s k = Some ''delivered'' \<Longrightarrow>
     row_status (snd (run ops s)) k = Some ''delivered'' \<and> wins k ops s = 0"
proof (induction ops arbitrary: s)
  case (Cons p ops)
  show ?case
  proof (cases p)
    case (Claim r t)
    then show ?thesis
      using Cons.IH [of "snd (claim r t s)"] Cons.prems
      by (auto simp: claim_status claim_flag split_def Let_def)
  next
    case (Complete r c)
    then show ?thesis
      using Cons.IH [of "complete r c s"] complete_delivered [OF Cons.prems] by simp
  next
    case (Feed f)
    then show ?thesis
      using Cons.IH [of "feed f s"] feed_delivered [OF Cons.prems] by simp
  qed
qed simp

end

end
