(* ===== verification/Zendesk_Outbox.thy ===== *)
theory Zendesk_Outbox
  imports Outbox_Interface
begin

text \<open>
  The outbox of comments the program writes to Zendesk: the table
  \<open>_account_zendesk_comment_deliveries\<close> of \<open>InMemoryTicketRepository\<close>
  (\<open>backend/repositories/ticket_repository.py\<close>), keyed by the account case and the message.
  A row is created \<open>queued\<close>, claimed by one worker (\<open>pending\<close>), and completed as
  \<open>delivered\<close>, \<open>outcome_unknown\<close>, \<open>failed\<close> or \<open>cancelled\<close>; a pending row can be put back.
\<close>

type_synonym attachment = "(string \<times> string) list"

record zendesk_delivery =
  zd_account_case_id :: string
  zd_message_id :: string
  zd_zendesk_ticket_id :: string
  zd_idempotency_key :: string
  zd_is_public :: bool
  zd_status :: string
  zd_zendesk_comment_id :: "string option"
  zd_failure_code :: "string option"
  zd_confirmed_at :: "string option"
  zd_target_status :: "string option"
  zd_source :: string
  zd_engineer_case_id :: "string option"
  zd_investigation_id :: "string option"
  zd_draft_version :: "int option"
  zd_comments_revision :: "string option"
  zd_immutable_content :: "string option"
  zd_attachments :: "attachment list"
  zd_created_at :: string
  zd_updated_at :: string

text \<open>The keyword arguments of \<open>create_account_zendesk_comment_delivery\<close>.\<close>

record zendesk_request =
  zr_account_case_id :: string
  zr_message_id :: string
  zr_zendesk_ticket_id :: string
  zr_idempotency_key :: string
  zr_created_at :: string
  zr_is_public :: bool
  zr_target_status :: "string option"
  zr_source :: "string option"
  zr_engineer_case_id :: "string option"
  zr_investigation_id :: "string option"
  zr_draft_version :: "int option"
  zr_comments_revision :: "string option"
  zr_immutable_content :: "string option"
  zr_attachments :: "attachment list option"

type_synonym zendesk_outbox = "(string \<times> string, zendesk_delivery) dict"

section \<open>The operations\<close>

definition new_zendesk_delivery :: "zendesk_request \<Rightarrow> zendesk_delivery" where
  "new_zendesk_delivery q =
     \<lparr> zd_account_case_id = strip (zr_account_case_id q),
       zd_message_id = strip (zr_message_id q),
       zd_zendesk_ticket_id = strip (zr_zendesk_ticket_id q),
       zd_idempotency_key = strip (zr_idempotency_key q),
       zd_is_public = zr_is_public q,
       zd_status = ''queued'',
       zd_zendesk_comment_id = None,
       zd_failure_code = None,
       zd_confirmed_at = None,
       zd_target_status = or_none (olower (zr_target_status q)),
       zd_source = slower (or_else (ostr (zr_source q)) ''account''),
       zd_engineer_case_id = or_none (ostrip (zr_engineer_case_id q)),
       zd_investigation_id = or_none (ostrip (zr_investigation_id q)),
       zd_draft_version = zr_draft_version q,
       zd_comments_revision = or_none (ostrip (zr_comments_revision q)),
       zd_immutable_content = or_none (ostrip (zr_immutable_content q)),
       zd_attachments = (case zr_attachments q of None \<Rightarrow> [] | Some xs \<Rightarrow> xs),
       zd_created_at = zr_created_at q,
       zd_updated_at = zr_created_at q \<rparr>"

text \<open>The row and whether this call created it.\<close>

definition create_account_zendesk_comment_delivery ::
  "zendesk_request \<Rightarrow> (zendesk_outbox, zendesk_delivery \<times> bool) op" where
  "create_account_zendesk_comment_delivery q t =
     (let key = (strip (zr_account_case_id q), strip (zr_message_id q));
          normalized_target_status = or_none (olower (zr_target_status q));
          normalized_source = slower (or_else (ostr (zr_source q)) ''account'')
      in if normalized_target_status \<notin> {None, Some ''solved''}
         then (Inl (ValueError ''invalid Zendesk comment delivery target status''), t)
         else if normalized_source \<notin> {''account'', ''engineer'', ''hermes''}
         then (Inl (ValueError ''invalid Zendesk comment delivery source''), t)
         else if normalized_source = ''engineer'' \<and>
           \<not> (ostrip (zr_engineer_case_id q) \<noteq> [] \<and> ostrip (zr_investigation_id q) \<noteq> [] \<and>
              (case zr_draft_version q of None \<Rightarrow> 0 | Some v \<Rightarrow> v) > 0 \<and>
              ostrip (zr_comments_revision q) \<noteq> [] \<and> ostrip (zr_immutable_content q) \<noteq> [])
         then (Inl (ValueError ''Engineer Zendesk delivery metadata is required''), t)
         else case dget t key of
             Some existing \<Rightarrow> (Inr (existing, False), t)
           | None \<Rightarrow>
               let delivery = new_zendesk_delivery q
               in (Inr (delivery, True), dset key delivery t))"

definition checkpoint_zendesk_delivery_attachments ::
  "string \<Rightarrow> string \<Rightarrow> attachment list \<Rightarrow> (zendesk_outbox, bool) op" where
  "checkpoint_zendesk_delivery_attachments account_case_id message_id attachments t =
     (case dget t (account_case_id, message_id) of
        None \<Rightarrow> (Inr False, t)
      | Some row \<Rightarrow>
          if zd_status row \<noteq> ''pending'' then (Inr False, t)
          else (Inr True, dset (account_case_id, message_id) (row\<lparr>zd_attachments := attachments\<rparr>) t))"

text \<open>
  The answer to a claim: the row and the \<open>claimed\<close> flag, or the stand-in with status
  \<open>missing\<close> for a row that does not exist.
\<close>

datatype zendesk_claim =
    ZMissing string string
  | ZClaim zendesk_delivery bool

definition claim_account_zendesk_comment_delivery ::
  "string \<Rightarrow> string \<Rightarrow> string \<Rightarrow> (zendesk_outbox, zendesk_claim) op" where
  "claim_account_zendesk_comment_delivery account_case_id message_id claimed_at t =
     (let key = (strip account_case_id, strip message_id)
      in case dget t key of
           None \<Rightarrow> (Inr (ZMissing (fst key) (snd key)), t)
         | Some delivery \<Rightarrow>
             let claimed = (slower (zd_status delivery) = ''queued'');
                 delivery' = (if claimed
                              then delivery\<lparr>zd_status := ''pending'', zd_updated_at := claimed_at\<rparr>
                              else delivery)
             in (Inr (ZClaim delivery' claimed), dset key delivery' t))"

definition list_account_zendesk_comment_deliveries ::
  "string list \<Rightarrow> int \<Rightarrow> zendesk_outbox \<Rightarrow> zendesk_delivery list" where
  "list_account_zendesk_comment_deliveries statuses limit t =
     (let allowed_statuses = filter (\<lambda>x. x \<noteq> []) (map slower statuses)
      in if allowed_statuses = [] then []
         else take_limit 500 limit
           (sort_key (\<lambda>r. (zd_created_at r, zd_account_case_id r, zd_message_id r))
             (filter (\<lambda>r. slower (zd_status r) \<in> set allowed_statuses) (dvalues t))))"

definition list_account_zendesk_comment_deliveries_for_case ::
  "string \<Rightarrow> zendesk_outbox \<Rightarrow> zendesk_delivery list" where
  "list_account_zendesk_comment_deliveries_for_case account_case_id t =
     (let normalized_id = strip account_case_id
      in if normalized_id = [] then []
         else sort_key (\<lambda>r. (zd_created_at r, zd_message_id r))
           (filter (\<lambda>r. strip (zd_account_case_id r) = normalized_id) (dvalues t)))"

text \<open>
  Completion checks the lower-cased status but stores, and compares with \<open>delivered\<close>, the
  caller's spelling.
\<close>

definition complete_account_zendesk_comment_delivery ::
  "string \<Rightarrow> string \<Rightarrow> string \<Rightarrow> string option \<Rightarrow> string option \<Rightarrow> string
    \<Rightarrow> (zendesk_outbox, zendesk_delivery option) op" where
  "complete_account_zendesk_comment_delivery
       account_case_id message_id status zendesk_comment_id failure_code completed_at t =
     (let normalized_status = slower status; key = (strip account_case_id, strip message_id)
      in if normalized_status \<notin> {''delivered'', ''outcome_unknown'', ''failed'', ''cancelled''}
         then (Inl (ValueError ''invalid Zendesk comment delivery status''), t)
         else case dget t key of
             None \<Rightarrow> (Inr None, t)
           | Some delivery \<Rightarrow>
               if slower (zd_status delivery) = ''delivered'' then (Inr (Some delivery), t)
               else let delivery' = delivery\<lparr>
                          zd_status := strip status,
                          zd_zendesk_comment_id := or_none (ostrip zendesk_comment_id),
                          zd_failure_code := or_none (ostrip failure_code),
                          zd_confirmed_at :=
                            (if status = ''delivered'' then Some completed_at else None),
                          zd_updated_at := completed_at\<rparr>
                    in (Inr (Some delivery'), dset key delivery' t))"

definition requeue_account_zendesk_comment_delivery ::
  "string \<Rightarrow> string \<Rightarrow> string \<Rightarrow> (zendesk_outbox, zendesk_delivery option) op" where
  "requeue_account_zendesk_comment_delivery account_case_id message_id requeued_at t =
     (let key = (strip account_case_id, strip message_id)
      in case dget t key of
           None \<Rightarrow> (Inr None, t)
         | Some delivery \<Rightarrow>
             let delivery' = (if slower (zd_status delivery) = ''pending''
                              then delivery\<lparr>zd_status := ''queued'', zd_updated_at := requeued_at\<rparr>
                              else delivery)
             in (Inr (Some delivery'), dset key delivery' t))"

lemmas zendesk_defs =
  create_account_zendesk_comment_delivery_def checkpoint_zendesk_delivery_attachments_def
  claim_account_zendesk_comment_delivery_def complete_account_zendesk_comment_delivery_def
  requeue_account_zendesk_comment_delivery_def

section \<open>The table as an outbox\<close>

definition zendesk_row_status :: "zendesk_outbox \<Rightarrow> string \<times> string \<Rightarrow> string option" where
  "zendesk_row_status = table_status zd_status"

definition zendesk_key :: "string \<times> string \<Rightarrow> string \<times> string" where
  "zendesk_key r = (strip (fst r), strip (snd r))"

definition zendesk_claim_flag :: "(py_error + zendesk_claim) \<times> zendesk_outbox \<Rightarrow> bool \<times> zendesk_outbox" where
  "zendesk_claim_flag res =
     (case fst res of Inr (ZClaim _ claimed) \<Rightarrow> claimed | _ \<Rightarrow> False, snd res)"

text \<open>The operations that can put a row into the queue, and the one that leaves it alone.\<close>

datatype zendesk_feed =
    ZCreate zendesk_request
  | ZRequeue string string string
  | ZCheckpoint string string "attachment list"

fun zendesk_feed_step :: "zendesk_feed \<Rightarrow> zendesk_outbox \<Rightarrow> zendesk_outbox" where
  "zendesk_feed_step (ZCreate q) t = snd (create_account_zendesk_comment_delivery q t)"
| "zendesk_feed_step (ZRequeue c m at) t = snd (requeue_account_zendesk_comment_delivery c m at t)"
| "zendesk_feed_step (ZCheckpoint c m xs) t = snd (checkpoint_zendesk_delivery_attachments c m xs t)"

fun zendesk_feeds :: "zendesk_feed \<Rightarrow> string \<times> string \<Rightarrow> bool" where
  "zendesk_feeds (ZCreate q) k \<longleftrightarrow> k = (strip (zr_account_case_id q), strip (zr_message_id q))"
| "zendesk_feeds (ZRequeue c m at) k \<longleftrightarrow> k = (strip c, strip m)"
| "zendesk_feeds (ZCheckpoint c m xs) k \<longleftrightarrow> False"

type_synonym zendesk_op =
  "(string \<times> string, string \<times> string option \<times> string option \<times> string, zendesk_feed) outbox_op"

definition zendesk_claim_step :: "string \<times> string \<Rightarrow> string \<Rightarrow> zendesk_outbox \<Rightarrow> bool \<times> zendesk_outbox" where
  "zendesk_claim_step r at t =
     zendesk_claim_flag (claim_account_zendesk_comment_delivery (fst r) (snd r) at t)"

definition zendesk_complete_step ::
  "string \<times> string \<Rightarrow> string \<times> string option \<times> string option \<times> string
    \<Rightarrow> zendesk_outbox \<Rightarrow> zendesk_outbox" where
  "zendesk_complete_step r c t =
     (case c of (status, comment_id, failure_code, at) \<Rightarrow>
        snd (complete_account_zendesk_comment_delivery (fst r) (snd r) status comment_id
               failure_code at t))"

text \<open>A run of operations on the table: the claims that succeeded and the final table.\<close>

definition zendesk_run ::
  "zendesk_op list \<Rightarrow> zendesk_outbox \<Rightarrow> (string \<times> string) list \<times> zendesk_outbox" where
  "zendesk_run = outbox_run zendesk_claim_step zendesk_complete_step zendesk_feed_step"

text \<open>What each operation does to the statuses.\<close>

lemma create_status:
  "zendesk_row_status (snd (create_account_zendesk_comment_delivery q t)) k = zendesk_row_status t k \<or>
   zendesk_feeds (ZCreate q) k \<and> zendesk_row_status t k = None"
  unfolding create_account_zendesk_comment_delivery_def Let_def
  by (simp add: zendesk_row_status_def table_status_def dget_dset split: option.splits)

lemma claim_status:
  "zendesk_claim_step r at t =
     (let d = dget t (zendesk_key r); won = (zendesk_row_status t (zendesk_key r) = Some ''queued'')
      in (won, case d of None \<Rightarrow> t
               | Some d \<Rightarrow> dset (zendesk_key r)
                   (if won then d\<lparr>zd_status := ''pending'', zd_updated_at := at\<rparr> else d) t))"
  by (simp add: zendesk_claim_step_def zendesk_claim_flag_def zendesk_key_def zendesk_row_status_def table_status_def
      claim_account_zendesk_comment_delivery_def Let_def split: option.split)

lemma complete_status:
  "zendesk_row_status (zendesk_complete_step r c t) k =
     (if k = zendesk_key r \<and> zendesk_row_status t k \<notin> {None, Some ''delivered''} \<and>
         slower (fst c) \<in> {''delivered'', ''outcome_unknown'', ''failed'', ''cancelled''}
      then Some (slower (fst c)) else zendesk_row_status t k)"
  by (cases c) (simp add: zendesk_complete_step_def complete_account_zendesk_comment_delivery_def
      zendesk_key_def Let_def zendesk_row_status_def table_status_def dget_dset split: option.split)

lemma requeue_status:
  "zendesk_row_status (snd (requeue_account_zendesk_comment_delivery c m at t)) k =
     (if k = (strip c, strip m) \<and> zendesk_row_status t k = Some ''pending'' then Some ''queued''
      else zendesk_row_status t k)"
  by (simp add: requeue_account_zendesk_comment_delivery_def Let_def zendesk_row_status_def table_status_def dget_dset
      split: option.split)

lemma checkpoint_status [simp]:
  "zendesk_row_status (snd (checkpoint_zendesk_delivery_attachments c m xs t)) k =
     zendesk_row_status t k"
  by (simp add: checkpoint_zendesk_delivery_attachments_def zendesk_row_status_def table_status_def dget_dset
      split: option.split)

interpretation zendesk_outbox: outbox
  zendesk_row_status zendesk_key zendesk_claim_step zendesk_complete_step
  zendesk_feed_step zendesk_feeds
proof (unfold_locales, goal_cases)
  case (1 r t s)
  then show ?case by (simp add: claim_status Let_def)
next
  case (2 r t s k)
  then show ?case
    by (auto simp: claim_status Let_def zendesk_row_status_def table_status_def dget_dset split: option.split)
next
  case (6 f k s)
  then show ?case
    using create_status [of _ s k] by (cases f) (auto simp: requeue_status)
next
  case (7 s k f)
  then show ?case
    using create_status [of _ s k] by (cases f) (auto simp: requeue_status)
qed (auto simp: complete_status split: if_splits)

section \<open>Properties\<close>

text \<open>C10
  Along any sequence of operations on the table, a row is claimed for sending at most as often as
  it is put into the queue: once if it is queued at the start, plus once for each creation or
  requeue that names it. So no comment is posted twice by two workers that both won the claim.
\<close>

theorem zendesk_claims_bounded:
  "length (filter (\<lambda>r. zendesk_key r = k) (fst (zendesk_run ops t)))
     \<le> (if zendesk_row_status t k = Some ''queued'' then 1 else 0) +
        length (filter (\<lambda>p. case p of Feed f \<Rightarrow> zendesk_feeds f k | _ \<Rightarrow> False) ops)"
  unfolding zendesk_run_def by (rule zendesk_outbox.claims_bounded)

text \<open>C15
  A row that reached \<open>delivered\<close> stays delivered and is never claimed again, whatever creations,
  claims, completions, requeues and checkpoints follow.
\<close>

theorem zendesk_delivered_final:
  assumes "zendesk_row_status t k = Some ''delivered''"
  shows "zendesk_row_status (snd (zendesk_run ops t)) k = Some ''delivered'' \<and>
         filter (\<lambda>r. zendesk_key r = k) (fst (zendesk_run ops t)) = []"
  using zendesk_outbox.delivered_forever [OF assms, of ops] by (simp add: zendesk_run_def)

definition sample_zendesk_request :: zendesk_request where
  "sample_zendesk_request =
     \<lparr> zr_account_case_id = ''C1'', zr_message_id = ''m1'', zr_zendesk_ticket_id = ''7'',
       zr_idempotency_key = ''k'', zr_created_at = ''t0'', zr_is_public = True,
       zr_target_status = None, zr_source = None, zr_engineer_case_id = None,
       zr_investigation_id = None, zr_draft_version = None, zr_comments_revision = None,
       zr_immutable_content = None, zr_attachments = None \<rparr>"

definition sample_zendesk_outbox :: "zendesk_op list \<Rightarrow> zendesk_outbox" where
  "sample_zendesk_outbox ops =
     snd (zendesk_run (Feed (ZCreate sample_zendesk_request) # ops) [])"

theorem zendesk_delivered_final_witness:
  "let t = sample_zendesk_outbox
             [Claim (''C1'', ''m1'') ''t1'',
              Complete (''C1'', ''m1'') (''delivered'', Some ''99'', None, ''t2'')];
       ops = [Feed (ZRequeue ''C1'' ''m1'' ''t3''), Claim (''C1'', ''m1'') ''t4'']
   in zendesk_row_status (snd (zendesk_run ops t)) (''C1'', ''m1'') = Some ''delivered'' \<and>
      filter (\<lambda>r. zendesk_key r = (''C1'', ''m1'')) (fst (zendesk_run ops t)) = []"
  unfolding Let_def by (rule zendesk_delivered_final) code_simp

text \<open>
  Completing a row with a spelling of \<open>delivered\<close> other than the lower-case one (a capital letter,
  surrounding blanks) is accepted and makes the row final, but leaves it without a confirmation
  time: the row is delivered and \<open>confirmed_at\<close> is \<open>None\<close> for good, since later completions
  return it unchanged.
\<close>

theorem zendesk_delivered_without_confirmation:
  assumes row: "dget t (strip c, strip m) = Some d" "slower (zd_status d) \<noteq> ''delivered''"
    and spelling: "slower status = ''delivered''" "status \<noteq> ''delivered''"
    and first: "complete_account_zendesk_comment_delivery c m status cid fc at t = (r, t')"
  shows "\<exists>d'. dget t' (strip c, strip m) = Some d' \<and> slower (zd_status d') = ''delivered'' \<and>
              zd_confirmed_at d' = None \<and>
              (\<forall>cid' fc' at'. complete_account_zendesk_comment_delivery c m ''delivered'' cid' fc' at' t'
                                = (Inr (Some d'), t'))"
  using first row spelling
  by (auto simp: complete_account_zendesk_comment_delivery_def Let_def dget_dset)

theorem zendesk_delivered_without_confirmation_witness:
  "\<exists>d'. dget (snd (complete_account_zendesk_comment_delivery ''C1'' ''m1'' ''Delivered'' None None ''t2''
                (sample_zendesk_outbox [Claim (''C1'', ''m1'') ''t1'']))) (strip ''C1'', strip ''m1'') = Some d' \<and>
        slower (zd_status d') = ''delivered'' \<and> zd_confirmed_at d' = None \<and>
        (\<forall>cid' fc' at'. complete_account_zendesk_comment_delivery ''C1'' ''m1'' ''delivered'' cid' fc' at'
            (snd (complete_account_zendesk_comment_delivery ''C1'' ''m1'' ''Delivered'' None None ''t2''
                (sample_zendesk_outbox [Claim (''C1'', ''m1'') ''t1'']))) =
            (Inr (Some d'), snd (complete_account_zendesk_comment_delivery ''C1'' ''m1'' ''Delivered'' None None ''t2''
                (sample_zendesk_outbox [Claim (''C1'', ''m1'') ''t1'']))))"
proof (rule zendesk_delivered_without_confirmation)
  let ?t = "sample_zendesk_outbox [Claim (''C1'', ''m1'') ''t1'']"
  show "dget ?t (strip ''C1'', strip ''m1'') = Some (the (dget ?t (''C1'', ''m1'')))" by code_simp
  show "slower (zd_status (the (dget ?t (''C1'', ''m1'')))) \<noteq> ''delivered''" by code_simp
  show "slower ''Delivered'' = ''delivered''" by code_simp
  show "''Delivered'' \<noteq> ''delivered''" by simp
qed (rule prod.collapse [symmetric])

end
