(* ===== verification/Slack_Outbox.thy ===== *)
theory Slack_Outbox
  imports Outbox_Interface Json_Values
begin

text \<open>
  The three other outboxes of \<open>InMemoryTicketRepository\<close>, with the contract of
  \<open>Outbox_Interface\<close>: Slack handoff events (\<open>_account_slack_deliveries\<close>), classification
  e-mails (\<open>_account_automation_classification_emails\<close>) and engineer Slack events
  (\<open>_engineer_slack_events\<close>), and the event that \<open>services/account_slack_n8n.py\<close> builds
  for a published reply.
\<close>

section \<open>Slack handoff events\<close>

text \<open>The event, without its two constant fields (the schema version and the event type).\<close>

record slack_event =
  se_event_id :: string
  se_account_case_id :: string
  se_message_id :: string
  se_reply_intent :: string
  se_case_type :: string
  se_case_title :: string
  se_zendesk_ticket_id :: string
  se_zendesk_url :: string
  se_ticket_summary :: string
  se_message_text :: string

definition slack_case_label :: "string \<Rightarrow> string \<Rightarrow> string option" where
  "slack_case_label action intent =
     map_of [((''fraud_account'', ''fraud_handoff_confirmation''), ''Fraud Account''),
             ((''account_suspension'', ''account_suspension_handoff_and_close''), ''Account Suspension'')]
       (action, intent)"

definition provided_text :: "jdict \<Rightarrow> string" where
  "provided_text collected =
     intersperse ''; '' (map (\<lambda>(k, v). k @ ''='' @ py_str v)
       (filter (\<lambda>(k, v). truthy v) (sort_key fst collected)))"

text \<open>No event for an action and intent without a label; a labelled one needs its identifiers.\<close>

definition build_account_slack_event ::
  "jdict \<Rightarrow> string \<Rightarrow> string \<Rightarrow> py_error + slack_event option" where
  "build_account_slack_event account_case message_id reply_intent =
     (let normalized_intent = slower reply_intent;
          execution_action = jlower (jor (jor (jget account_case ''execution_action'')
              (jget account_case ''route'')) (jget account_case ''subcategory''))
      in case slack_case_label execution_action normalized_intent of
           None \<Rightarrow> Inr None
         | Some case_label \<Rightarrow>
             let account_case_id = jstrip (jget account_case ''account_case_id'');
                 normalized_message_id = strip message_id;
                 zendesk_ticket_id = jstrip (jget account_case ''zendesk_ticket_id'');
                 title = join_ws (jstr (jget account_case ''title''));
                 summary = or_else (join_ws (jstr (jget account_case ''question''))) title
             in if account_case_id = [] \<or> normalized_message_id = [] \<or> zendesk_ticket_id = [] \<or> title = []
                then Inl (ValueError ''Slack handoff event requires case, message, Zendesk ticket, and title'')
                else
                  let event_id = ''account-automation-slack:'' @ account_case_id @ '':'' @ normalized_message_id;
                      zendesk_url = ''https://agoraio.zendesk.com/agent/tickets/'' @ quote zendesk_ticket_id;
                      provided = provided_text (jdict (jget account_case ''collected_fields''));
                      missing = jlist (jget account_case ''missing_fields'');
                      lines = [''['' @ case_label @ ''] '' @ title, ''zendesk: '' @ zendesk_url, summary] @
                        (if provided = [] then [] else [''Provided: '' @ provided]) @
                        (if missing = [] then []
                         else [''Missing: '' @ intersperse '', '' (map py_str missing)])
                  in Inr (Some
                       \<lparr> se_event_id = event_id, se_account_case_id = account_case_id,
                         se_message_id = normalized_message_id, se_reply_intent = normalized_intent,
                         se_case_type = case_label, se_case_title = title,
                         se_zendesk_ticket_id = zendesk_ticket_id, se_zendesk_url = zendesk_url,
                         se_ticket_summary = summary,
                         se_message_text = intersperse [CHR 10] lines \<rparr>))"

record slack_delivery =
  sd_event_id :: string
  sd_account_case_id :: string
  sd_message_id :: string
  sd_reply_intent :: string
  sd_payload :: slack_event
  sd_status :: string
  sd_failure_code :: "string option"
  sd_confirmed_at :: "string option"
  sd_created_at :: string
  sd_updated_at :: string

type_synonym slack_outbox = "(string, slack_delivery) dict"

text \<open>The row \<open>publish_account_reply\<close> adds for a new event: it waits for the Zendesk comment.\<close>

definition new_slack_delivery :: "slack_event \<Rightarrow> string \<Rightarrow> string \<Rightarrow> string \<Rightarrow> slack_delivery" where
  "new_slack_delivery e account_case_id message_id published_at =
     \<lparr> sd_event_id = se_event_id e, sd_account_case_id = account_case_id,
       sd_message_id = message_id, sd_reply_intent = se_reply_intent e, sd_payload = e,
       sd_status = ''waiting_zendesk'', sd_failure_code = None, sd_confirmed_at = None,
       sd_created_at = published_at, sd_updated_at = published_at \<rparr>"

definition list_account_slack_deliveries :: "string list \<Rightarrow> int \<Rightarrow> slack_outbox \<Rightarrow> slack_delivery list" where
  "list_account_slack_deliveries statuses limit t =
     (let allowed = filter (\<lambda>x. x \<noteq> []) (map slower statuses)
      in take_limit 500 limit
           (sort_key (\<lambda>r. (sd_created_at r, sd_event_id r))
             (filter (\<lambda>r. slower (sd_status r) \<in> set allowed) (dvalues t))))"

definition claim_account_slack_delivery ::
  "string \<Rightarrow> string \<Rightarrow> (slack_outbox, (slack_delivery \<times> bool) option) op" where
  "claim_account_slack_delivery event_id claimed_at t =
     (case dget t (strip event_id) of
        None \<Rightarrow> (Inr None, t)
      | Some delivery \<Rightarrow>
          let claimed = (slower (sd_status delivery) = ''queued'');
              delivery' = (if claimed
                           then delivery\<lparr>sd_status := ''pending'', sd_updated_at := claimed_at\<rparr>
                           else delivery)
          in (Inr (Some (delivery', claimed)), dset (strip event_id) delivery' t))"

definition complete_account_slack_delivery ::
  "string \<Rightarrow> string \<Rightarrow> string option \<Rightarrow> string \<Rightarrow> (slack_outbox, slack_delivery option) op" where
  "complete_account_slack_delivery event_id status failure_code completed_at t =
     (let normalized_status = slower status
      in if normalized_status \<notin> {''pending'', ''delivered'', ''failed'', ''outcome_unknown''}
         then (Inl (ValueError ''invalid Account Slack delivery status''), t)
         else case dget t (strip event_id) of
             None \<Rightarrow> (Inr None, t)
           | Some delivery \<Rightarrow>
               if slower (sd_status delivery) = ''delivered'' then (Inr (Some delivery), t)
               else let delivery' = delivery\<lparr>
                          sd_status := normalized_status,
                          sd_failure_code := or_none (ostrip failure_code),
                          sd_confirmed_at :=
                            (if normalized_status = ''delivered'' then Some completed_at else None),
                          sd_updated_at := completed_at\<rparr>
                    in (Inr (Some delivery'), dset (strip event_id) delivery' t))"

definition requeue_account_slack_delivery ::
  "string \<Rightarrow> string \<Rightarrow> (slack_outbox, slack_delivery option) op" where
  "requeue_account_slack_delivery event_id requeued_at t =
     (case dget t (strip event_id) of
        None \<Rightarrow> (Inr None, t)
      | Some delivery \<Rightarrow>
          let delivery' = (if slower (sd_status delivery) \<in> {''pending'', ''outcome_unknown''}
                           then delivery\<lparr>sd_status := ''queued'', sd_failure_code := None,
                                         sd_updated_at := requeued_at\<rparr>
                           else delivery)
          in (Inr (Some delivery'), dset (strip event_id) delivery' t))"

section \<open>Classification e-mails\<close>

record classification_email =
  ce_account_case_id :: string
  ce_processing_profile :: string
  ce_zendesk_ticket_id :: "string option"
  ce_zendesk_ticket_url :: "string option"
  ce_question :: string
  ce_classification_path :: string
  ce_recipient :: string
  ce_subject :: string
  ce_body :: string
  ce_status :: string
  ce_failure_code :: "string option"
  ce_confirmed_at :: "string option"
  ce_created_at :: string
  ce_updated_at :: string

type_synonym email_outbox = "(string, classification_email) dict"

definition list_account_automation_classification_emails ::
  "string list \<Rightarrow> int \<Rightarrow> email_outbox \<Rightarrow> classification_email list" where
  "list_account_automation_classification_emails statuses limit t =
     (let allowed = filter (\<lambda>x. x \<noteq> []) (map slower statuses)
      in take_limit 500 limit
           (sort_key (\<lambda>r. (ce_created_at r, ce_account_case_id r))
             (filter (\<lambda>r. slower (ce_status r) \<in> set allowed) (dvalues t))))"

definition claim_account_automation_classification_email ::
  "string \<Rightarrow> string \<Rightarrow> (email_outbox, (classification_email \<times> bool) option) op" where
  "claim_account_automation_classification_email account_case_id claimed_at t =
     (let normalized_id = strip account_case_id
      in case dget t normalized_id of
           None \<Rightarrow> (Inr None, t)
         | Some delivery \<Rightarrow>
             let claimed = (slower (ce_status delivery) = ''queued'');
                 delivery' = (if claimed
                              then delivery\<lparr>ce_status := ''pending'', ce_updated_at := claimed_at\<rparr>
                              else delivery)
             in (Inr (Some (delivery', claimed)), dset normalized_id delivery' t))"

definition complete_account_automation_classification_email ::
  "string \<Rightarrow> string \<Rightarrow> string option \<Rightarrow> string \<Rightarrow> (email_outbox, classification_email option) op" where
  "complete_account_automation_classification_email account_case_id status failure_code completed_at t =
     (let normalized_status = slower status
      in if normalized_status \<notin> {''delivered'', ''failed'', ''outcome_unknown''}
         then (Inl (ValueError ''invalid Automation classification email status''), t)
         else case dget t (strip account_case_id) of
             None \<Rightarrow> (Inr None, t)
           | Some delivery \<Rightarrow>
               if slower (ce_status delivery) = ''delivered'' then (Inr (Some delivery), t)
               else let delivery' = delivery\<lparr>
                          ce_status := normalized_status,
                          ce_failure_code := or_none (ostrip failure_code),
                          ce_confirmed_at :=
                            (if normalized_status = ''delivered'' then Some completed_at else None),
                          ce_updated_at := completed_at\<rparr>
                    in (Inr (Some delivery'), dset (strip account_case_id) delivery' t))"

text \<open>The store in \<open>save_billing_ticket\<close>: \<open>setdefault\<close>, so a case is announced once.\<close>

definition enqueue_classification_email :: "classification_email \<Rightarrow> email_outbox \<Rightarrow> email_outbox" where
  "enqueue_classification_email e t = setdefault (ce_account_case_id e) e t"

section \<open>Engineer Slack events\<close>

record engineer_slack_event =
  ee_event_id :: string
  ee_engineer_case_id :: string
  ee_event_type :: string
  ee_payload :: jdict
  ee_status :: string
  ee_failure_code :: "string option"
  ee_slack_channel_id :: "string option"
  ee_slack_message_ts :: "string option"
  ee_slack_thread_ts :: "string option"
  ee_confirmed_at :: "string option"
  ee_created_at :: string
  ee_updated_at :: string

type_synonym engineer_outbox = "(string, engineer_slack_event) dict"

definition new_engineer_slack_event_record :: "jdict \<Rightarrow> string \<Rightarrow> py_error + engineer_slack_event" where
  "new_engineer_slack_event_record event created_at =
     (let event_id = jstrip (jget event ''event_id'');
          engineer_case_id = jstrip (jget event ''engineer_case_id'');
          event_type = jstrip (jget event ''event_type'')
      in if event_id = [] \<or> engineer_case_id = [] \<or> event_type = []
         then Inl (ValueError
           ''Engineer Slack event requires event_id, engineer_case_id, and event_type'')
         else Inr \<lparr> ee_event_id = event_id, ee_engineer_case_id = engineer_case_id,
                    ee_event_type = event_type, ee_payload = event, ee_status = ''queued'',
                    ee_failure_code = None, ee_slack_channel_id = None, ee_slack_message_ts = None,
                    ee_slack_thread_ts = None, ee_confirmed_at = None,
                    ee_created_at = created_at, ee_updated_at = created_at \<rparr>)"

text \<open>A new event, and \<open>_engineer_slack_events.setdefault(record["event_id"], record)\<close>.\<close>

definition enqueue_engineer_slack_event ::
  "jdict \<Rightarrow> string \<Rightarrow> (engineer_outbox, engineer_slack_event) op" where
  "enqueue_engineer_slack_event event created_at t =
     (case new_engineer_slack_event_record event created_at of
        Inl e \<Rightarrow> (Inl e, t)
      | Inr r \<Rightarrow> (Inr r, setdefault (ee_event_id r) r t))"

definition list_engineer_slack_events :: "string list \<Rightarrow> int \<Rightarrow> engineer_outbox \<Rightarrow> engineer_slack_event list" where
  "list_engineer_slack_events statuses limit t =
     (let allowed = filter (\<lambda>x. x \<noteq> []) (map slower statuses)
      in take_limit 500 limit
           (sort_key (\<lambda>r. (ee_created_at r, ee_event_id r))
             (filter (\<lambda>r. slower (ee_status r) \<in> set allowed) (dvalues t))))"

text \<open>The history of one case, and whether the cap cut it.\<close>

definition list_engineer_slack_events_for_case ::
  "string \<Rightarrow> int \<Rightarrow> engineer_outbox \<Rightarrow> engineer_slack_event list \<times> bool" where
  "list_engineer_slack_events_for_case engineer_case_id limit t =
     (let normalized_id = strip engineer_case_id;
          cap = nat (max 1 limit);
          rows = sort_key (\<lambda>r. (ee_created_at r, ee_event_id r))
            (filter (\<lambda>r. strip (ee_engineer_case_id r) = normalized_id) (dvalues t))
      in (take cap rows, cap < length rows))"

definition claim_engineer_slack_event ::
  "string \<Rightarrow> string \<Rightarrow> (engineer_outbox, (engineer_slack_event \<times> bool) option) op" where
  "claim_engineer_slack_event event_id claimed_at t =
     (case dget t (strip event_id) of
        None \<Rightarrow> (Inr None, t)
      | Some event \<Rightarrow>
          let claimed = (slower (ee_status event) = ''queued'');
              event' = (if claimed
                        then event\<lparr>ee_status := ''pending'', ee_updated_at := claimed_at\<rparr>
                        else event)
          in (Inr (Some (event', claimed)), dset (strip event_id) event' t))"

text \<open>The three remote references are channel, message and thread.\<close>

type_synonym remote_refs = "string option \<times> string option \<times> string option"

definition complete_engineer_slack_event ::
  "string \<Rightarrow> string \<Rightarrow> string option \<Rightarrow> string \<Rightarrow> remote_refs
    \<Rightarrow> (engineer_outbox, engineer_slack_event option) op" where
  "complete_engineer_slack_event event_id status failure_code completed_at refs t =
     (let normalized_status = slower status;
          channel = ostrip (fst refs);
          message = ostrip (fst (snd refs));
          thread = ostrip (snd (snd refs))
      in if normalized_status \<notin> {''pending'', ''delivered'', ''failed'', ''outcome_unknown''}
         then (Inl (ValueError ''invalid Engineer Slack event status''), t)
         else if normalized_status = ''delivered'' \<and> (channel = [] \<or> message = [] \<or> thread = [])
         then (Inl (ValueError ''delivered Engineer Slack event requires Slack remote references''), t)
         else case dget t (strip event_id) of
             None \<Rightarrow> (Inr None, t)
           | Some event \<Rightarrow>
               if slower (ee_status event) = ''delivered'' then (Inr (Some event), t)
               else let delivered = (normalized_status = ''delivered'');
                        event' = event\<lparr>
                          ee_status := normalized_status,
                          ee_failure_code := or_none (ostrip failure_code),
                          ee_slack_channel_id :=
                            (if delivered then Some channel else ee_slack_channel_id event),
                          ee_slack_message_ts :=
                            (if delivered then Some message else ee_slack_message_ts event),
                          ee_slack_thread_ts :=
                            (if delivered then Some thread else ee_slack_thread_ts event),
                          ee_confirmed_at := (if delivered then Some completed_at else None),
                          ee_updated_at := completed_at\<rparr>
                    in (Inr (Some event'), dset (strip event_id) event' t))"

section \<open>The tables as outboxes\<close>

text \<open>
  Rows enter the Slack table waiting for the Zendesk comment (\<open>publish_account_reply\<close>), and are
  queued when the comment is confirmed (\<open>record_account_zendesk_internal_comment_result\<close>).
\<close>

definition add_slack_delivery :: "slack_event \<Rightarrow> string \<Rightarrow> string \<Rightarrow> string \<Rightarrow> slack_outbox \<Rightarrow> slack_outbox" where
  "add_slack_delivery e account_case_id message_id published_at t =
     (case dget t (se_event_id e) of
        None \<Rightarrow> dset (se_event_id e) (new_slack_delivery e account_case_id message_id published_at) t
      | Some _ \<Rightarrow> t)"

definition release_slack_deliveries :: "string \<Rightarrow> string \<Rightarrow> string \<Rightarrow> slack_outbox \<Rightarrow> slack_outbox" where
  "release_slack_deliveries account_case_id message_id recorded_at t =
     dupdate_where (\<lambda>r. sd_account_case_id r = account_case_id \<and> sd_message_id r = message_id \<and>
                         sd_status r = ''waiting_zendesk'')
       (\<lambda>r. r\<lparr>sd_status := ''queued'', sd_updated_at := recorded_at\<rparr>) t"

datatype slack_feed =
    SAdd slack_event string string string
  | SRelease string string string
  | SRequeue string string

fun slack_feed_step :: "slack_feed \<Rightarrow> slack_outbox \<Rightarrow> slack_outbox" where
  "slack_feed_step (SAdd e c m at) t = add_slack_delivery e c m at t"
| "slack_feed_step (SRelease c m at) t = release_slack_deliveries c m at t"
| "slack_feed_step (SRequeue i at) t = snd (requeue_account_slack_delivery i at t)"

fun slack_feeds :: "slack_feed \<Rightarrow> string \<Rightarrow> bool" where
  "slack_feeds (SAdd e c m at) k \<longleftrightarrow> k = se_event_id e"
| "slack_feeds (SRelease c m at) k \<longleftrightarrow> True"
| "slack_feeds (SRequeue i at) k \<longleftrightarrow> k = strip i"

definition won_row :: "(py_error + ('r \<times> bool) option) \<times> 's \<Rightarrow> bool \<times> 's" where
  "won_row res = ((case fst res of Inr (Some (_, claimed)) \<Rightarrow> claimed | _ \<Rightarrow> False), snd res)"

abbreviation slack_status :: "slack_outbox \<Rightarrow> string \<Rightarrow> string option" where
  "slack_status \<equiv> table_status sd_status"

definition slack_claim_step :: "string \<Rightarrow> string \<Rightarrow> slack_outbox \<Rightarrow> bool \<times> slack_outbox" where
  "slack_claim_step i at t = won_row (claim_account_slack_delivery i at t)"

definition slack_complete_step ::
  "string \<Rightarrow> string \<times> string option \<times> string \<Rightarrow> slack_outbox \<Rightarrow> slack_outbox" where
  "slack_complete_step i c t =
     snd (complete_account_slack_delivery i (fst c) (fst (snd c)) (snd (snd c)) t)"

lemma slack_claim:
  "fst (slack_claim_step i at t) \<longleftrightarrow> slack_status t (strip i) = Some ''queued''"
  "slack_status (snd (slack_claim_step i at t)) k =
     (if k = strip i \<and> slack_status t k = Some ''queued'' then Some ''pending'' else slack_status t k)"
  by (simp_all add: slack_claim_step_def won_row_def claim_account_slack_delivery_def table_effect
      split: option.split)

lemma slack_complete:
  "slack_status (slack_complete_step i c t) k =
     (if k = strip i \<and> slack_status t k \<notin> {None, Some ''delivered''} \<and>
         slower (fst c) \<in> {''pending'', ''delivered'', ''failed'', ''outcome_unknown''}
      then Some (slower (fst c)) else slack_status t k)"
  by (simp add: slack_complete_step_def complete_account_slack_delivery_def table_effect
      split: option.split)

lemma slack_requeue:
  "slack_status (snd (requeue_account_slack_delivery i at t)) k =
     (if k = strip i \<and> slack_status t k \<in> {Some ''pending'', Some ''outcome_unknown''}
      then Some ''queued'' else slack_status t k)"
  by (simp add: requeue_account_slack_delivery_def table_effect split: option.split)

lemma slack_add:
  "slack_status (add_slack_delivery e c m at t) k =
     (if k = se_event_id e \<and> slack_status t k = None then Some ''waiting_zendesk''
      else slack_status t k)"
  by (auto simp: add_slack_delivery_def new_slack_delivery_def table_effect split: option.split)

lemma slack_release:
  "slack_status (release_slack_deliveries c m at t) k = slack_status t k \<or>
   slack_status t k = Some ''waiting_zendesk'' \<and>
   slack_status (release_slack_deliveries c m at t) k = Some ''queued''"
  by (cases "dget t k")
     (auto simp: release_slack_deliveries_def table_status_def dget_dupdate_where)

interpretation slack_outbox: outbox
  slack_status strip slack_claim_step slack_complete_step slack_feed_step slack_feeds
proof (unfold_locales, goal_cases)
  case (6 f k s)
  then show ?case by (cases f) (auto simp: slack_add slack_requeue)
next
  case (7 s k f)
  then show ?case
    using slack_release [of _ _ _ s k] by (cases f) (auto simp: slack_add slack_requeue)
qed (auto simp: slack_claim slack_complete split: if_splits)

definition email_claim_step :: "string \<Rightarrow> string \<Rightarrow> email_outbox \<Rightarrow> bool \<times> email_outbox" where
  "email_claim_step i at t = won_row (claim_account_automation_classification_email i at t)"

definition email_complete_step ::
  "string \<Rightarrow> string \<times> string option \<times> string \<Rightarrow> email_outbox \<Rightarrow> email_outbox" where
  "email_complete_step i c t =
     snd (complete_account_automation_classification_email i (fst c) (fst (snd c)) (snd (snd c)) t)"

abbreviation email_status :: "email_outbox \<Rightarrow> string \<Rightarrow> string option" where
  "email_status \<equiv> table_status ce_status"

lemma email_claim:
  "fst (email_claim_step i at t) \<longleftrightarrow> email_status t (strip i) = Some ''queued''"
  "email_status (snd (email_claim_step i at t)) k =
     (if k = strip i \<and> email_status t k = Some ''queued'' then Some ''pending'' else email_status t k)"
  by (simp_all add: email_claim_step_def won_row_def claim_account_automation_classification_email_def
      table_effect split: option.split)

lemma email_complete:
  "email_status (email_complete_step i c t) k =
     (if k = strip i \<and> email_status t k \<notin> {None, Some ''delivered''} \<and>
         slower (fst c) \<in> {''delivered'', ''failed'', ''outcome_unknown''}
      then Some (slower (fst c)) else email_status t k)"
  by (simp add: email_complete_step_def complete_account_automation_classification_email_def
      table_effect split: option.split)

interpretation email_outbox: outbox
  email_status strip email_claim_step email_complete_step enqueue_classification_email
  "\<lambda>e k. k = ce_account_case_id e"
  by unfold_locales
     (auto simp: email_claim email_complete enqueue_classification_email_def table_status_setdefault
       split: if_splits)

definition engineer_claim_step :: "string \<Rightarrow> string \<Rightarrow> engineer_outbox \<Rightarrow> bool \<times> engineer_outbox" where
  "engineer_claim_step i at t = won_row (claim_engineer_slack_event i at t)"

definition engineer_complete_step ::
  "string \<Rightarrow> string \<times> string option \<times> string \<times> remote_refs \<Rightarrow> engineer_outbox \<Rightarrow> engineer_outbox" where
  "engineer_complete_step i c t =
     snd (complete_engineer_slack_event i (fst c) (fst (snd c)) (fst (snd (snd c)))
            (snd (snd (snd c))) t)"

abbreviation engineer_status :: "engineer_outbox \<Rightarrow> string \<Rightarrow> string option" where
  "engineer_status \<equiv> table_status ee_status"

lemma engineer_claim:
  "fst (engineer_claim_step i at t) \<longleftrightarrow> engineer_status t (strip i) = Some ''queued''"
  "engineer_status (snd (engineer_claim_step i at t)) k =
     (if k = strip i \<and> engineer_status t k = Some ''queued'' then Some ''pending''
      else engineer_status t k)"
  by (simp_all add: engineer_claim_step_def won_row_def claim_engineer_slack_event_def
      table_effect split: option.split)

lemma engineer_complete:
  "engineer_status (engineer_complete_step i c t) k = engineer_status t k \<or>
   k = strip i \<and> engineer_status t k \<notin> {None, Some ''delivered''} \<and>
   engineer_status (engineer_complete_step i c t) k = Some (slower (fst c)) \<and>
   slower (fst c) \<in> {''pending'', ''delivered'', ''failed'', ''outcome_unknown''}"
  unfolding engineer_complete_step_def complete_engineer_slack_event_def Let_def
  by (cases "dget t (strip i)") (simp_all add: table_status_def dget_dset)

definition engineer_feed_step :: "jdict \<times> string \<Rightarrow> engineer_outbox \<Rightarrow> engineer_outbox" where
  "engineer_feed_step f t = snd (enqueue_engineer_slack_event (fst f) (snd f) t)"

definition engineer_feeds :: "jdict \<times> string \<Rightarrow> string \<Rightarrow> bool" where
  "engineer_feeds f k \<longleftrightarrow> k = jstrip (jget (fst f) ''event_id'')"

lemma engineer_feed:
  "engineer_status (engineer_feed_step f t) k = engineer_status t k \<or>
   engineer_feeds f k \<and> engineer_status t k = None"
  by (simp add: engineer_feed_step_def engineer_feeds_def enqueue_engineer_slack_event_def
      new_engineer_slack_event_record_def Let_def table_status_setdefault)

interpretation engineer_outbox: outbox
  engineer_status strip engineer_claim_step engineer_complete_step engineer_feed_step engineer_feeds
proof (unfold_locales, goal_cases)
  case (3 k r c s)
  then show ?case using engineer_complete [of r c s k] by auto
next
  case (4 r c s k)
  then show ?case using engineer_complete [of r c s k] by auto
next
  case (5 s k r c)
  then show ?case using engineer_complete [of r c s k] by auto
next
  case (6 f k s)
  then show ?case using engineer_feed [of f s k] by auto
next
  case (7 s k f)
  then show ?case using engineer_feed [of f s k] by auto
qed (auto simp: engineer_claim)

section \<open>What a delivered row records\<close>

definition slack_run ::
  "(string, string \<times> string option \<times> string, slack_feed) outbox_op list \<Rightarrow> slack_outbox
    \<Rightarrow> string list \<times> slack_outbox" where
  "slack_run = outbox_run slack_claim_step slack_complete_step slack_feed_step"

definition email_run ::
  "(string, string \<times> string option \<times> string, classification_email) outbox_op list \<Rightarrow> email_outbox
    \<Rightarrow> string list \<times> email_outbox" where
  "email_run = outbox_run email_claim_step email_complete_step enqueue_classification_email"

definition engineer_run ::
  "(string, string \<times> string option \<times> string \<times> remote_refs, jdict \<times> string) outbox_op list
    \<Rightarrow> engineer_outbox \<Rightarrow> string list \<times> engineer_outbox" where
  "engineer_run = outbox_run engineer_claim_step engineer_complete_step engineer_feed_step"

definition slack_row_ok :: "slack_delivery \<Rightarrow> bool" where
  "slack_row_ok r \<longleftrightarrow> (sd_confirmed_at r \<noteq> None \<longleftrightarrow> sd_status r = ''delivered'')"

text \<open>A delivered event names the Slack message it became; no other event has a confirmation time.\<close>

definition engineer_row_ok :: "engineer_slack_event \<Rightarrow> bool" where
  "engineer_row_ok r \<longleftrightarrow>
     (ee_confirmed_at r \<noteq> None \<longleftrightarrow> ee_status r = ''delivered'') \<and>
     (ee_status r = ''delivered'' \<longrightarrow>
        ostr (ee_slack_channel_id r) \<noteq> [] \<and> ostr (ee_slack_message_ts r) \<noteq> [] \<and>
        ostr (ee_slack_thread_ts r) \<noteq> [])"

lemma slack_steps_ok:
  "rows_ok slack_row_ok t \<Longrightarrow> rows_ok slack_row_ok (snd (slack_claim_step i at t))"
  "rows_ok slack_row_ok t \<Longrightarrow> rows_ok slack_row_ok (slack_complete_step i c t)"
  "rows_ok slack_row_ok t \<Longrightarrow> rows_ok slack_row_ok (slack_feed_step f t)"
proof -
  assume ok: "rows_ok slack_row_ok t"
  show "rows_ok slack_row_ok (snd (slack_claim_step i at t))"
    using ok rows_ok_dget [OF ok, of "strip i"]
    by (auto simp: slack_claim_step_def won_row_def claim_account_slack_delivery_def Let_def
        slack_row_ok_def split: option.split intro!: rows_ok_dset)
  show "rows_ok slack_row_ok (slack_complete_step i c t)"
    using ok
    by (auto simp: slack_complete_step_def complete_account_slack_delivery_def Let_def
        slack_row_ok_def split: option.split intro!: rows_ok_dset)
  show "rows_ok slack_row_ok (slack_feed_step f t)"
  proof (cases f)
    case (SAdd e c m at)
    with ok show ?thesis
      by (auto simp: add_slack_delivery_def new_slack_delivery_def slack_row_ok_def
          split: option.split intro!: rows_ok_dset)
  next
    case (SRelease c m at)
    with ok show ?thesis
      by (auto simp: release_slack_deliveries_def slack_row_ok_def intro!: rows_ok_update_where)
  next
    case (SRequeue j at)
    with ok rows_ok_dget [OF ok, of "strip j"] show ?thesis
      by (auto simp: requeue_account_slack_delivery_def Let_def slack_row_ok_def
          split: option.split intro!: rows_ok_dset)
  qed
qed

lemma engineer_steps_ok:
  "rows_ok engineer_row_ok t \<Longrightarrow> rows_ok engineer_row_ok (snd (engineer_claim_step i at t))"
  "rows_ok engineer_row_ok t \<Longrightarrow> rows_ok engineer_row_ok (engineer_complete_step i c t)"
  "rows_ok engineer_row_ok t \<Longrightarrow> rows_ok engineer_row_ok (engineer_feed_step f t)"
proof -
  assume ok: "rows_ok engineer_row_ok t"
  show "rows_ok engineer_row_ok (snd (engineer_claim_step i at t))"
    using ok rows_ok_dget [OF ok, of "strip i"]
    by (auto simp: engineer_claim_step_def won_row_def claim_engineer_slack_event_def Let_def
        engineer_row_ok_def split: option.split intro!: rows_ok_dset)
  show "rows_ok engineer_row_ok (engineer_complete_step i c t)"
    using ok
    by (auto simp: engineer_complete_step_def complete_engineer_slack_event_def Let_def
        engineer_row_ok_def split: option.split intro!: rows_ok_dset)
  show "rows_ok engineer_row_ok (engineer_feed_step f t)"
    using ok
    by (auto simp: engineer_feed_step_def enqueue_engineer_slack_event_def Let_def
        new_engineer_slack_event_record_def engineer_row_ok_def intro!: rows_ok_setdefault)
qed

section \<open>Properties\<close>

text \<open>
  In the Slack handoff table, whatever operations ran on it since it was empty, a row has a
  confirmation time exactly when its status is \<open>delivered\<close>.
\<close>

theorem slack_confirmed_iff_delivered:
  "rows_ok slack_row_ok (snd (slack_run ops []))"
  unfolding slack_run_def
  by (rule outbox_run_invariant [where I = "rows_ok slack_row_ok"]) (simp_all add: slack_steps_ok)

text \<open>
  In the engineer Slack table, whatever operations ran on it since it was empty, a row has a
  confirmation time exactly when it is \<open>delivered\<close>, and a delivered row names the channel, the
  message and the thread it became, which is what the thread binding of a case is read from.
\<close>

theorem engineer_delivered_names_message:
  "rows_ok engineer_row_ok (snd (engineer_run ops []))"
  unfolding engineer_run_def
  by (rule outbox_run_invariant [where I = "rows_ok engineer_row_ok"]) (simp_all add: engineer_steps_ok)

text \<open>
  A classification e-mail, once delivered, stays delivered and is never claimed again, however
  often its case is saved (which enqueues with \<open>setdefault\<close>), claimed or completed.
\<close>

theorem email_sent_once:
  assumes "email_status t k = Some ''delivered''"
  shows "email_status (snd (email_run ops t)) k = Some ''delivered'' \<and>
         filter (\<lambda>r. strip r = k) (fst (email_run ops t)) = []"
  using email_outbox.delivered_forever [OF assms, of ops] by (simp add: email_run_def)

definition sample_classification_email :: classification_email where
  "sample_classification_email =
     \<lparr> ce_account_case_id = ''C1'', ce_processing_profile = ''production'',
       ce_zendesk_ticket_id = Some ''7'', ce_zendesk_ticket_url = None, ce_question = ''q'',
       ce_classification_path = ''Agora'', ce_recipient = ''r'', ce_subject = ''s'', ce_body = ''b'',
       ce_status = ''queued'', ce_failure_code = None, ce_confirmed_at = None,
       ce_created_at = ''t0'', ce_updated_at = ''t0'' \<rparr>"

theorem email_sent_once_witness:
  "let t = snd (email_run [Feed sample_classification_email, Claim ''C1'' ''t1'',
                           Complete ''C1'' (''Delivered '', None, ''t2'')] []);
       ops = [Feed sample_classification_email, Claim '' C1'' ''t3'']
   in email_status (snd (email_run ops t)) ''C1'' = Some ''delivered'' \<and>
      filter (\<lambda>r. strip r = ''C1'') (fst (email_run ops t)) = []"
  unfolding Let_def by (rule email_sent_once) code_simp

end
