(* ===== verification/Zendesk_Comments.thy ===== *)
theory Zendesk_Comments
  imports Json_Values "HOL-Library.Multiset"
begin

text \<open>
  Snapshots of the comments of a Zendesk ticket, as \<open>services/account_zendesk_comments.py\<close>
  normalises them: attachments, comments, the order and the initial comment, and the two
  revisions, digests of a canonical JSON text. The digest (SHA-256) is the parameter \<open>sha\<close>.

  A malformed snapshot raises \<open>ZendeskCommentSnapshotError\<close>, here \<open>SnapshotError\<close> with its code.
  A field that the code reads as a dictionary or a list holds JSON values; numbers are integers.
\<close>

section \<open>Data\<close>

record zendesk_attachment =
  za_attachment_id :: string
  za_file_name :: string
  za_content_type :: string
  za_size_bytes :: int
  za_inline :: bool
  za_source_comment_id :: string

record zendesk_comment =
  zc_zendesk_comment_id :: string
  zc_is_public :: bool
  zc_is_initial :: bool
  zc_author_id :: "string option"
  zc_author_name :: "string option"
  zc_author_kind :: string
  zc_body :: string
  zc_via_channel :: "string option"
  zc_created_at :: string
  zc_attachments :: "zendesk_attachment list"

record comment_snapshot =
  sn_source_updated_at :: string
  sn_comments :: "zendesk_comment list"
  sn_snapshot_hash :: string
  sn_comments_revision :: string

definition attachment_payload :: "zendesk_attachment \<Rightarrow> jdict" where
  "attachment_payload a =
     [(''attachment_id'', JStr (za_attachment_id a)), (''file_name'', JStr (za_file_name a)),
      (''content_type'', JStr (za_content_type a)), (''size_bytes'', JInt (za_size_bytes a)),
      (''inline'', JBool (za_inline a)), (''source_comment_id'', JStr (za_source_comment_id a))]"

definition author_is_agent :: "json \<Rightarrow> bool option" where
  "author_is_agent kind =
     (if jlower kind = ''agent'' then Some True
      else if jlower kind = ''customer'' then Some False else None)"

definition attachments_payload :: "zendesk_comment \<Rightarrow> json" where
  "attachments_payload c = JList (map (\<lambda>a. JDict (attachment_payload a)) (zc_attachments c))"

definition storage_payload :: "zendesk_comment \<Rightarrow> jdict" where
  "storage_payload c =
     [(''zendesk_comment_id'', JStr (zc_zendesk_comment_id c)), (''is_public'', JBool (zc_is_public c)),
      (''is_initial'', JBool (zc_is_initial c)), (''author_id'', of_opt (zc_author_id c)),
      (''author_name'', of_opt (zc_author_name c)), (''author_kind'', JStr (zc_author_kind c)),
      (''body'', JStr (zc_body c)), (''via_channel'', of_opt (zc_via_channel c)),
      (''created_at'', JStr (zc_created_at c)), (''attachments'', attachments_payload c)]"

definition public_payload :: "zendesk_comment \<Rightarrow> jdict" where
  "public_payload c =
     [(''zendesk_comment_id'', JStr (zc_zendesk_comment_id c)), (''is_public'', JBool (zc_is_public c)),
      (''is_initial'', JBool (zc_is_initial c)), (''author_id'', of_opt (zc_author_id c)),
      (''author_name'', of_opt (zc_author_name c)), (''author_kind'', JStr (zc_author_kind c)),
      (''is_agent'', case author_is_agent (JStr (zc_author_kind c)) of None \<Rightarrow> JNull | Some b \<Rightarrow> JBool b),
      (''body'', JStr (zc_body c)), (''via_channel'', of_opt (zc_via_channel c)),
      (''created_at'', JStr (zc_created_at c)), (''attachments'', attachments_payload c)]"

section \<open>Fields\<close>

abbreviation invalid :: "string \<Rightarrow> py_error" where
  "invalid message \<equiv> SnapshotError ''invalid_snapshot'' message"

definition normalize_text :: "json \<Rightarrow> string \<Rightarrow> nat \<Rightarrow> bool \<Rightarrow> py_error + string" where
  "normalize_text value field max_length required =
     (let text = strip (join_ws (jstr value))
      in if required \<and> text = [] then Inl (invalid (field @ '' is required''))
         else if max_length < length text
         then Inl (invalid (field @ '' must not exceed '' @ show_int (int max_length) @ '' characters''))
         else Inr text)"

text \<open>
  \<open>astimezone\<close> of a time near the ends of the calendar raises \<open>OverflowError\<close>, which the code
  does not catch.
\<close>

definition normalize_timestamp :: "json \<Rightarrow> string \<Rightarrow> py_error + string" where
  "normalize_timestamp value field =
     (let raw = jstrip value
      in if raw = [] then Inl (invalid (field @ '' is required''))
         else case parse_iso raw of
             None \<Rightarrow> Inl (invalid (field @ '' must be an ISO-8601 timestamp''))
           | Some d \<Rightarrow>
               if valid_instant (utc_instant d) then Inr (iso_micros (utc_instant d))
               else Inl (OverflowError ''date value out of range''))"

definition parse_public :: "json \<Rightarrow> bool" where
  "parse_public value =
     (case value of
        JStr s \<Rightarrow>
          if slower s \<in> {''false'', ''0'', ''no'', ''private'', ''internal''} then False
          else if slower s \<in> {''true'', ''1'', ''yes'', ''public''} then True
          else s \<noteq> []
      | _ \<Rightarrow> truthy value)"

definition parse_optional_bool :: "json \<Rightarrow> string \<Rightarrow> py_error + bool option" where
  "parse_optional_bool value field =
     (case value of
        JNull \<Rightarrow> Inr None
      | JBool b \<Rightarrow> Inr (Some b)
      | JStr s \<Rightarrow>
          if slower s \<in> {''true'', ''1'', ''yes''} then Inr (Some True)
          else if slower s \<in> {''false'', ''0'', ''no''} then Inr (Some False)
          else Inl (invalid (field @ '' must be a boolean''))
      | _ \<Rightarrow> Inl (invalid (field @ '' must be a boolean'')))"

section \<open>Attachments\<close>

definition normalize_attachment ::
  "string \<Rightarrow> string list \<Rightarrow> json \<Rightarrow> py_error + zendesk_attachment" where
  "normalize_attachment source seen raw =
     (let item = jdict raw
      in if \<not> is_jdict raw then Inl (invalid ''each attachment must be an object'')
         else sbind (normalize_text (jget_or item ''id'' (jget item ''attachment_id'')) ''attachment id'' 128 True)
           (\<lambda>i. if i \<in> set seen
                then Inl (SnapshotError ''duplicate_attachment_id'' (''duplicate attachment id: '' @ i))
                else sbind (normalize_text (jget_or item ''file_name'' (jget item ''name''))
                              ''attachment file_name'' 255 True)
                  (\<lambda>file_name. sbind (normalize_text (jget_or item ''content_type'' (jget item ''mime_type''))
                              ''attachment content_type'' 160 False)
                  (\<lambda>content_type.
                     case jint (jor (jget_or item ''size_bytes'' (jget_or item ''size'' (JInt 0))) (JInt 0)) of
                       None \<Rightarrow> Inl (invalid ''attachment size_bytes must be an integer'')
                     | Some n \<Rightarrow>
                         if n < 0 then Inl (invalid ''attachment size_bytes must be non-negative'')
                         else if py_str (jget_or item ''source_comment_id'' (JStr source)) \<noteq> source
                         then Inl (invalid ''attachment source comment mismatch'')
                         else sbind (parse_optional_bool (jget_or item ''inline'' (JBool False)) ''attachment inline'')
                           (\<lambda>inl. Inr \<lparr> za_attachment_id = i, za_file_name = file_name,
                              za_content_type = or_else content_type ''application/octet-stream'',
                              za_size_bytes = n, za_inline = (inl = Some True),
                              za_source_comment_id = source \<rparr>)))))"

fun normalize_attachment_list ::
  "string \<Rightarrow> string list \<Rightarrow> json list \<Rightarrow> py_error + zendesk_attachment list" where
  "normalize_attachment_list source seen [] = Inr []"
| "normalize_attachment_list source seen (r # rs) =
     sbind (normalize_attachment source seen r)
       (\<lambda>a. sbind (normalize_attachment_list source (za_attachment_id a # seen) rs) (\<lambda>as. Inr (a # as)))"

definition normalize_attachments :: "json \<Rightarrow> string \<Rightarrow> py_error + zendesk_attachment list" where
  "normalize_attachments raw source =
     (case raw of
        JNull \<Rightarrow> Inr []
      | JList items \<Rightarrow>
          if 100 < length items
          then Inl (invalid ''comment attachments must be an array with at most 100 items'')
          else normalize_attachment_list source [] items
      | _ \<Rightarrow> Inl (invalid ''comment attachments must be an array with at most 100 items''))"

section \<open>Comments\<close>

definition role_kind :: "json \<Rightarrow> string option" where
  "role_kind role =
     (let r = jlower role
      in if r \<in> {''end-user'', ''end_user'', ''customer'', ''requester'', ''user''} then Some ''customer''
         else if r \<in> {''agent'', ''staff'', ''admin'', ''support''} then Some ''agent''
         else if r \<in> {''system'', ''bot'', ''automation''} then Some ''system'' else None)"

definition author_kind :: "json \<Rightarrow> json \<Rightarrow> py_error + string" where
  "author_kind role is_agent =
     sbind (parse_optional_bool is_agent ''author is_agent'')
       (\<lambda>flag.
          case (role_kind role, map_option (\<lambda>b. if b then ''agent'' else ''customer'') flag) of
            (Some r, Some f) \<Rightarrow>
              if r \<noteq> f then Inl (SnapshotError ''author_identity_conflict''
                ''author role conflicts with author is_agent'') else Inr r
          | (Some r, None) \<Rightarrow> Inr r
          | (None, Some f) \<Rightarrow> Inr f
          | (None, None) \<Rightarrow> Inr ''unknown'')"

text \<open>\<open>a if a is not None else b\<close>.\<close>

definition first_present :: "json \<Rightarrow> json \<Rightarrow> json" where
  "first_present a b = (if a = JNull then b else a)"

text \<open>The author's flag and role, from the author or the comment, and the channel.\<close>

definition comment_author :: "jdict \<Rightarrow> jdict" where
  "comment_author item = jdict (jget item ''author'')"

definition comment_is_agent :: "jdict \<Rightarrow> json" where
  "comment_is_agent item =
     (let author = comment_author item
      in first_present (first_present (first_present (jget author ''is_agent'') (jget author ''is_staff''))
           (jget item ''is_agent'')) (jget item ''is_staff''))"

definition comment_role :: "jdict \<Rightarrow> json" where
  "comment_role item =
     (let author = comment_author item
      in first_present (first_present (jget author ''role'') (jget author ''author_kind''))
           (jget item ''author_kind''))"

definition comment_via :: "jdict \<Rightarrow> json" where
  "comment_via item =
     (let via = jget_or item ''via_channel'' (jget_or item ''via'' (JStr []))
      in if is_jdict via then jget (jdict via) ''channel'' else via)"

text \<open>The comment with the id that was found.\<close>

definition normalized_comment :: "jdict \<Rightarrow> string \<Rightarrow> py_error + zendesk_comment" where
  "normalized_comment item i =
     sbind (normalize_text (jget_or (comment_author item) ''id'' (jget item ''author_id'')) ''author id'' 128 False)
       (\<lambda>author_id. sbind (normalize_text (jget_or (comment_author item) ''name'' (jget item ''author_name''))
                             ''author name'' 160 False)
       (\<lambda>author_name. sbind (author_kind (comment_role item) (comment_is_agent item))
       (\<lambda>kind. if 100000 < length (jstrip (jget item ''body''))
            then Inl (invalid ''comment body must not exceed 100000 characters'')
            else sbind (normalize_text (comment_via item) ''via_channel'' 160 False)
       (\<lambda>via_channel. sbind (normalize_timestamp (jget item ''created_at'') ''comment created_at'')
       (\<lambda>created_at. sbind (normalize_attachments (jget item ''attachments'') i)
       (\<lambda>attachments. Inr \<lparr> zc_zendesk_comment_id = i,
            zc_is_public = parse_public (jget_or item ''public'' (jget item ''is_public'')),
            zc_is_initial = False, zc_author_id = or_none author_id, zc_author_name = or_none author_name,
            zc_author_kind = kind, zc_body = jstrip (jget item ''body''), zc_via_channel = or_none via_channel,
            zc_created_at = created_at, zc_attachments = attachments \<rparr>))))))"

definition normalize_comment :: "string list \<Rightarrow> json \<Rightarrow> py_error + zendesk_comment" where
  "normalize_comment seen raw =
     (if \<not> is_jdict raw then Inl (invalid ''each comment must be an object'')
      else sbind (normalize_text (jget_or (jdict raw) ''id'' (jget (jdict raw) ''zendesk_comment_id''))
                    ''comment id'' 128 True)
        (\<lambda>i. if i \<in> set seen
             then Inl (SnapshotError ''duplicate_comment_id'' (''duplicate Zendesk comment id: '' @ i))
             else normalized_comment (jdict raw) i))"

fun normalize_comment_list :: "string list \<Rightarrow> json list \<Rightarrow> py_error + zendesk_comment list" where
  "normalize_comment_list seen [] = Inr []"
| "normalize_comment_list seen (r # rs) =
     sbind (normalize_comment seen r)
       (\<lambda>c. sbind (normalize_comment_list (zc_zendesk_comment_id c # seen) rs) (\<lambda>cs. Inr (c # cs)))"

text \<open>Sorted by time and id; the first comment is the initial one.\<close>

definition comment_key :: "zendesk_comment \<Rightarrow> string \<times> string" where
  "comment_key c = (zc_created_at c, zc_zendesk_comment_id c)"

fun mark_initial :: "zendesk_comment list \<Rightarrow> zendesk_comment list" where
  "mark_initial [] = []"
| "mark_initial (c # cs) = c\<lparr>zc_is_initial := True\<rparr> # cs"

definition ordered_comments :: "zendesk_comment list \<Rightarrow> zendesk_comment list" where
  "ordered_comments cs = mark_initial (sort_key comment_key cs)"

section \<open>Digests\<close>

text \<open>
  \<open>json.dumps(value, ensure_ascii=False, separators=(",", ":"), sort_keys=True)\<close>: only quotation
  marks, backslashes and control characters are escaped.
\<close>

definition json_char :: "char \<Rightarrow> string" where
  "json_char c =
     (let n = (of_char c :: nat)
      in if n = 34 \<or> n = 92 then [CHR 0x5C, c]
         else if n = 8 then [CHR 0x5C, CHR ''b'']
         else if n = 9 then [CHR 0x5C, CHR ''t'']
         else if n = 10 then [CHR 0x5C, CHR ''n'']
         else if n = 12 then [CHR 0x5C, CHR ''f'']
         else if n = 13 then [CHR 0x5C, CHR ''r'']
         else if n < 32 then [CHR 0x5C, CHR ''u'', CHR ''0'', CHR ''0'', hex_digit (n div 16), hex_digit (n mod 16)]
         else [c])"

definition json_str :: "string \<Rightarrow> string" where
  "json_str s = [CHR 0x22] @ concat (map json_char s) @ [CHR 0x22]"

fun canonical_json :: "json \<Rightarrow> string" where
  "canonical_json JNull = ''null''"
| "canonical_json (JBool b) = (if b then ''true'' else ''false'')"
| "canonical_json (JInt n) = show_int n"
| "canonical_json (JStr s) = json_str s"
| "canonical_json (JList xs) = ''['' @ intersperse '','' (map canonical_json xs) @ '']''"
| "canonical_json (JDict d) =
     ''{'' @ intersperse '','' (map (\<lambda>(k, text). json_str k @ '':'' @ text)
       (sort_key fst (map (\<lambda>(k, v). (k, canonical_json v)) d))) @ ''}''"

definition payloads :: "zendesk_comment list \<Rightarrow> json" where
  "payloads cs = JList (map (\<lambda>c. JDict (storage_payload c)) cs)"

definition snapshot_of :: "(string \<Rightarrow> string) \<Rightarrow> string \<Rightarrow> zendesk_comment list \<Rightarrow> comment_snapshot" where
  "snapshot_of sha source cs =
     \<lparr> sn_source_updated_at = source, sn_comments = cs,
       sn_snapshot_hash = sha (canonical_json (JDict [(''source_updated_at'', JStr source), (''comments'', payloads cs)])),
       sn_comments_revision = sha (canonical_json (payloads cs)) \<rparr>"

section \<open>Snapshots\<close>

definition normalize_snapshot :: "(string \<Rightarrow> string) \<Rightarrow> json \<Rightarrow> py_error + comment_snapshot" where
  "normalize_snapshot sha payload =
     (if \<not> is_jdict payload then Inl (invalid ''snapshot must be an object'')
      else let p = jdict payload
           in if jget p ''snapshot_complete'' \<noteq> JBool True
              then Inl (SnapshotError ''incomplete_snapshot'' ''snapshot_complete must be true'')
              else sbind (normalize_timestamp (jget p ''source_updated_at'') ''source_updated_at'')
                (\<lambda>source. case jget p ''comments'' of
                     JList raw \<Rightarrow> sbind (normalize_comment_list [] raw)
                       (\<lambda>cs. Inr (snapshot_of sha source (ordered_comments cs)))
                   | _ \<Rightarrow> Inl (invalid ''comments must be an array'')))"

definition build_conversation_revision :: "(string \<Rightarrow> string) \<Rightarrow> json \<Rightarrow> json \<Rightarrow> string" where
  "build_conversation_revision sha detail_revision comments_revision =
     sha (jstrip detail_revision @ ''|'' @ jstrip comments_revision)"

definition comment_sync_summary :: "json \<Rightarrow> json \<Rightarrow> int \<Rightarrow> json \<Rightarrow> jdict" where
  "comment_sync_summary source_updated_at synced_at comment_count comments_revision =
     [(''source_updated_at'', jopt (jstrip source_updated_at)), (''synced_at'', jopt (jstrip synced_at)),
      (''comment_count'', JInt (max 0 comment_count)), (''comments_revision'', jopt (jstrip comments_revision))]"

section \<open>Lemmas\<close>

subsection \<open>Fields\<close>

text \<open>A text as the normalisation leaves it, with at most \<open>m\<close> characters.\<close>

definition text_ok :: "nat \<Rightarrow> string \<Rightarrow> bool" where
  "text_ok m t \<longleftrightarrow> join_ws t = t \<and> length t \<le> m"

lemma normalize_text_Inr:
  "normalize_text v f m r = Inr t \<Longrightarrow> text_ok m t \<and> (r \<longrightarrow> t \<noteq> [])"
  by (auto simp: normalize_text_def Let_def text_ok_def split: if_splits)

lemma normalize_text_again:
  assumes "text_ok m t" "r \<longrightarrow> t \<noteq> []"
  shows "normalize_text (JStr t) f m r = Inr t" "normalize_text (of_opt (or_none t)) f m r = Inr t"
proof -
  have "strip t = t" using assms(1) strip_join_ws [of t] by (simp add: text_ok_def)
  then show "normalize_text (JStr t) f m r = Inr t"
    using assms by (auto simp: normalize_text_def text_ok_def)
  then show "normalize_text (of_opt (or_none t)) f m r = Inr t"
    by (cases "t = []") (simp_all add: or_none_def normalize_text_def)
qed

lemma normalize_timestamp_Inr:
  "normalize_timestamp v f = Inr t \<Longrightarrow> \<exists>i. valid_instant i \<and> t = iso_micros i"
  by (auto simp: normalize_timestamp_def Let_def split: if_splits option.splits)

lemma normalize_timestamp_again:
  "valid_instant i \<Longrightarrow> normalize_timestamp (JStr (iso_micros i)) f = Inr (iso_micros i)"
  by (simp add: normalize_timestamp_def Let_def parse_iso_micros)

subsection \<open>Attachments\<close>

definition attachment_ok :: "string \<Rightarrow> zendesk_attachment \<Rightarrow> bool" where
  "attachment_ok source a \<longleftrightarrow>
     text_ok 128 (za_attachment_id a) \<and> za_attachment_id a \<noteq> [] \<and>
     text_ok 255 (za_file_name a) \<and> za_file_name a \<noteq> [] \<and>
     text_ok 160 (za_content_type a) \<and> za_content_type a \<noteq> [] \<and>
     0 \<le> za_size_bytes a \<and> za_source_comment_id a = source"

lemma octet_stream_ok: "text_ok 160 ''application/octet-stream''"
  by code_simp

lemma normalize_attachment_Inr:
  assumes "normalize_attachment source seen raw = Inr a"
  shows "attachment_ok source a \<and> za_attachment_id a \<notin> set seen"
proof -
  obtain i f t n inl where
    "normalize_text (jget_or (jdict raw) ''id'' (jget (jdict raw) ''attachment_id'')) ''attachment id'' 128 True = Inr i"
    "i \<notin> set seen"
    "normalize_text (jget_or (jdict raw) ''file_name'' (jget (jdict raw) ''name'')) ''attachment file_name'' 255 True = Inr f"
    "normalize_text (jget_or (jdict raw) ''content_type'' (jget (jdict raw) ''mime_type''))
        ''attachment content_type'' 160 False = Inr t"
    "\<not> n < 0"
    "a = \<lparr> za_attachment_id = i, za_file_name = f, za_content_type = or_else t ''application/octet-stream'',
       za_size_bytes = n, za_inline = inl, za_source_comment_id = source \<rparr>"
    using assms
    by (simp add: normalize_attachment_def Let_def sbind_Inr split: if_split_asm option.split_asm) blast
  with normalize_text_Inr octet_stream_ok show ?thesis
    by (fastforce simp: attachment_ok_def or_else_def)
qed

lemma jget_or_simps [simp]:
  "jget_or [] k w = w" "jget_or ((j, v) # d) k w = (if k = j then v else jget_or d k w)"
  by (simp_all add: jget_or_def)

lemma normalize_attachment_again:
  assumes "attachment_ok source a" "za_attachment_id a \<notin> set seen"
  shows "normalize_attachment source seen (JDict (attachment_payload a)) = Inr a"
  using assms
  by (simp add: normalize_attachment_def attachment_payload_def attachment_ok_def normalize_text_again
      parse_optional_bool_def jor_def)

abbreviation attachment_ids :: "zendesk_attachment list \<Rightarrow> string list" where
  "attachment_ids as \<equiv> map za_attachment_id as"

lemma normalize_attachment_list_Inr:
  "normalize_attachment_list source seen rs = Inr as \<Longrightarrow>
     length as = length rs \<and> list_all (attachment_ok source) as \<and> distinct (attachment_ids as) \<and>
     set (attachment_ids as) \<inter> set seen = {}"
proof (induction rs arbitrary: seen as)
  case (Cons r rs)
  then obtain a bs where a: "normalize_attachment source seen r = Inr a" and
    "normalize_attachment_list source (za_attachment_id a # seen) rs = Inr bs" "as = a # bs"
    by (auto simp: sbind_Inr)
  with Cons.IH [OF this(2)] normalize_attachment_Inr [OF a] show ?case by auto
qed simp

lemma normalize_attachment_list_again:
  "list_all (attachment_ok source) as \<Longrightarrow> distinct (attachment_ids as) \<Longrightarrow>
     set (attachment_ids as) \<inter> set seen = {} \<Longrightarrow>
     normalize_attachment_list source seen (map (\<lambda>a. JDict (attachment_payload a)) as) = Inr as"
  by (induction as arbitrary: seen) (auto simp: normalize_attachment_again)

subsection \<open>Comments\<close>

definition opt_ok :: "nat \<Rightarrow> string option \<Rightarrow> bool" where
  "opt_ok m x \<longleftrightarrow> (\<exists>t. x = or_none t \<and> text_ok m t)"

definition author_kinds :: "string list" where
  "author_kinds = [''customer'', ''agent'', ''system'', ''unknown'']"

definition comment_ok :: "zendesk_comment \<Rightarrow> bool" where
  "comment_ok c \<longleftrightarrow>
     text_ok 128 (zc_zendesk_comment_id c) \<and> zc_zendesk_comment_id c \<noteq> [] \<and>
     opt_ok 128 (zc_author_id c) \<and> opt_ok 160 (zc_author_name c) \<and> opt_ok 160 (zc_via_channel c) \<and>
     zc_author_kind c \<in> set author_kinds \<and>
     strip (zc_body c) = zc_body c \<and> length (zc_body c) \<le> 100000 \<and>
     (\<exists>i. valid_instant i \<and> zc_created_at c = iso_micros i) \<and>
     length (zc_attachments c) \<le> 100 \<and> list_all (attachment_ok (zc_zendesk_comment_id c)) (zc_attachments c) \<and>
     distinct (attachment_ids (zc_attachments c))"

lemma author_kind_Inr: "author_kind role flag = Inr k \<Longrightarrow> k \<in> set author_kinds"
  by (auto simp: author_kind_def role_kind_def author_kinds_def Let_def sbind_Inr
      split: option.splits if_splits)

lemma normalize_attachments_Inr:
  assumes "normalize_attachments raw source = Inr as"
  shows "length as \<le> 100 \<and> list_all (attachment_ok source) as \<and> distinct (attachment_ids as)"
  using assms normalize_attachment_list_Inr [of source "[]" _ as]
  by (auto simp: normalize_attachments_def split: json.splits if_splits)

lemma normalized_comment_Inr:
  assumes "normalized_comment item i = Inr c" "text_ok 128 i" "i \<noteq> []"
  shows "comment_ok c \<and> \<not> zc_is_initial c \<and> zc_zendesk_comment_id c = i"
proof -
  obtain f1 f2 k f3 t a where *:
    "normalize_text (jget_or (comment_author item) ''id'' (jget item ''author_id'')) ''author id'' 128 False = Inr f1"
    "normalize_text (jget_or (comment_author item) ''name'' (jget item ''author_name'')) ''author name'' 160 False =
       Inr f2"
    "author_kind (comment_role item) (comment_is_agent item) = Inr k"
    "\<not> 100000 < length (jstrip (jget item ''body''))"
    "normalize_text (comment_via item) ''via_channel'' 160 False = Inr f3"
    "normalize_timestamp (jget item ''created_at'') ''comment created_at'' = Inr t"
    "normalize_attachments (jget item ''attachments'') i = Inr a"
    "c = \<lparr> zc_zendesk_comment_id = i, zc_is_public = parse_public (jget_or item ''public'' (jget item ''is_public'')),
       zc_is_initial = False, zc_author_id = or_none f1, zc_author_name = or_none f2, zc_author_kind = k,
       zc_body = jstrip (jget item ''body''), zc_via_channel = or_none f3, zc_created_at = t, zc_attachments = a \<rparr>"
    using assms(1) by (simp add: normalized_comment_def sbind_Inr split: if_split_asm) blast
  show ?thesis
    using assms(2,3) author_kind_Inr [OF *(3)] *(4) normalize_timestamp_Inr [OF *(6)]
      normalize_attachments_Inr [OF *(7)] normalize_text_Inr [OF *(1)] normalize_text_Inr [OF *(2)]
      normalize_text_Inr [OF *(5)]
    by (auto simp: comment_ok_def opt_ok_def *(8))
qed

text \<open>The duplicate check only tests the id.\<close>

lemma normalize_comment_seen:
  "normalize_comment seen raw = Inr c \<longleftrightarrow>
     normalize_comment [] raw = Inr c \<and> zc_zendesk_comment_id c \<notin> set seen"
proof -
  have "zc_zendesk_comment_id c = i"
    if "normalize_text v f 128 True = Inr i" "normalized_comment item i = Inr c" for v f i item
    using normalized_comment_Inr [OF that(2)] normalize_text_Inr [OF that(1)] by simp
  then show ?thesis
    by (auto simp: normalize_comment_def sbind_Inr split: if_splits)
qed

lemma normalize_comment_Inr:
  assumes "normalize_comment seen raw = Inr c"
  shows "comment_ok c \<and> \<not> zc_is_initial c \<and> zc_zendesk_comment_id c \<notin> set seen"
proof -
  obtain i v f where "normalize_text v f 128 True = Inr i" "normalized_comment (jdict raw) i = Inr c" "i \<notin> set seen"
    using assms by (auto simp: normalize_comment_def sbind_Inr split: if_splits)
  with normalized_comment_Inr [OF this(2)] normalize_text_Inr [OF this(1)] show ?thesis by simp
qed

abbreviation comment_ids :: "zendesk_comment list \<Rightarrow> string list" where
  "comment_ids cs \<equiv> map zc_zendesk_comment_id cs"

lemma normalize_comment_list_Inr:
  "normalize_comment_list seen rs = Inr cs \<longleftrightarrow>
     list_all2 (\<lambda>r c. normalize_comment [] r = Inr c) rs cs \<and> distinct (comment_ids cs) \<and>
     set (comment_ids cs) \<inter> set seen = {}"
proof (induction rs arbitrary: seen cs)
  case (Cons r rs)
  show ?case
  proof (cases cs)
    case (Cons c ds)
    then show ?thesis
      using Cons.IH normalize_comment_seen [of seen r] by (auto simp: sbind_Inr)
  qed (simp add: sbind_Inr)
qed auto

subsection \<open>The payload of a comment, read again\<close>

definition draft :: "zendesk_comment \<Rightarrow> zendesk_comment" where
  "draft c = c\<lparr>zc_is_initial := False\<rparr>"

lemma draft_simps [simp]:
  "comment_key (draft c) = comment_key c" "zc_zendesk_comment_id (draft c) = zc_zendesk_comment_id c"
  "comment_key (c\<lparr>zc_is_initial := b\<rparr>) = comment_key c" "draft (c\<lparr>zc_is_initial := b\<rparr>) = draft c"
  "comment_ok (draft c) = comment_ok c" "comment_ok (c\<lparr>zc_is_initial := b\<rparr>) = comment_ok c"
  by (simp_all add: draft_def comment_key_def comment_ok_def)

lemma author_kind_again:
  assumes "k \<in> set author_kinds"
  shows "author_kind (JStr k) JNull = Inr k"
    "author_kind (JStr k) (case author_is_agent (JStr k) of None \<Rightarrow> JNull | Some b \<Rightarrow> JBool b) = Inr k"
proof -
  have "list_all (\<lambda>k. author_kind (JStr k) JNull = Inr k \<and>
      author_kind (JStr k) (case author_is_agent (JStr k) of None \<Rightarrow> JNull | Some b \<Rightarrow> JBool b) = Inr k) author_kinds"
    by code_simp
  with assms show "author_kind (JStr k) JNull = Inr k"
    "author_kind (JStr k) (case author_is_agent (JStr k) of None \<Rightarrow> JNull | Some b \<Rightarrow> JBool b) = Inr k"
    by (simp_all add: list_all_iff)
qed

lemma opt_again: "opt_ok m x \<Longrightarrow> normalize_text (of_opt x) f m False = Inr (ostr x) \<and> or_none (ostr x) = x"
  using normalize_text_again(2) by (auto simp: opt_ok_def)

lemma attachments_again:
  assumes "length as \<le> 100" "list_all (attachment_ok i) as" "distinct (attachment_ids as)"
  shows "normalize_attachments (JList (map (\<lambda>a. JDict (attachment_payload a)) as)) i = Inr as"
  using assms normalize_attachment_list_again [of i as "[]"] by (simp add: normalize_attachments_def)

lemma parse_public_bool [simp]: "parse_public (JBool b) = b"
  by (simp add: parse_public_def)

definition payload_fun :: "(zendesk_comment \<Rightarrow> jdict) \<Rightarrow> bool" where
  "payload_fun f \<longleftrightarrow> f = storage_payload \<or> f = public_payload"

lemma payload_fields:
  assumes "payload_fun f"
  shows "jget_or (f c) ''id'' w = w" "jget (f c) ''zendesk_comment_id'' = JStr (zc_zendesk_comment_id c)"
    "comment_author (f c) = []" "jget (f c) ''author_id'' = of_opt (zc_author_id c)"
    "jget (f c) ''author_name'' = of_opt (zc_author_name c)" "comment_role (f c) = JStr (zc_author_kind c)"
    "comment_via (f c) = of_opt (zc_via_channel c)" "jget (f c) ''created_at'' = JStr (zc_created_at c)"
    "jget (f c) ''attachments'' = attachments_payload c" "jget (f c) ''body'' = JStr (zc_body c)"
    "jget_or (f c) ''public'' (jget (f c) ''is_public'') = JBool (zc_is_public c)"
    "zc_author_kind c \<in> set author_kinds \<Longrightarrow>
       author_kind (JStr (zc_author_kind c)) (comment_is_agent (f c)) = Inr (zc_author_kind c)"
proof -
  have via: "\<not> is_jdict (of_opt x)" for x by (cases x) simp_all
  from assms consider "f = storage_payload" | "f = public_payload" by (auto simp: payload_fun_def)
  then show "jget_or (f c) ''id'' w = w" "jget (f c) ''zendesk_comment_id'' = JStr (zc_zendesk_comment_id c)"
    "comment_author (f c) = []" "jget (f c) ''author_id'' = of_opt (zc_author_id c)"
    "jget (f c) ''author_name'' = of_opt (zc_author_name c)" "comment_role (f c) = JStr (zc_author_kind c)"
    "comment_via (f c) = of_opt (zc_via_channel c)" "jget (f c) ''created_at'' = JStr (zc_created_at c)"
    "jget (f c) ''attachments'' = attachments_payload c" "jget (f c) ''body'' = JStr (zc_body c)"
    "jget_or (f c) ''public'' (jget (f c) ''is_public'') = JBool (zc_is_public c)"
    by (cases; simp add: storage_payload_def public_payload_def comment_author_def comment_role_def
        comment_via_def first_present_def via)+
  from assms consider "f = storage_payload" | "f = public_payload" by (auto simp: payload_fun_def)
  then show "author_kind (JStr (zc_author_kind c)) (comment_is_agent (f c)) = Inr (zc_author_kind c)"
    if "zc_author_kind c \<in> set author_kinds"
  proof cases
    case 1
    then have "comment_is_agent (f c) = JNull"
      by (simp add: storage_payload_def comment_is_agent_def comment_author_def first_present_def)
    with author_kind_again [OF that] show ?thesis by simp
  next
    case 2
    then have "comment_is_agent (f c) =
        (case author_is_agent (JStr (zc_author_kind c)) of None \<Rightarrow> JNull | Some b \<Rightarrow> JBool b)"
      by (simp add: public_payload_def comment_is_agent_def comment_author_def first_present_def)
    with author_kind_again [OF that] show ?thesis by simp
  qed
qed

lemma normalize_comment_again:
  assumes "payload_fun f" "comment_ok c"
  shows "normalize_comment [] (JDict (f c)) = Inr (draft c)"
proof -
  note ok = assms(2) [unfolded comment_ok_def]
  obtain i where i: "valid_instant i" "zc_created_at c = iso_micros i" using ok by blast
  have body: "jstrip (jget (f c) ''body'') = zc_body c" "\<not> 100000 < length (zc_body c)"
    using ok by (simp_all add: payload_fields [OF assms(1)])
  have "normalized_comment (f c) (zc_zendesk_comment_id c) = Inr (draft c)"
    unfolding normalized_comment_def body(1)
    using ok opt_again [of 128 "zc_author_id c"] opt_again [of 160 "zc_author_name c"]
      opt_again [of 160 "zc_via_channel c"] normalize_timestamp_again [OF i(1), of "''comment created_at''"]
      attachments_again [of "zc_attachments c" "zc_zendesk_comment_id c"] body(2) i(2)
    by (simp add: payload_fields [OF assms(1)] attachments_payload_def draft_def)
  then show ?thesis
    using ok by (simp add: normalize_comment_def payload_fields [OF assms(1)] normalize_text_again)
qed

subsection \<open>Order\<close>

lemma comment_key_inj: "distinct (comment_ids cs) \<Longrightarrow> inj_on comment_key (set cs)"
  by (rule inj_on_imageI2 [of snd], rule inj_onI) (simp add: comment_key_def distinct_map inj_on_def)

lemma sort_comments_mset:
  assumes "mset cs = mset ds" "distinct (comment_ids cs)"
  shows "sort_key comment_key cs = sort_key comment_key ds"
proof -
  have ids: "distinct (comment_ids ds)"
    using assms by (metis distinct_map mset_eq_imp_distinct_iff set_mset_mset)
  have "distinct cs" "distinct ds" using assms(2) ids by (simp_all add: distinct_map)
  moreover have "set cs = set ds" using assms(1) by (metis set_mset_mset)
  ultimately show ?thesis
    using comment_key_inj [OF assms(2)]
    by (intro map_sorted_distinct_set_unique [of comment_key]) (simp_all add: distinct_map)
qed

lemma ids_mark_initial [simp]: "comment_ids (mark_initial cs) = comment_ids cs"
  and keys_mark_initial [simp]: "map comment_key (mark_initial cs) = map comment_key cs"
  and drafts_mark_initial [simp]: "map draft (mark_initial cs) = map draft cs"
  and mark_initial_draft: "mark_initial (map draft (mark_initial cs)) = mark_initial (map draft cs)"
  by (cases cs; simp)+

lemma ids_ordered: "mset (comment_ids (ordered_comments cs)) = mset (comment_ids cs)"
  by (simp add: ordered_comments_def)

text \<open>Ordering comments that are in order already changes nothing.\<close>

lemma ordered_again:
  assumes "\<forall>c \<in> set cs. \<not> zc_is_initial c"
  shows "ordered_comments (map draft (ordered_comments cs)) = ordered_comments cs"
proof -
  let ?s = "sort_key comment_key cs"
  have d: "map draft ?s = ?s" using assms by (intro map_idI) (simp add: draft_def)
  have "sorted (map comment_key (map draft (ordered_comments cs)))"
    by (simp add: ordered_comments_def comp_def)
  then have "sort_key comment_key (map draft (ordered_comments cs)) = map draft (ordered_comments cs)"
    by (rule sort_key_id_if_sorted)
  then show ?thesis by (simp add: ordered_comments_def d)
qed

subsection \<open>Snapshots\<close>

lemma normalize_snapshot_Inr:
  "normalize_snapshot sha (JDict p) = Inr snap \<longleftrightarrow>
     jget p ''snapshot_complete'' = JBool True \<and>
     (\<exists>source raw cs. normalize_timestamp (jget p ''source_updated_at'') ''source_updated_at'' = Inr source \<and>
        jget p ''comments'' = JList raw \<and> normalize_comment_list [] raw = Inr cs \<and>
        snap = snapshot_of sha source (ordered_comments cs))"
  by (cases "jget p ''comments''") (auto simp: normalize_snapshot_def sbind_Inr)

lemma normalize_snapshot_dict: "normalize_snapshot sha x = Inr snap \<Longrightarrow> \<exists>p. x = JDict p"
  by (cases x) (simp_all add: normalize_snapshot_def)

lemma list_all2_function: "list_all2 (\<lambda>r c. f r = Inr c) rs cs \<longleftrightarrow> map f rs = map Inr cs"
  by (induction rs cs rule: list_induct2') auto

lemma normalize_list_mset:
  assumes "normalize_comment_list [] rs = Inr cs" "mset rs = mset rs'"
  shows "\<exists>cs'. normalize_comment_list [] rs' = Inr cs' \<and> mset cs' = mset cs \<and> distinct (comment_ids cs)"
proof -
  let ?f = "normalize_comment []"
  have l: "map ?f rs = map Inr cs" "distinct (comment_ids cs)"
    using assms(1) by (simp_all add: normalize_comment_list_Inr list_all2_function)
  define cs' where "cs' = map (\<lambda>r. projr (?f r)) rs'"
  have "?f r = Inr (projr (?f r))" if "r \<in> set rs'" for r
  proof -
    have "r \<in> set rs" using that assms(2) by (metis set_mset_mset)
    then have "?f r \<in> set (map Inr cs)" unfolding l(1) [symmetric] by simp
    then show ?thesis by auto
  qed
  then have m': "map ?f rs' = map Inr cs'" by (simp add: cs'_def)
  have c: "cs = map projr (map ?f rs)" unfolding l(1) by (simp add: comp_def)
  have "mset cs' = mset cs" using assms(2) by (simp add: cs'_def c comp_def)
  moreover from this have "distinct (comment_ids cs')" using l(2)
    by (metis mset_eq_imp_distinct_iff mset_map)
  ultimately show ?thesis using m' l(2) by (auto simp: normalize_comment_list_Inr list_all2_function)
qed

lemma normalize_list_ok:
  "normalize_comment_list seen rs = Inr cs \<Longrightarrow> \<forall>c \<in> set cs. comment_ok c \<and> \<not> zc_is_initial c"
proof (induction rs arbitrary: seen cs)
  case (Cons r rs)
  from Cons.prems obtain c ds where c: "normalize_comment seen r = Inr c"
    and ds: "normalize_comment_list (zc_zendesk_comment_id c # seen) rs = Inr ds" and cs: "cs = c # ds"
    by (simp add: sbind_Inr) blast
  show ?case using Cons.IH [OF ds] normalize_comment_Inr [OF c] by (simp add: cs)
qed simp

lemma mark_initial_ok:
  assumes "\<forall>c \<in> set cs. comment_ok c \<and> \<not> zc_is_initial c"
  shows "list_all comment_ok (mark_initial cs)"
    "map zc_is_initial (mark_initial cs) = map (\<lambda>n. n = 0) [0..<length (mark_initial cs)]"
proof -
  show "list_all comment_ok (mark_initial cs)" using assms by (cases cs) (simp_all add: list_all_iff)
  show "map zc_is_initial (mark_initial cs) = map (\<lambda>n. n = 0) [0..<length (mark_initial cs)]"
  proof (cases cs)
    case (Cons c ds)
    have "map zc_is_initial ds = map (\<lambda>n. Suc n = 0) [0..<length ds]"
      using assms Cons by (intro nth_equalityI) simp_all
    moreover have "[0..<Suc (length ds)] = 0 # map Suc [0..<length ds]"
      by (simp add: upt_conv_Cons map_Suc_upt del: upt_Suc)
    ultimately show ?thesis using Cons by (simp add: comp_def del: upt_Suc)
  qed simp
qed

lemma snapshot_comments_ok:
  assumes "normalize_comment_list [] raw = Inr cs"
  shows "list_all comment_ok (ordered_comments cs)" "distinct (comment_ids (ordered_comments cs))"
    "sorted (map comment_key (ordered_comments cs))"
    "map zc_is_initial (ordered_comments cs) = map (\<lambda>n. n = 0) [0..<length (ordered_comments cs)]"
proof -
  have ok: "\<forall>c \<in> set (sort_key comment_key cs). comment_ok c \<and> \<not> zc_is_initial c"
    using normalize_list_ok [OF assms] by simp
  show "list_all comment_ok (ordered_comments cs)"
    "map zc_is_initial (ordered_comments cs) = map (\<lambda>n. n = 0) [0..<length (ordered_comments cs)]"
    unfolding ordered_comments_def by (rule mark_initial_ok [OF ok])+
  show "distinct (comment_ids (ordered_comments cs))"
    using assms mset_eq_imp_distinct_iff [OF ids_ordered] by (simp add: normalize_comment_list_Inr)
  show "sorted (map comment_key (ordered_comments cs))" by (simp add: ordered_comments_def)
qed

lemma snapshot_cases:
  assumes "normalize_snapshot sha x = Inr snap"
  obtains v f source raw cs where "normalize_timestamp v f = Inr source"
    "normalize_comment_list [] raw = Inr cs" "snap = snapshot_of sha source (ordered_comments cs)"
proof -
  obtain p where "x = JDict p" using normalize_snapshot_dict [OF assms] by blast
  with assms that show thesis using normalize_snapshot_Inr [of sha p snap] by blast
qed

section \<open>Properties\<close>

text \<open>C24
  The order in which Zendesk lists the comments does not matter: a permutation of an accepted
  snapshot is accepted and has the same comments, the same hash and the same revision.
\<close>

theorem snapshot_order_irrelevant:
  assumes "normalize_snapshot sha (JDict p) = Inr snap" "jget p ''comments'' = JList raw" "mset raw' = mset raw"
  shows "normalize_snapshot sha (JDict (dset ''comments'' (JList raw') p)) = Inr snap"
proof -
  obtain source cs where s: "normalize_timestamp (jget p ''source_updated_at'') ''source_updated_at'' = Inr source"
    "normalize_comment_list [] raw = Inr cs" "snap = snapshot_of sha source (ordered_comments cs)"
    "jget p ''snapshot_complete'' = JBool True"
    using assms(1,2) unfolding normalize_snapshot_Inr by auto
  obtain cs' where c: "normalize_comment_list [] raw' = Inr cs'" "mset cs' = mset cs" "distinct (comment_ids cs)"
    using normalize_list_mset [OF s(2)] assms(3) by metis
  have "ordered_comments cs = ordered_comments cs'"
    unfolding ordered_comments_def using sort_comments_mset [of cs cs'] c(2,3) by simp
  with s c(1) show ?thesis by (simp add: normalize_snapshot_Inr)
qed

text \<open>
  An accepted snapshot is well formed: its times are UTC times of years 1 to 9999, its comments
  are within the limits of the module, have distinct non-empty ids, come sorted by time and id,
  and exactly the first of them is the initial comment.
\<close>

theorem snapshot_wellformed:
  assumes "normalize_snapshot sha x = Inr snap"
  shows "(\<exists>i. valid_instant i \<and> sn_source_updated_at snap = iso_micros i) \<and>
     list_all comment_ok (sn_comments snap) \<and> distinct (comment_ids (sn_comments snap)) \<and>
     sorted (map comment_key (sn_comments snap)) \<and>
     map zc_is_initial (sn_comments snap) = map (\<lambda>n. n = 0) [0..<length (sn_comments snap)]"
proof -
  obtain v f source raw cs where s: "normalize_timestamp v f = Inr source"
    "normalize_comment_list [] raw = Inr cs" "snap = snapshot_of sha source (ordered_comments cs)"
    using assms by (rule snapshot_cases)
  have c: "sn_comments snap = ordered_comments cs" "sn_source_updated_at snap = source"
    by (simp_all add: s(3) snapshot_of_def)
  show ?thesis
    using snapshot_comments_ok [OF s(2)] normalize_timestamp_Inr [OF s(1)] by (simp add: c)
qed

text \<open>C25
  The payload of a stored comment, and the one the API shows, carry the whole comment: a snapshot
  made of either of them is accepted again and gives the same comments and the same revisions.
\<close>

theorem snapshot_roundtrip:
  assumes "normalize_snapshot sha x = Inr snap"
  shows "normalize_snapshot sha (JDict [(''snapshot_complete'', JBool True),
       (''source_updated_at'', JStr (sn_source_updated_at snap)), (''comments'', payloads (sn_comments snap))]) = Inr snap \<and>
     normalize_snapshot sha (JDict [(''snapshot_complete'', JBool True),
       (''source_updated_at'', JStr (sn_source_updated_at snap)),
       (''comments'', JList (map (\<lambda>c. JDict (public_payload c)) (sn_comments snap)))]) = Inr snap"
proof -
  obtain v f source raw cs where s: "normalize_timestamp v f = Inr source"
    "normalize_comment_list [] raw = Inr cs" "snap = snapshot_of sha source (ordered_comments cs)"
    using assms by (rule snapshot_cases)
  have c: "sn_comments snap = ordered_comments cs" "sn_source_updated_at snap = source"
    by (simp_all add: s(3) snapshot_of_def)
  obtain i where i: "valid_instant i" "source = iso_micros i" using normalize_timestamp_Inr [OF s(1)] by blast
  note w = snapshot_comments_ok [OF s(2)]
  have "normalize_snapshot sha (JDict [(''snapshot_complete'', JBool True), (''source_updated_at'', JStr source),
      (''comments'', JList (map (\<lambda>c. JDict (f c)) (ordered_comments cs)))]) = Inr snap" if "payload_fun f" for f
  proof -
    have "normalize_comment_list [] (map (\<lambda>c. JDict (f c)) (ordered_comments cs)) =
        Inr (map draft (ordered_comments cs))"
      using w normalize_comment_again [OF that]
      by (simp add: normalize_comment_list_Inr list_all2_function list_all_iff comp_def)
    then show ?thesis
      using ordered_again normalize_list_ok [OF s(2)] normalize_timestamp_again [OF i(1), of "''source_updated_at''"]
      by (simp add: normalize_snapshot_Inr s(3) i(2))
  qed
  then show ?thesis unfolding c payloads_def by (simp add: payload_fun_def)
qed

subsection \<open>Failures\<close>

definition snapshot_failure :: "py_error \<Rightarrow> bool" where
  "snapshot_failure e \<longleftrightarrow> (\<exists>c m. e = SnapshotError c m) \<or> e = OverflowError ''date value out of range''"

definition fails_ok :: "py_error + 'a \<Rightarrow> bool" where
  "fails_ok x = (case x of Inl e \<Rightarrow> snapshot_failure e | Inr _ \<Rightarrow> True)"

lemma fails_ok_simps [simp]:
  "fails_ok (Inr v)" "fails_ok (Inl (SnapshotError c m))" "fails_ok (Inl (OverflowError ''date value out of range''))"
  by (simp_all add: fails_ok_def snapshot_failure_def)

lemma fails_ok_sbind: "fails_ok x \<Longrightarrow> (\<And>v. fails_ok (f v)) \<Longrightarrow> fails_ok (sbind x f)"
  by (cases x) (simp_all add: fails_ok_def)

lemma fails_ok_fields [simp]:
  "fails_ok (normalize_text v f m r)" "fails_ok (normalize_timestamp v f)" "fails_ok (parse_optional_bool v f)"
  by (simp_all add: normalize_text_def normalize_timestamp_def parse_optional_bool_def Let_def
      split: option.split json.split)

lemma fails_ok_attachments [simp]: "fails_ok (normalize_attachments v i)"
proof -
  have a: "fails_ok (normalize_attachment source seen r)" for source seen r
    by (auto simp: normalize_attachment_def Let_def intro!: fails_ok_sbind split: option.split)
  have "fails_ok (normalize_attachment_list source seen rs)" for source seen rs
    by (induction rs arbitrary: seen) (auto intro!: fails_ok_sbind a)
  then show ?thesis by (simp add: normalize_attachments_def split: json.split)
qed

lemma fails_ok_comments [simp]: "fails_ok (normalize_comment_list seen rs)"
proof -
  have k: "fails_ok (author_kind role flag)" for role flag
    by (auto simp: author_kind_def intro!: fails_ok_sbind split: option.split)
  have c: "fails_ok (normalize_comment seen r)" for seen r
    by (auto simp: normalize_comment_def normalized_comment_def intro!: fails_ok_sbind k)
  show ?thesis
    by (induction rs arbitrary: seen) (auto intro!: fails_ok_sbind c)
qed

text \<open>
  A rejected snapshot raises \<open>ZendeskCommentSnapshotError\<close>, except that a time at the end of the
  calendar escapes as an \<open>OverflowError\<close>, which the callers do not expect.
\<close>

theorem snapshot_failures:
  "(case normalize_snapshot sha x of
      Inl e \<Rightarrow> (\<exists>c m. e = SnapshotError c m) \<or> e = OverflowError ''date value out of range''
    | Inr _ \<Rightarrow> True) \<and>
   normalize_snapshot sha (JDict [(''snapshot_complete'', JBool True),
     (''source_updated_at'', JStr ''0001-01-01T00:00:00+01:00'')]) = Inl (OverflowError ''date value out of range'')"
proof
  have "fails_ok (normalize_snapshot sha x)"
    by (auto simp: normalize_snapshot_def Let_def intro!: fails_ok_sbind split: json.split)
  then show "case normalize_snapshot sha x of
      Inl e \<Rightarrow> (\<exists>c m. e = SnapshotError c m) \<or> e = OverflowError ''date value out of range''
    | Inr _ \<Rightarrow> True" by (simp add: fails_ok_def snapshot_failure_def split: sum.splits)
  have "normalize_timestamp (JStr ''0001-01-01T00:00:00+01:00'') ''source_updated_at'' =
      Inl (OverflowError ''date value out of range'')" by code_simp
  then show "normalize_snapshot sha (JDict [(''snapshot_complete'', JBool True),
     (''source_updated_at'', JStr ''0001-01-01T00:00:00+01:00'')]) = Inl (OverflowError ''date value out of range'')"
    by (simp add: normalize_snapshot_def)
qed

section \<open>Witnesses\<close>

text \<open>An answered ticket with an attachment; the answer is listed first.\<close>

definition question :: zendesk_comment where
  "question = \<lparr> zc_zendesk_comment_id = ''c1'', zc_is_public = True, zc_is_initial = True, zc_author_id = Some ''7'',
     zc_author_name = Some ''Ann B'', zc_author_kind = ''customer'', zc_body = ''help'', zc_via_channel = Some ''web'',
     zc_created_at = iso_micros 0,
     zc_attachments = [\<lparr> za_attachment_id = ''a1'', za_file_name = ''log.txt'', za_content_type = ''text/plain'',
       za_size_bytes = 12, za_inline = False, za_source_comment_id = ''c1'' \<rparr>] \<rparr>"

definition answer :: zendesk_comment where
  "answer = \<lparr> zc_zendesk_comment_id = ''c2'', zc_is_public = True, zc_is_initial = False, zc_author_id = None,
     zc_author_name = None, zc_author_kind = ''agent'', zc_body = ''done'', zc_via_channel = None,
     zc_created_at = iso_micros 1, zc_attachments = [] \<rparr>"

definition two_comments :: "json list" where
  "two_comments = [JDict (storage_payload answer), JDict (storage_payload question)]"

definition two_payload :: jdict where
  "two_payload = [(''snapshot_complete'', JBool True), (''source_updated_at'', JStr (iso_micros 1)),
     (''comments'', JList two_comments)]"

definition two_snapshot :: comment_snapshot where
  "two_snapshot = snapshot_of id (iso_micros 1) (ordered_comments [draft answer, draft question])"

lemma sample_texts_ok:
  "list_all (\<lambda>t. text_ok 128 t) [''c1'', ''c2'', ''7'', ''Ann B'', ''web'', ''a1'', ''log.txt'', ''text/plain'']"
  by code_simp

lemma sample_comments_ok: "comment_ok question" "comment_ok answer"
proof -
  have w: "text_ok 160 t" "text_ok 255 t" if "text_ok 128 t" for t using that by (auto simp: text_ok_def)
  have o: "opt_ok m None" "text_ok m t \<Longrightarrow> t \<noteq> [] \<Longrightarrow> opt_ok m (Some t)" for m t
    by (auto simp: opt_ok_def or_none_def text_ok_def intro!: exI [of _ "[]"] exI [of _ t])
      (simp add: join_ws_def split_ws_def)
  have v: "valid_instant 0" "valid_instant 1" by (simp_all add: valid_instant_def)
  have s: "strip ''help'' = ''help''" "strip ''done'' = ''done''" by code_simp+
  show "comment_ok question" "comment_ok answer"
    using sample_texts_ok w o v s
    by (auto simp: comment_ok_def question_def answer_def attachment_ok_def author_kinds_def)
qed

lemma sample_ids: "zc_zendesk_comment_id question = ''c1''" "zc_zendesk_comment_id answer = ''c2''"
  by (simp_all add: question_def answer_def)

lemma two_snapshot: "normalize_snapshot id (JDict two_payload) = Inr two_snapshot"
proof -
  have "payload_fun storage_payload" by (simp add: payload_fun_def)
  then have "normalize_comment_list [] two_comments = Inr [draft answer, draft question]"
    unfolding normalize_comment_list_Inr two_comments_def
    using sample_comments_ok sample_ids by (simp add: normalize_comment_again)
  moreover have "normalize_timestamp (JStr (iso_micros 1)) ''source_updated_at'' = Inr (iso_micros 1)"
    by (rule normalize_timestamp_again) (simp add: valid_instant_def)
  ultimately show ?thesis by (simp add: normalize_snapshot_Inr two_payload_def two_snapshot_def)
qed

theorem snapshot_order_irrelevant_witness:
  "normalize_snapshot id (JDict (dset ''comments'' (JList (rev two_comments)) two_payload)) = Inr two_snapshot"
  by (rule snapshot_order_irrelevant [OF two_snapshot]) (simp_all add: two_payload_def)

theorem snapshot_wellformed_witness:
  "sorted (map comment_key (sn_comments two_snapshot)) \<and> distinct (comment_ids (sn_comments two_snapshot))"
  using snapshot_wellformed [OF two_snapshot] by blast

theorem snapshot_roundtrip_witness:
  "normalize_snapshot id (JDict [(''snapshot_complete'', JBool True),
     (''source_updated_at'', JStr (sn_source_updated_at two_snapshot)), (''comments'', payloads (sn_comments two_snapshot))]) =
   Inr two_snapshot"
  using snapshot_roundtrip [OF two_snapshot] by blast

end
