(* ===== verification/Account_Cases.thy ===== *)
theory Account_Cases
  imports Case_Routing Workspace Idempotency Zendesk_Outbox Slack_Outbox Zendesk_Comments
begin

text \<open>
  Account cases in \<open>InMemoryTicketRepository\<close>: the normal form a stored case has, the failure
  contract of automations (\<open>services/account_automation_reconciliation.py\<close>), the internal
  e-mail of a case, the synchronisation of Zendesk comments and statuses, and the result of a
  Zendesk comment, which touches the request, the message, the comment outbox, the Slack outbox
  and the ticket at once.

  Cases and tickets are dictionaries of JSON values; the other tables are the ones of their
  components.
\<close>

section \<open>The normal form of a case\<close>

definition case_id :: "jdict \<Rightarrow> string" where
  "case_id c = jstrip (jor (jget c ''account_case_id'') (jget c ''billing_ticket_id''))"

text \<open>The metadata of the route, from the classification or the legacy fields.\<close>

definition billing_subcategory :: "jdict \<Rightarrow> string" where
  "billing_subcategory c =
     jlower (jor (jget (jdict (jget c ''route_classification'')) ''account_billing_subcategory'')
       (if jlower (jget c ''category'') = ''account_billing'' then jget c ''subcategory'' else JStr []))"

definition operation_subcategory :: "jdict \<Rightarrow> string" where
  "operation_subcategory c =
     (let classification = jdict (jget c ''route_classification'');
          route = jlower (jget classification ''agora_route'');
          sub = (if route \<in> {''backend_operation'', ''automation''}
                 then slower (py_str (jor (jget classification ''backend_operation_subcategory'')
                   (if route = ''automation'' then jget classification ''automation_subcategory''
                    else jget c ''subcategory'')))
                 else [])
      in if sub \<in> set backend_operation_subcategories then sub else [])"

definition case_metadata :: "jdict \<Rightarrow> jdict" where
  "case_metadata c =
     (let operation = operation_subcategory c; billing = billing_subcategory c
      in if operation \<noteq> [] then backend_operation_metadata (JStr operation)
         else if billing \<in> {''fraud_account'', ''detailed_invoice''}
         then account_billing_metadata (JStr billing)
         else automation_metadata (jget c ''route_family'')
                (jor (jget c ''execution_action'') (jget c ''route'')))"

text \<open>\<open>for key, value in metadata.items(): if normalized.get(key) in (None, ""): ...\<close>.\<close>

definition fill_missing :: "jdict \<Rightarrow> jdict \<Rightarrow> jdict" where
  "fill_missing metadata c =
     fold (\<lambda>(k, v) n. if jget n k = JNull \<or> jget n k = JStr [] then dset k v n else n) metadata c"

text \<open>The identity and the profile of a case.\<close>

definition identified :: "string \<Rightarrow> string \<Rightarrow> jdict \<Rightarrow> jdict" where
  "identified billing_ticket_id profile c =
     jupdate
       [(''billing_ticket_id'', JStr billing_ticket_id),
        (''account_case_id'', JStr (strip (if truthy (jget c ''account_case_id'')
           then py_str (jget c ''account_case_id'') else billing_ticket_id))),
        (''processing_profile'', JStr profile),
        (''zendesk_ticket_id'', jopt (jstrip (jget c ''zendesk_ticket_id''))),
        (''zendesk_ticket_status'', jopt (jlower (jget c ''zendesk_ticket_status''))),
        (''origin_staging_case_id'', jopt (jstrip (jget c ''origin_staging_case_id''))),
        (''rule_release'', JDict (jdict (jget c ''rule_release'')))] c"

definition normalize_account_case_record :: "jdict \<Rightarrow> py_error + jdict" where
  "normalize_account_case_record c =
     (let billing_ticket_id = jstrip (jor (jget c ''billing_ticket_id'') (jget c ''account_case_id''))
      in if billing_ticket_id = [] then Inl (ValueError ''account_case_id is required'')
         else case normalize_account_processing_profile (jget c ''processing_profile'') ''staging'' of
             Inl e \<Rightarrow> Inl e
           | Inr profile \<Rightarrow>
               let n = identified billing_ticket_id profile c;
                   metadata = case_metadata n;
                   automation_family = (jlower (jget n ''route_family'') \<in> {''automated'', ''billing_automation''});
                   filled = fill_missing metadata n
               in if automation_family \<and> jstrip (jget filled ''route_status'') = ''automated'' \<and>
                     jget metadata ''route_status'' = JStr ''automated''
                  then Inr (setdefault ''route'' (jget metadata ''subcategory'')
                         (setdefault ''execution_action'' (jget metadata ''subcategory'')
                           (dset ''route_family'' (JStr ''automated'') filled)))
                  else Inr filled)"

section \<open>Failed automations\<close>

definition account_case_requires_human_review :: "jdict \<Rightarrow> bool" where
  "account_case_requires_human_review c \<longleftrightarrow>
     jstrip (jget c ''route_family'') = ''human_review'' \<or>
     jstrip (jget c ''route'') = ''human_review_required'' \<or>
     jstrip (jget c ''execution_action'') = ''human_review_required''"

definition account_case_human_review_reason :: "jdict \<Rightarrow> string" where
  "account_case_human_review_reason c =
     strip (or_else (jstr (jor (jget c ''not_automated_reason'') (jget c ''route_reason'')))
       ''account_case_requires_human_review'')"

text \<open>What a field extraction reports: its audit payload and the fields it collected, if a dictionary.\<close>

record extraction =
  ex_audit_payload :: json
  ex_collected_fields :: "jdict option"

definition failed_classification ::
  "jdict \<Rightarrow> string \<Rightarrow> extraction option \<Rightarrow> jdict \<Rightarrow> jdict" where
  "failed_classification c reason extraction context =
     (let base = jupdate [(''handler_binding_status'', JStr ''human_review''),
                          (''execution_reason_code'', JStr reason),
                          (''automation_execution_reason_code'', JStr reason)]
                   (jdict (jget c ''route_classification''));
          audited = (case extraction of None \<Rightarrow> base
                     | Some x \<Rightarrow> dset ''field_extraction'' (ex_audit_payload x) base)
      in if context = [] then audited
         else dset ''automation_execution''
                (JDict (jupdate context (jdict (jget audited ''automation_execution'')))) audited)"

definition copied_failure_keys :: "string list" where
  "copied_failure_keys = [''policy_decision'', ''failure_stage'', ''failure_code'',
     ''failure_attempt_count'', ''failure_incident_id'']"

definition reconcile_automation_execution_failure ::
  "jdict \<Rightarrow> string \<Rightarrow> extraction option \<Rightarrow> jdict \<Rightarrow> bool \<Rightarrow> jdict" where
  "reconcile_automation_execution_failure c reason_code extraction context clear_reply =
     (let reason = or_else (strip (or_else reason_code ''automation_execution_failed''))
                     ''automation_execution_failed'';
          payload = jget c ''internal_email_payload'';
          status = jlower (jget c ''internal_email_send_status'');
          preserve = (is_jdict payload \<and> truthy payload \<and> status \<noteq> [] \<and> status \<noteq> ''not_applicable'');
          u1 = jupdate
            [(''automation_status'', JStr ''human_review_required''),
             (''execution_reason_code'', JStr reason),
             (''not_automated_reason'', JNull),
             (''internal_email_payload'', if preserve then payload else JNull),
             (''internal_email_send_status'', JStr (if preserve then status else ''not_applicable'')),
             (''internal_email_send_reason'',
                JStr (if preserve
                      then strip (or_else (jstr (jget c ''internal_email_send_reason'')) reason)
                      else reason)),
             (''route_classification'', JDict (failed_classification c reason extraction context))] c;
          u2 = jupdate (filter (\<lambda>e. fst e \<in> set copied_failure_keys) context) u1;
          u3 = (case extraction of
                  Some x \<Rightarrow> (case ex_collected_fields x of
                               Some fs \<Rightarrow> dset ''collected_fields'' (JDict fs) u2 | None \<Rightarrow> u2)
                | None \<Rightarrow> u2);
          u4 = (if clear_reply
                then jupdate [(''customer_reply'', JNull), (''missing_fields'', JList [])] u3 else u3)
      in dset ''automation_context''
           (JDict (jupdate [(''execution_status'', JStr ''human_review_required''),
                            (''execution_reason_code'', JStr reason)]
              (jdict (jget c ''automation_context'')))) u4)"

text \<open>\<open>"_".join(str(x or d).strip().lower().split()) or d\<close>, cut to 160 characters in all.\<close>

definition reason_part :: "string \<Rightarrow> string \<Rightarrow> string" where
  "reason_part x d = or_else (intersperse ''_'' (split_ws (slower (or_else x d)))) d"

definition reconciliation_reason_code :: "string \<Rightarrow> string \<Rightarrow> string option \<Rightarrow> string" where
  "reconciliation_reason_code handler phase detail =
     take 160 (reason_part handler ''automation'' @ ''_'' @ reason_part phase ''execution'' @ ''_'' @
               reason_part (ostr detail) ''failed'')"

definition account_case_with_human_review_transition ::
  "jdict \<Rightarrow> string \<Rightarrow> string \<Rightarrow> string \<Rightarrow> jdict" where
  "account_case_with_human_review_transition c reason policy_decision transitioned_at =
     jupdate [(''policy_decision'', JStr policy_decision), (''execution_reason_code'', JStr reason),
              (''updated_at'', JStr transitioned_at)]
       (reconcile_automation_execution_failure c reason None
          [(''policy_decision'', JStr policy_decision)] True)"

section \<open>The tables\<close>

record case_store =
  cs_cases :: "(string, jdict) dict"
  cs_tickets :: "(string, jdict) dict"
  cs_comments :: "(string, (string, jdict) dict) dict"
  cs_comment_sync :: "(string, jdict) dict"
  cs_audit :: "audit_event list"
  cs_idempotency :: idempotency_table
  cs_engineer_events :: engineer_outbox
  cs_zendesk :: zendesk_outbox
  cs_slack :: slack_outbox

definition get_billing_ticket :: "string \<Rightarrow> case_store \<Rightarrow> jdict option" where
  "get_billing_ticket billing_ticket_id s = dget (cs_cases s) (strip billing_ticket_id)"

definition get_billing_ticket_by_client_ticket_id :: "string \<Rightarrow> case_store \<Rightarrow> jdict option" where
  "get_billing_ticket_by_client_ticket_id client_ticket_id s =
     (let k = strip client_ticket_id
      in if k = [] then None
         else find (\<lambda>c. jstrip (jget c ''client_ticket_id'') = k) (dvalues (cs_cases s)))"

definition get_account_case :: "string \<Rightarrow> case_store \<Rightarrow> jdict option" where
  "get_account_case account_case_id s =
     (let k = strip account_case_id
      in case get_billing_ticket k s of
           Some c \<Rightarrow> Some c
         | None \<Rightarrow> find (\<lambda>c. jstrip (jget c ''account_case_id'') = k) (dvalues (cs_cases s)))"

definition get_account_case_by_ticket_id :: "string \<Rightarrow> case_store \<Rightarrow> jdict option" where
  "get_account_case_by_ticket_id ticket_id s = get_billing_ticket_by_client_ticket_id ticket_id s"

definition case_profile :: "jdict \<Rightarrow> string" where
  "case_profile c = jlower_or (jget c ''processing_profile'') ''staging''"

definition get_account_case_by_zendesk_ticket_id :: "string \<Rightarrow> string \<Rightarrow> case_store \<Rightarrow> jdict option" where
  "get_account_case_by_zendesk_ticket_id zendesk_ticket_id processing_profile s =
     find (\<lambda>c. jstrip (jget c ''zendesk_ticket_id'') = strip zendesk_ticket_id \<and>
               case_profile c = slower processing_profile) (dvalues (cs_cases s))"

definition find_account_cases_by_title_since ::
  "string \<Rightarrow> string \<Rightarrow> string \<Rightarrow> int \<Rightarrow> case_store \<Rightarrow> jdict list" where
  "find_account_cases_by_title_since title processing_profile created_since limit s =
     (let t = strip title; since = strip created_since
      in if t = [] \<or> since = [] then []
         else take (nat (max 1 (if limit = 0 then 10 else limit)))
           (sort_key (\<lambda>c. jstr (jget c ''created_at''))
             (filter (\<lambda>c. jstrip (jget c ''title'') = t \<and> case_profile c = slower processing_profile \<and>
                          since \<le> jstr (jget c ''created_at'')) (dvalues (cs_cases s)))))"

text \<open>\<open>self._billing_tickets[key] = _normalize_account_case_record(...)\<close>.\<close>

definition put_case :: "string \<Rightarrow> jdict \<Rightarrow> (case_store, unit) op" where
  "put_case key c s =
     (case normalize_account_case_record c of
        Inl e \<Rightarrow> (Inl e, s)
      | Inr n \<Rightarrow> (Inr (), s\<lparr>cs_cases := dset key n (cs_cases s)\<rparr>))"

definition stored :: "(py_error + unit) \<times> 's \<Rightarrow> (py_error + bool) \<times> 's" where
  "stored res = (map_sum id (\<lambda>_. True) (fst res), snd res)"

section \<open>The internal e-mail of a case\<close>

text \<open>\<open>str(p.get(k) or "").strip() if isinstance(p, dict) else ""\<close> of the stored payload.\<close>

definition email_field :: "string \<Rightarrow> jdict \<Rightarrow> string" where
  "email_field k c = jstrip (jget (jdict (jget c ''internal_email_payload'')) k)"

definition email_status :: "jdict \<Rightarrow> string" where
  "email_status c = jstrip (jget c ''internal_email_send_status'')"

definition email_updated :: "jdict \<Rightarrow> string \<Rightarrow> string \<Rightarrow> string \<Rightarrow> jdict \<Rightarrow> jdict" where
  "email_updated payload status reason at c =
     jupdate [(''internal_email_payload'', JDict payload), (''internal_email_send_status'', JStr status),
              (''internal_email_send_reason'', JStr reason), (''updated_at'', JStr at)] c"

text \<open>The default of \<open>allowed_statuses\<close> of the two operations.\<close>

definition preparable_statuses :: "string list" where
  "preparable_statuses = [''archer_pending'', ''not_applicable'', ''not_ready'', ''pending'', ''retry'',
     ''failed'', ''awaiting_public_reply'']"

definition claimable_statuses :: "string list" where
  "claimable_statuses = [''pending'', ''retry'', ''failed'', ''skipped_config_missing'']"

definition prepare_account_internal_email_delivery ::
  "string \<Rightarrow> string \<Rightarrow> jdict \<Rightarrow> string \<Rightarrow> string list \<Rightarrow> string \<Rightarrow> (case_store, bool) op" where
  "prepare_account_internal_email_delivery account_case_id delivery_key payload prepared_at allowed target_status s =
     (let i = strip account_case_id; k = strip delivery_key; target = or_else (strip target_status) ''pending''
      in if i = [] \<or> k = [] then (Inr False, s)
         else case dfind (\<lambda>c. case_id c = i) (cs_cases s) of
             None \<Rightarrow> (Inr False, s)
           | Some (key, c) \<Rightarrow>
               let current_key = email_field ''delivery_key'' c
               in if current_key \<noteq> [] \<and> current_key \<noteq> k then (Inr False, s)
                  else if email_status c \<notin> set allowed then (Inr False, s)
                  else stored (put_case key (email_updated payload target ''delivery_prepared'' prepared_at c) s))"

text \<open>The ids under which the message of a reply job may have been delivered.\<close>

definition confirmation_ids :: "string \<Rightarrow> json list \<Rightarrow> string list" where
  "confirmation_ids reply_job_id messages =
     filter (\<lambda>i. i \<noteq> []) (concat (map
       (\<lambda>m. let meta = jdict (jget (jdict m) ''meta'')
            in if is_jdict m \<and> jstr (jget meta ''account_reply_job_id'') = reply_job_id
               then [jstrip (jget (jdict m) ''message_id''), jstrip (jget (jdict m) ''id''),
                     jstrip (jget meta ''hermes_delivery_message_id'')]
               else [])
       messages))"

definition public_reply_delivered :: "string \<Rightarrow> string list \<Rightarrow> zendesk_outbox \<Rightarrow> bool" where
  "public_reply_delivered account_case_id message_ids t =
     list_ex (\<lambda>d. strip (zd_account_case_id d) = account_case_id \<and> zd_is_public d \<and>
                  slower (zd_status d) = ''delivered'' \<and> strip (zd_message_id d) \<in> set message_ids)
       (dvalues t)"

definition released_email :: "string \<Rightarrow> jdict \<Rightarrow> jdict" where
  "released_email at c =
     (let context = jdict (jget c ''automation_context'');
          workflow = jget context ''enablement_manual_workflow'';
          u = jupdate [(''internal_email_send_status'', JStr ''pending''),
                       (''internal_email_send_reason'', JStr ''public_reply_confirmed'')] c;
          u' = (if is_jdict workflow
                then dset ''automation_context'' (JDict (dset ''enablement_manual_workflow''
                       (JDict (jupdate [(''state'', JStr ''email_released''), (''updated_at'', JStr at)]
                                 (jdict workflow))) context)) u
                else u)
      in dset ''updated_at'' (JStr at) u')"

text \<open>The reply job of a case, and the messages of its ticket.\<close>

definition email_reply_job :: "jdict \<Rightarrow> string" where
  "email_reply_job c =
     jstrip (jget (jdict (jget (jdict (jget c ''automation_context'')) ''enablement_manual_workflow''))
       ''reply_job_id'')"

definition case_messages :: "jdict \<Rightarrow> case_store \<Rightarrow> json list" where
  "case_messages c s =
     (case dget (cs_tickets s) (jstrip (jget c ''client_ticket_id'')) of
        None \<Rightarrow> [] | Some t \<Rightarrow> jlist (jget t ''messages''))"

definition release_account_internal_email_after_public_reply ::
  "string \<Rightarrow> string \<Rightarrow> (case_store, bool) op" where
  "release_account_internal_email_after_public_reply account_case_id released_at s =
     (let i = strip account_case_id
      in if i = [] then (Inr False, s)
         else case dfind (\<lambda>c. case_id c = i) (cs_cases s) of
             None \<Rightarrow> (Inr False, s)
           | Some (key, c) \<Rightarrow>
               let ids = confirmation_ids (email_reply_job c) (case_messages c s)
               in if email_status c \<noteq> ''awaiting_public_reply'' \<or>
                     jstrip (jget c ''automation_handler'') \<noteq> ''enablement'' \<or>
                     email_reply_job c = [] \<or> jstrip (jget c ''client_ticket_id'') = [] \<or> ids = [] \<or>
                     \<not> public_reply_delivered i ids (cs_zendesk s)
                  then (Inr False, s)
                  else stored (put_case key (released_email released_at c) s))"

definition claim_account_internal_email_delivery ::
  "string \<Rightarrow> string \<Rightarrow> string \<Rightarrow> string \<Rightarrow> jdict \<Rightarrow> string list \<Rightarrow> bool \<Rightarrow> (case_store, bool) op" where
  "claim_account_internal_email_delivery account_case_id delivery_key claim_token claimed_at payload
       allowed require_automation_active s =
     (let i = strip account_case_id; k = strip delivery_key; token = strip claim_token
      in case dfind (\<lambda>c. case_id c = i \<and> email_field ''delivery_key'' c = k) (cs_cases s) of
           None \<Rightarrow> (Inr False, s)
         | Some (key, c) \<Rightarrow>
             let claim = email_field ''delivery_claim_token'' c;
                 replay = (email_status c = ''sending'' \<and> claim = token \<and> claim \<noteq> [])
             in if email_status c \<notin> set allowed \<and> \<not> replay then (Inr False, s)
                else if require_automation_active \<and>
                        jstrip (jget c ''automation_status'') = ''human_review_required''
                then (Inr False, s)
                else stored (put_case key
                       (email_updated (dset ''delivery_claim_token'' (JStr token) payload) ''sending''
                          ''delivery_claimed'' claimed_at c) s))"

definition complete_account_internal_email_delivery ::
  "string \<Rightarrow> string \<Rightarrow> string \<Rightarrow> jdict \<Rightarrow> string \<Rightarrow> string \<Rightarrow> string \<Rightarrow> (case_store, bool) op" where
  "complete_account_internal_email_delivery account_case_id delivery_key claim_token payload send_status
       send_reason completed_at s =
     (case dfind (\<lambda>c. is_jdict (jget c ''internal_email_payload'') \<and> case_id c = strip account_case_id \<and>
                      email_field ''delivery_key'' c = strip delivery_key \<and>
                      email_field ''delivery_claim_token'' c = strip claim_token \<and>
                      email_status c = ''sending'') (cs_cases s) of
        None \<Rightarrow> (Inr False, s)
      | Some (key, c) \<Rightarrow>
          stored (put_case key
            (email_updated (filter (\<lambda>e. fst e \<noteq> ''delivery_claim_token'') payload)
               (or_else (strip (or_else send_status ''failed'')) ''failed'') (strip send_reason) completed_at c) s))"

section \<open>Zendesk comments of a case\<close>

datatype comment_sync =
    StaleIgnored jdict
  | Unchanged jdict
  | IncompleteSnapshot "string list" jdict
  | Synced jdict

definition ticket_comments :: "string \<Rightarrow> case_store \<Rightarrow> (string, jdict) dict" where
  "ticket_comments ticket_id s = (case dget (cs_comments s) ticket_id of None \<Rightarrow> [] | Some d \<Rightarrow> d)"

definition get_account_case_comment_sync :: "string \<Rightarrow> case_store \<Rightarrow> jdict option" where
  "get_account_case_comment_sync ticket_id s = dget (cs_comment_sync s) (strip ticket_id)"

definition store_comments ::
  "string \<Rightarrow> string \<Rightarrow> string \<Rightarrow> zendesk_comment list \<Rightarrow> (string, jdict) dict \<Rightarrow> (string, jdict) dict" where
  "store_comments cid ticket_id synced_at comments d =
     fold (\<lambda>c acc. dset (zc_zendesk_comment_id c)
            (jupdate [(''account_case_id'', JStr cid), (''client_ticket_id'', JStr ticket_id),
               (''synced_at'', JStr synced_at)] (storage_payload c)) acc) comments d"

definition sync_state :: "string \<Rightarrow> string \<Rightarrow> comment_snapshot \<Rightarrow> string \<Rightarrow> nat \<Rightarrow> jdict" where
  "sync_state cid ticket_id snap synced_at n =
     [(''account_case_id'', JStr cid), (''client_ticket_id'', JStr ticket_id),
      (''source_updated_at'', JStr (sn_source_updated_at snap)),
      (''snapshot_hash'', JStr (sn_snapshot_hash snap)),
      (''comments_revision'', JStr (sn_comments_revision snap)),
      (''comment_count'', JInt (int n)), (''synced_at'', JStr synced_at)]"

text \<open>Storing a snapshot that is newer, different and complete.\<close>

definition store_snapshot ::
  "string \<Rightarrow> string \<Rightarrow> comment_snapshot \<Rightarrow> string \<Rightarrow> case_store \<Rightarrow> jdict \<times> case_store" where
  "store_snapshot i t snap synced_at s =
     (let existing = map fst (ticket_comments t s);
          comments = store_comments i t synced_at (sn_comments snap) (ticket_comments t s);
          state = sync_state i t snap synced_at (length comments)
      in (state, s\<lparr> cs_comments := dset t comments (cs_comments s),
            cs_comment_sync := dset t state (cs_comment_sync s),
            cs_audit := record_workspace_audit_event ''account_zendesk_comments_synced''
              ''zendesk_n8n'' (Some i)
              [(''status'', JStr ''synced''), (''client_ticket_id'', JStr t),
               (''source_updated_at'', JStr (sn_source_updated_at snap)),
               (''comment_count'', JInt (int (length comments))),
               (''new_comment_count'', JInt (int (length
                  (remdups (filter (\<lambda>c. c \<notin> set existing) (comment_ids (sn_comments snap)))))))]
              synced_at (cs_audit s) \<rparr>))"

definition sync_account_case_comments ::
  "string \<Rightarrow> string \<Rightarrow> comment_snapshot \<Rightarrow> string \<Rightarrow> (case_store, comment_sync) op" where
  "sync_account_case_comments ticket_id account_case_id snap synced_at s =
     (let t = strip ticket_id; i = strip account_case_id;
          owner = get_account_case_by_ticket_id t s
      in if t = [] \<or> i = [] \<or> map_option case_id owner \<noteq> Some i
         then (Inl (KeyError (or_else t i)), s)
         else
           let state = dget (cs_comment_sync s) t;
               current = (case state of None \<Rightarrow> [] | Some d \<Rightarrow> d);
               current_source = jstrip (jget current ''source_updated_at'')
           in if current_source \<noteq> [] \<and> sn_source_updated_at snap < current_source
              then (Inr (StaleIgnored current), s)
              else if current \<noteq> [] \<and> jstr (jget current ''snapshot_hash'') = sn_snapshot_hash snap
              then (Inr (Unchanged current), s)
              else
                let missing = sort (filter (\<lambda>c. c \<notin> set (comment_ids (sn_comments snap)))
                      (map fst (ticket_comments t s)))
                in if missing \<noteq> [] then (Inr (IncompleteSnapshot missing current), s)
                   else let stored = store_snapshot i t snap synced_at s
                        in (Inr (Synced (fst stored)), snd stored))"

section \<open>The Zendesk status of a case\<close>

text \<open>
  \<open>_canonical_account_revision_timestamp\<close> of a text: the UTC time with microseconds, or the text
  itself when it is no timestamp. A time without a zone is taken as UTC; one whose UTC time
  leaves the calendar raises.
\<close>

definition canonical_account_revision_timestamp :: "json \<Rightarrow> py_error + string" where
  "canonical_account_revision_timestamp value =
     (if value = JNull then Inr []
      else let text = strip (py_str value)
           in if text = [] then Inr []
              else case parse_iso text of
                  None \<Rightarrow> Inr text
                | Some d \<Rightarrow>
                    if valid_instant (utc_instant d) then Inr (iso_micros (utc_instant d))
                    else Inl (OverflowError ''date value out of range''))"

text \<open>Is revision \<open>a\<close> before revision \<open>b\<close>?\<close>

definition revision_before :: "json \<Rightarrow> json \<Rightarrow> py_error + bool" where
  "revision_before a b =
     sbind (canonical_account_revision_timestamp a)
       (\<lambda>x. sbind (canonical_account_revision_timestamp b) (\<lambda>y. Inr (x < y)))"

definition zendesk_sync_statuses :: "string list" where
  "zendesk_sync_statuses = [''new'', ''open'', ''pending'', ''hold'', ''solved'', ''closed'']"

definition closed_statuses :: "string list" where
  "closed_statuses = [''solved'', ''closed'']"

record transition =
  tr_prior_zendesk_status :: "string option"
  tr_automation_context :: jdict
  tr_automation_status :: string
  tr_close_local_ticket :: bool
  tr_restored :: "string option"

datatype plan = PlanUnchanged | PlanStale | PlanUpdated transition

definition closing_context :: "jdict \<Rightarrow> string \<Rightarrow> string \<Rightarrow> jdict" where
  "closing_context context automation synced_at =
     (let snapshot = jdict (jget context ''zendesk_status_sync'');
          prior = (if automation = ''closed'' then jget snapshot ''prior_automation_status'' else JStr automation)
      in dset ''zendesk_status_sync''
           (JDict (jupdate [(''prior_automation_status'', jopt (jstrip prior)), (''closed_at'', JStr synced_at)]
                     snapshot)) context)"

definition planned_transition ::
  "string option \<Rightarrow> string \<Rightarrow> jdict \<Rightarrow> string \<Rightarrow> string \<Rightarrow> transition" where
  "planned_transition current automation context incoming synced_at =
     (let was_closed = (ostr current \<in> set closed_statuses);
          prior = jstrip (jget (jdict (jget context ''zendesk_status_sync'')) ''prior_automation_status'')
      in if incoming \<in> set closed_statuses \<and> \<not> was_closed
         then \<lparr> tr_prior_zendesk_status = current,
                tr_automation_context = closing_context context automation synced_at,
                tr_automation_status = ''closed'', tr_close_local_ticket = True, tr_restored = None \<rparr>
         else if incoming \<notin> set closed_statuses \<and> was_closed \<and> automation = ''closed'' \<and> prior \<noteq> []
         then \<lparr> tr_prior_zendesk_status = current, tr_automation_context = context,
                tr_automation_status = prior, tr_close_local_ticket = False, tr_restored = Some prior \<rparr>
         else \<lparr> tr_prior_zendesk_status = current, tr_automation_context = context,
                tr_automation_status = automation, tr_close_local_ticket = False, tr_restored = None \<rparr>)"

definition plan_account_zendesk_status_transition ::
  "json \<Rightarrow> json \<Rightarrow> json \<Rightarrow> string \<Rightarrow> json \<Rightarrow> json \<Rightarrow> string \<Rightarrow> py_error + plan" where
  "plan_account_zendesk_status_transition current_zendesk current_automation automation_context incoming
       source_updated_at stored_updated_at synced_at =
     (let current = or_none (jlower current_zendesk)
      in if current = Some incoming then Inr PlanUnchanged
         else sbind (if jstrip source_updated_at \<noteq> [] \<and> stored_updated_at \<noteq> JNull
                     then revision_before source_updated_at stored_updated_at else Inr False)
           (\<lambda>stale. if stale then Inr PlanStale
              else Inr (PlanUpdated (planned_transition current (jstrip current_automation)
                          (jdict automation_context) incoming synced_at))))"

text \<open>The revision of a native event against the stored one; it must carry a zone.\<close>

datatype watermark = Newer | Same | Older

definition native_status_watermark :: "string \<Rightarrow> json \<Rightarrow> py_error + watermark" where
  "native_status_watermark source stored_at =
     (case parse_iso source of
        None \<Rightarrow> Inl (ValueError (''Invalid isoformat string: '' @ repr_str (z_replace source)))
      | Some (Naive _) \<Rightarrow> Inl (ValueError ''native status source_updated_at requires timezone'')
      | Some (Aware _ _) \<Rightarrow>
          if stored_at = JNull then Inr Newer
          else sbind (canonical_account_revision_timestamp (JStr source))
            (\<lambda>incoming. sbind (canonical_account_revision_timestamp stored_at)
            (\<lambda>previous. Inr (if incoming < previous then Older
               else if incoming = previous then Same else Newer))))"

record native_notification =
  nn_scope :: string
  nn_key :: string
  nn_payload :: jdict

text \<open>The payload of the notification, with the status before and after.\<close>

definition native_status_intent :: "native_notification \<Rightarrow> string option \<Rightarrow> string \<Rightarrow> jdict" where
  "native_status_intent n prior current =
     jupdate [(''prior_status'', JStr (lower (or_else (ostr prior) ''unknown''))),
              (''current_status'', JStr current)] (nn_payload n)"

record status_report =
  sp_status :: string
  sp_account_case_id :: string
  sp_client_ticket_id :: json
  sp_zendesk_ticket_status :: json
  sp_zendesk_status_synced_at :: json
  sp_automation_status :: json
  sp_local_ticket_closed :: bool
  sp_restored_automation_status :: "string option"
  sp_engineer_slack_event_queued :: bool

definition unchanged_report :: "string \<Rightarrow> jdict \<Rightarrow> status_report" where
  "unchanged_report outcome c =
     \<lparr> sp_status = outcome, sp_account_case_id = case_id c, sp_client_ticket_id = jget c ''client_ticket_id'',
       sp_zendesk_ticket_status = jget c ''zendesk_ticket_status'',
       sp_zendesk_status_synced_at = jget c ''zendesk_status_synced_at'',
       sp_automation_status = jget c ''automation_status'', sp_local_ticket_closed = False,
       sp_restored_automation_status = None, sp_engineer_slack_event_queued = False \<rparr>"

text \<open>The local ticket is resolved unless it is already.\<close>

definition resolved_ticket :: "string \<Rightarrow> jdict \<Rightarrow> jdict" where
  "resolved_ticket at t =
     jupdate [(''status'', JStr ''resolved''), (''closed_at'', JStr at), (''updated_at'', JStr at)] t"

definition close_ticket :: "string \<Rightarrow> string \<Rightarrow> case_store \<Rightarrow> bool \<times> case_store" where
  "close_ticket ticket_id at s =
     (case dget (cs_tickets s) ticket_id of
        Some t \<Rightarrow>
          if ticket_id \<noteq> [] \<and> jlower (jget t ''status'') \<noteq> ''resolved''
          then (True, s\<lparr>cs_tickets := dset ticket_id (resolved_ticket at t) (cs_tickets s)\<rparr>)
          else (False, s)
      | None \<Rightarrow> (False, s))"

definition status_updated_case :: "transition \<Rightarrow> string \<Rightarrow> string option \<Rightarrow> string \<Rightarrow> jdict \<Rightarrow> jdict" where
  "status_updated_case p zendesk_status source_updated_at synced_at c =
     jupdate [(''zendesk_ticket_status'', JStr zendesk_status),
              (''zendesk_status_updated_at'', JStr (or_else (ostrip source_updated_at) synced_at)),
              (''zendesk_status_synced_at'', JStr synced_at),
              (''automation_status'', JStr (tr_automation_status p)),
              (''automation_context'', JDict (tr_automation_context p)),
              (''updated_at'', JStr synced_at)] c"

definition status_audit_payload :: "transition \<Rightarrow> string \<Rightarrow> bool \<Rightarrow> string option \<Rightarrow> jdict" where
  "status_audit_payload p zendesk_status local_closed source_updated_at =
     [(''status'', JStr ''updated''), (''zendesk_status'', JStr zendesk_status),
      (''prior_zendesk_status'', of_opt (tr_prior_zendesk_status p)),
      (''local_ticket_closed'', JBool local_closed),
      (''restored_automation_status'', of_opt (tr_restored p)),
      (''automation_status'', JStr (tr_automation_status p)),
      (''source_updated_at'', of_opt (or_none (ostrip source_updated_at)))]"

text \<open>The update itself; the key the case is stored under is its billing id, or its own id.\<close>

definition apply_status ::
  "transition \<Rightarrow> string \<Rightarrow> string option \<Rightarrow> string \<Rightarrow> jdict option \<Rightarrow> native_notification option \<Rightarrow> jdict
    \<Rightarrow> (case_store, status_report) op" where
  "apply_status p zendesk_status source_updated_at synced_at slack_event notification c s =
     (let i = case_id c;
          client_ticket_id = jstrip (jget c ''client_ticket_id'');
          (local_closed, s1) = (if tr_close_local_ticket p then close_ticket client_ticket_id synced_at s
                                else (False, s));
          key = or_else (jstrip (jget c ''billing_ticket_id'')) i
      in case put_case key (status_updated_case p zendesk_status source_updated_at synced_at c) s1 of
           (Inl e, s2) \<Rightarrow> (Inl e, s2)
         | (Inr _, s2) \<Rightarrow>
             let s3 = s2\<lparr>cs_audit := record_workspace_audit_event ''account_zendesk_status_synced'' ''zendesk_n8n''
                   (Some i) (status_audit_payload p zendesk_status local_closed source_updated_at) synced_at
                   (cs_audit s2)\<rparr>;
                 s4 = (case notification of None \<Rightarrow> s3
                       | Some n \<Rightarrow> s3\<lparr>cs_idempotency := snd (enqueue_native_notification (nn_scope n) (nn_key n)
                           (native_status_intent n (tr_prior_zendesk_status p) zendesk_status) synced_at
                           (cs_idempotency s3))\<rparr>);
                 report = (\<lambda>queued. \<lparr> sp_status = ''updated'', sp_account_case_id = i,
                   sp_client_ticket_id = jopt client_ticket_id, sp_zendesk_ticket_status = JStr zendesk_status,
                   sp_zendesk_status_synced_at = JStr synced_at,
                   sp_automation_status = JStr (tr_automation_status p), sp_local_ticket_closed = local_closed,
                   sp_restored_automation_status = tr_restored p, sp_engineer_slack_event_queued = queued \<rparr>)
             in case slack_event of
                  None \<Rightarrow> (Inr (report False), s4)
                | Some e \<Rightarrow>
                    if jlower (jget c ''automation_status'') \<noteq> ''not_automated'' then (Inr (report False), s4)
                    else case enqueue_engineer_slack_event e synced_at (cs_engineer_events s4) of
                        (Inl err, _) \<Rightarrow> (Inl err, s4)
                      | (Inr _, events) \<Rightarrow> (Inr (report True), s4\<lparr>cs_engineer_events := events\<rparr>))"

text \<open>The outcome of the plan.\<close>

definition finish_status ::
  "plan \<Rightarrow> string \<Rightarrow> string option \<Rightarrow> string \<Rightarrow> jdict option \<Rightarrow> native_notification option \<Rightarrow> jdict
    \<Rightarrow> (case_store, status_report) op" where
  "finish_status plan status source_updated_at synced_at slack_event notification c s =
     (case plan of
        PlanUnchanged \<Rightarrow> (Inr (unchanged_report ''unchanged'' c), s)
      | PlanStale \<Rightarrow> (Inr (unchanged_report ''stale_ignored'' c), s)
      | PlanUpdated tr \<Rightarrow> apply_status tr status source_updated_at synced_at slack_event notification c s)"

definition update_account_case_zendesk_status ::
  "string \<Rightarrow> string \<Rightarrow> string \<Rightarrow> string option \<Rightarrow> jdict option \<Rightarrow> native_notification option
    \<Rightarrow> (case_store, status_report) op" where
  "update_account_case_zendesk_status account_case_id zendesk_status synced_at source_updated_at slack_event
       notification s =
     (let i = strip account_case_id; status = slower zendesk_status
      in if i = [] then (Inl (ValueError ''account_case_id is required''), s)
         else if status \<notin> set zendesk_sync_statuses then (Inl (ValueError ''invalid Zendesk ticket status''), s)
         else case get_account_case i s of
             None \<Rightarrow> (Inl (KeyError i), s)
           | Some c \<Rightarrow>
               (case plan_account_zendesk_status_transition (jget c ''zendesk_ticket_status'')
                       (jget c ''automation_status'') (jget c ''automation_context'') status
                       (of_opt source_updated_at) (jget c ''zendesk_status_updated_at'') synced_at of
                  Inl e \<Rightarrow> (Inl e, s)
                | Inr plan \<Rightarrow>
                    if notification = None
                    then finish_status plan status source_updated_at synced_at slack_event notification c s
                    else case native_status_watermark (ostr source_updated_at)
                                (jget c ''zendesk_status_updated_at'') of
                        Inl e \<Rightarrow> (Inl e, s)
                      | Inr Older \<Rightarrow> finish_status PlanStale status source_updated_at synced_at slack_event notification c s
                      | Inr w \<Rightarrow>
                          if plan = PlanUnchanged \<and> w = Newer then
                            (let c' = jupdate [(''zendesk_status_updated_at'', JStr (ostr source_updated_at)),
                                               (''zendesk_status_synced_at'', JStr synced_at)] c
                             in case put_case (or_else (jstrip (jget c ''billing_ticket_id'')) (case_id c)) c' s of
                                  (Inl e, s') \<Rightarrow> (Inl e, s')
                                | (Inr _, s') \<Rightarrow>
                                    finish_status PlanUnchanged status source_updated_at synced_at slack_event notification c' s')
                          else finish_status plan status source_updated_at synced_at slack_event notification c s))"

section \<open>The result of a Zendesk comment\<close>

definition result_status :: "jdict \<Rightarrow> string" where
  "result_status result = jlower_or (jget result ''status'') ''failed''"

text \<open>The request of the comment: completed by an added comment, failed by another result, once completed final.\<close>

definition settle_request :: "jdict \<Rightarrow> string \<Rightarrow> idempotency_record \<Rightarrow> idempotency_record" where
  "settle_request result at r =
     (if slower (ir_state r) = ''completed'' then r
      else r\<lparr>ir_state := (if result_status result = ''added'' then ''completed'' else ''failed''),
             ir_response := Some result, ir_updated_at := at\<rparr>)"

text \<open>The first message the id denotes gets the result, unless an added comment is recorded already.\<close>

definition message_has_id :: "string \<Rightarrow> string \<Rightarrow> int \<Rightarrow> jdict \<Rightarrow> bool" where
  "message_has_id ticket_id message_id n m \<longleftrightarrow>
     message_id \<in> {jstrip (jget m ''message_id''), jstrip (jget m ''id''), ticket_id @ '':'' @ show_int n}"

definition commented_message :: "string \<Rightarrow> jdict \<Rightarrow> string \<Rightarrow> jdict \<Rightarrow> jdict" where
  "commented_message message_id result at m =
     (let note = dset ''updated_at'' (JStr at) result;
          note' = (if result_status result = ''added'' then dset ''added_at'' (JStr at) note else note)
      in jupdate [(''meta'', JDict (dset ''zendesk_internal_comment'' (JDict note') (jdict (jget m ''meta'')))),
                  (''message_id'', JStr message_id)] m)"

fun record_on_message ::
  "string \<Rightarrow> string \<Rightarrow> jdict \<Rightarrow> string \<Rightarrow> int \<Rightarrow> json list \<Rightarrow> json list \<times> bool" where
  "record_on_message ticket_id message_id result at n [] = ([], False)"
| "record_on_message ticket_id message_id result at n (m # ms) =
     (if is_jdict m \<and> message_has_id ticket_id message_id n (jdict m) then
        (let recorded = jget (jdict (jget (jdict m) ''meta'')) ''zendesk_internal_comment''
         in if result_status result = ''added'' \<or> jlower (jget (jdict recorded) ''status'') \<noteq> ''added''
            then (JDict (commented_message message_id result at (jdict m)) # ms, True)
            else (m # ms, False))
      else let (ms', updated) = record_on_message ticket_id message_id result at (n + 1) ms
           in (m # ms', updated))"

definition record_on_ticket ::
  "string \<Rightarrow> string \<Rightarrow> jdict \<Rightarrow> string \<Rightarrow> case_store \<Rightarrow> bool \<times> case_store" where
  "record_on_ticket ticket_id message_id result at s =
     (case dget (cs_tickets s) ticket_id of
        None \<Rightarrow> (False, s)
      | Some t \<Rightarrow>
          let (ms, updated) = record_on_message ticket_id message_id result at 0 (jlist (jget t ''messages''))
          in if updated
             then (True, s\<lparr>cs_tickets := dset ticket_id
                     (jupdate [(''messages'', JList ms), (''updated_at'', JStr at)] t) (cs_tickets s)\<rparr>)
             else (False, s))"

text \<open>The row of the comment outbox: a delivered row is final.\<close>

definition settle_delivery :: "jdict \<Rightarrow> string \<Rightarrow> zendesk_delivery \<Rightarrow> zendesk_delivery" where
  "settle_delivery result at d =
     (let status = result_status result; target = (if status = ''added'' then ''delivered'' else status)
      in if slower (zd_status d) = ''delivered'' then d
         else d\<lparr> zd_status := target,
                 zd_zendesk_comment_id := or_none (jstrip (jget result ''comment_id'')),
                 zd_failure_code := or_none (jstrip (jget result ''error_code'')),
                 zd_confirmed_at := (if target = ''delivered'' then Some at else None),
                 zd_updated_at := at \<rparr>)"

text \<open>The case of a ticket that a solved comment closed.\<close>

definition solved_case :: "string \<Rightarrow> jdict \<Rightarrow> jdict" where
  "solved_case at c =
     (let u = jupdate [(''zendesk_ticket_status'', JStr ''solved''), (''zendesk_status_updated_at'', JStr at),
                       (''zendesk_status_synced_at'', JStr at), (''updated_at'', JStr at)] c;
          context = jdict (jget c ''automation_context'');
          workflow = jget context ''account_suspension_contact_workflow''
      in if jstrip (jget c ''automation_handler'') = ''account_suspension'' \<and> is_jdict workflow
         then dset ''automation_context'' (JDict (dset ''account_suspension_contact_workflow''
                (JDict (jupdate [(''state'', JStr ''closed''), (''updated_at'', JStr at)] (jdict workflow)))
                context)) u
         else u)"

definition close_solved :: "string \<Rightarrow> string \<Rightarrow> string \<Rightarrow> case_store \<Rightarrow> (py_error + unit) \<times> case_store" where
  "close_solved i ticket_id at s =
     (case dget (cs_tickets s) ticket_id of
        None \<Rightarrow> (Inl (AttributeError ''NoneType has no attribute get''), s)
      | Some t \<Rightarrow>
          if jlower (jget t ''status'') = ''resolved'' then (Inr (), s)
          else (Inr (), s\<lparr> cs_tickets := dset ticket_id (resolved_ticket at t) (cs_tickets s),
                  cs_cases := (case dget (cs_cases s) i of None \<Rightarrow> cs_cases s
                    | Some c \<Rightarrow> dset i (solved_case at c) (cs_cases s)) \<rparr>))"

record comment_report =
  rr_audit_persisted :: bool
  rr_delivery :: "zendesk_delivery option"

text \<open>The last part, for a delivery that exists.\<close>

definition settled_result ::
  "string \<Rightarrow> string \<Rightarrow> string \<Rightarrow> jdict \<Rightarrow> string \<Rightarrow> bool \<Rightarrow> bool \<Rightarrow> zendesk_delivery
    \<Rightarrow> (case_store, comment_report) op" where
  "settled_result i t m result recorded_at close_local_ticket updated d s =
     (let d' = settle_delivery result recorded_at d; added = (result_status result = ''added'');
          s' = s\<lparr> cs_zendesk := dset (i, m) d' (cs_zendesk s),
                  cs_slack := (if added \<and> zd_is_public d
                    then release_slack_deliveries i m recorded_at (cs_slack s) else cs_slack s) \<rparr>;
          report = \<lparr>rr_audit_persisted = updated, rr_delivery = Some d'\<rparr>
      in if close_local_ticket \<and> added \<and> olower (zd_target_status d) = ''solved''
         then (case close_solved i t recorded_at s' of
                 (Inl e, s'') \<Rightarrow> (Inl e, s'')
               | (Inr _, s'') \<Rightarrow> (Inr report, s''))
         else (Inr report, s'))"

definition record_account_zendesk_internal_comment_result ::
  "string \<Rightarrow> string \<Rightarrow> string \<Rightarrow> string \<Rightarrow> jdict \<Rightarrow> string \<Rightarrow> bool \<Rightarrow> (case_store, comment_report) op" where
  "record_account_zendesk_internal_comment_result account_case_id ticket_id message_id idempotency_key result
       recorded_at close_local_ticket s =
     (let i = strip account_case_id; t = strip ticket_id; m = strip message_id; k = strip idempotency_key;
          scope = (''account_zendesk_internal_comment'', k)
      in if i = [] \<or> t = [] \<or> m = [] \<or> k = []
         then (Inl (ValueError ''account case, ticket, message, and idempotency key are required''), s)
         else if result_status result \<notin> {''added'', ''failed'', ''outcome_unknown''}
         then (Inl (ValueError ''invalid Zendesk internal comment result status''), s)
         else case dget (cs_idempotency s) scope of
             None \<Rightarrow> (Inl (ValueError ''idempotency request was not started''), s)
           | Some r \<Rightarrow>
               let s1 = s\<lparr>cs_idempotency := dset scope (settle_request result recorded_at r) (cs_idempotency s)\<rparr>;
                   (updated, s2) = record_on_ticket t m result recorded_at s1
               in (case dget (cs_zendesk s2) (i, m) of
                     None \<Rightarrow> (Inr \<lparr>rr_audit_persisted = updated, rr_delivery = None\<rparr>, s2)
                   | Some d \<Rightarrow> settled_result i t m result recorded_at close_local_ticket updated d s2))"

section \<open>Lemmas\<close>

subsection \<open>The normal form\<close>

lemma jget_fill_missing:
  "wf_dict metadata \<Longrightarrow> jget (fill_missing metadata c) k =
     (if (jget c k = JNull \<or> jget c k = JStr []) \<and> k \<in> fst ` set metadata then jget metadata k else jget c k)"
proof (induction metadata arbitrary: c)
  case Nil
  then show ?case by (simp add: fill_missing_def)
next
  case (Cons e metadata)
  obtain j v where e: "e = (j, v)" by (cases e)
  let ?c = "if jget c j = JNull \<or> jget c j = JStr [] then dset j v c else c"
  have "fill_missing (e # metadata) c = fill_missing metadata ?c" by (simp add: fill_missing_def e)
  with Cons show ?case by (auto simp: e)
qed

lemma route_metadata_keys:
  "wf_dict (route_metadata a b st h)"
  "fst ` set (route_metadata a b st h) = {''category'', ''subcategory'', ''route_status'', ''automation_handler''}"
  by (simp_all add: route_metadata_def)

lemma metadata_forms:
  "\<exists>a b st h. backend_operation_metadata x = route_metadata a b st h"
  "\<exists>a b st h. account_billing_metadata x = route_metadata a b st h"
  "\<exists>a b st h. automation_metadata x y = route_metadata a b st h"
proof -
  show "\<exists>a b st h. backend_operation_metadata x = route_metadata a b st h"
    unfolding backend_operation_metadata_def Let_def by blast
  show "\<exists>a b st h. account_billing_metadata x = route_metadata a b st h"
    unfolding account_billing_metadata_def Let_def by blast
  show "\<exists>a b st h. automation_metadata x y = route_metadata a b st h"
    unfolding automation_metadata_def Let_def
    by (cases "if jlower x \<in> {''automated'', ''billing_automation''} \<and>
        canonical_automation_subcategory y \<in> set active_automation_subcategories
      then handler_for_subcategory (canonical_automation_subcategory y) else None") (simp_all only: option.case, blast+)
qed

lemma case_metadata_form: "\<exists>a b st h. case_metadata c = route_metadata a b st h"
  unfolding case_metadata_def Let_def using metadata_forms by (simp only: split: if_split) blast

lemma metadata_keys:
  "wf_dict (case_metadata c)"
  "fst ` set (case_metadata c) = {''category'', ''subcategory'', ''route_status'', ''automation_handler''}"
  using case_metadata_form [of c] route_metadata_keys by metis+

definition identity_keys :: "string list" where
  "identity_keys = [''billing_ticket_id'', ''account_case_id'', ''processing_profile'', ''zendesk_ticket_id'',
     ''zendesk_ticket_status'', ''origin_staging_case_id'', ''rule_release'']"

definition route_keys :: "string list" where
  "route_keys = [''category'', ''subcategory'', ''route_status'', ''automation_handler'']"

definition execution_keys :: "string list" where
  "execution_keys = [''route_family'', ''execution_action'', ''route'']"

lemma jget_setdefault [simp]: "jget (setdefault j v d) k = (if k = j \<and> dget d j = None then v else jget d k)"
  by (auto simp: jget_def dget_setdefault split: option.split)

lemma identified_other: "k \<notin> set identity_keys \<Longrightarrow> jget (identified i p c) k = jget c k"
  by (simp add: identified_def identity_keys_def)

text \<open>What a stored case keeps of the case that was saved.\<close>

lemma normalize_cases:
  assumes "normalize_account_case_record c = Inr n"
  obtains i p where "i = jstrip (jor (jget c ''billing_ticket_id'') (jget c ''account_case_id''))" "i \<noteq> []"
    "p \<in> set account_processing_profiles"
    "n = fill_missing (case_metadata (identified i p c)) (identified i p c) \<or>
     n = setdefault ''route'' (jget (case_metadata (identified i p c)) ''subcategory'')
        (setdefault ''execution_action'' (jget (case_metadata (identified i p c)) ''subcategory'')
          (dset ''route_family'' (JStr ''automated'')
            (fill_missing (case_metadata (identified i p c)) (identified i p c))))"
  using assms that
  by (auto simp: normalize_account_case_record_def normalize_account_processing_profile_def Let_def
      split: if_splits)

lemma normalize_other:
  assumes "normalize_account_case_record c = Inr n"
    "k \<notin> set (identity_keys @ route_keys @ execution_keys)"
  shows "jget n k = jget c k"
  using assms(1)
proof (rule normalize_cases)
  fix i p
  assume n: "n = fill_missing (case_metadata (identified i p c)) (identified i p c) \<or>
     n = setdefault ''route'' (jget (case_metadata (identified i p c)) ''subcategory'')
        (setdefault ''execution_action'' (jget (case_metadata (identified i p c)) ''subcategory'')
          (dset ''route_family'' (JStr ''automated'')
            (fill_missing (case_metadata (identified i p c)) (identified i p c))))"
  have "k \<notin> fst ` set (case_metadata (identified i p c))"
    using assms(2) unfolding metadata_keys by (auto simp: route_keys_def)
  then have "jget (fill_missing (case_metadata (identified i p c)) (identified i p c)) k = jget c k"
    using assms(2) by (simp add: jget_fill_missing metadata_keys(1) identified_other)
  with n assms(2) show ?thesis by (auto simp: execution_keys_def)
qed

lemma normalize_route:
  assumes "normalize_account_case_record c = Inr n" "k \<in> set route_keys" "jget c k \<noteq> JNull" "jget c k \<noteq> JStr []"
  shows "jget n k = jget c k"
  using assms(1)
proof (rule normalize_cases)
  fix i p
  assume n: "n = fill_missing (case_metadata (identified i p c)) (identified i p c) \<or>
     n = setdefault ''route'' (jget (case_metadata (identified i p c)) ''subcategory'')
        (setdefault ''execution_action'' (jget (case_metadata (identified i p c)) ''subcategory'')
          (dset ''route_family'' (JStr ''automated'')
            (fill_missing (case_metadata (identified i p c)) (identified i p c))))"
  have "k \<notin> set identity_keys" "k \<notin> set execution_keys"
    using assms(2) by (auto simp: route_keys_def identity_keys_def execution_keys_def)
  then have "jget (fill_missing (case_metadata (identified i p c)) (identified i p c)) k = jget c k"
    using assms(3,4) by (simp add: jget_fill_missing metadata_keys(1) identified_other)
  with n \<open>k \<notin> set execution_keys\<close> show ?thesis by (auto simp: execution_keys_def)
qed

lemma normalize_identity:
  assumes "normalize_account_case_record c = Inr n"
  shows "jget n ''billing_ticket_id'' =
      JStr (jstrip (jor (jget c ''billing_ticket_id'') (jget c ''account_case_id'')))"
    "jstrip (jget n ''billing_ticket_id'') \<noteq> []" "case_id c \<noteq> [] \<Longrightarrow> case_id n = case_id c"
    "\<exists>p \<in> set account_processing_profiles. jget n ''processing_profile'' = JStr p"
proof -
  have *: "jget n ''billing_ticket_id'' =
        JStr (jstrip (jor (jget c ''billing_ticket_id'') (jget c ''account_case_id''))) \<and>
      jstrip (jor (jget c ''billing_ticket_id'') (jget c ''account_case_id'')) \<noteq> [] \<and>
      (\<exists>p \<in> set account_processing_profiles. jget n ''processing_profile'' = JStr p) \<and>
      jget n ''account_case_id'' = JStr (strip (if truthy (jget c ''account_case_id'')
           then py_str (jget c ''account_case_id'')
           else jstrip (jor (jget c ''billing_ticket_id'') (jget c ''account_case_id''))))"
    using assms
  proof (rule normalize_cases)
    fix i p
    assume a: "i = jstrip (jor (jget c ''billing_ticket_id'') (jget c ''account_case_id''))" "i \<noteq> []"
      "p \<in> set account_processing_profiles"
      "n = fill_missing (case_metadata (identified i p c)) (identified i p c) \<or>
       n = setdefault ''route'' (jget (case_metadata (identified i p c)) ''subcategory'')
        (setdefault ''execution_action'' (jget (case_metadata (identified i p c)) ''subcategory'')
          (dset ''route_family'' (JStr ''automated'')
            (fill_missing (case_metadata (identified i p c)) (identified i p c))))"
    have "jget n k = jget (identified i p c) k" if "k \<in> set identity_keys" for k
    proof -
      have "k \<notin> fst ` set (case_metadata (identified i p c))" "k \<notin> set execution_keys"
        using that unfolding metadata_keys by (auto simp: identity_keys_def execution_keys_def)
      then show ?thesis
        using a(4) by (auto simp: jget_fill_missing metadata_keys(1) execution_keys_def)
    qed
    then show ?thesis using a(1-3) by (simp add: identity_keys_def identified_def)
  qed
  then show "jget n ''billing_ticket_id'' =
      JStr (jstrip (jor (jget c ''billing_ticket_id'') (jget c ''account_case_id'')))"
    "jstrip (jget n ''billing_ticket_id'') \<noteq> []"
    "\<exists>p \<in> set account_processing_profiles. jget n ''processing_profile'' = JStr p" by simp_all
  show "case_id n = case_id c" if "case_id c \<noteq> []"
    using * that by (auto simp: case_id_def jor_def jstrip_def jstr_def split: if_splits)
qed

subsection \<open>The transition of a status\<close>

text \<open>The status, the automation status and the context of a case after an event without a source time.\<close>

definition follow_status :: "string \<Rightarrow> json \<times> json \<times> json \<Rightarrow> string \<Rightarrow> json \<times> json \<times> json" where
  "follow_status at = (\<lambda>(zendesk, automation, context) incoming.
     case plan_account_zendesk_status_transition zendesk automation context incoming JNull JNull at of
       Inr (PlanUpdated p) \<Rightarrow> (JStr incoming, JStr (tr_automation_status p), JDict (tr_automation_context p))
     | _ \<Rightarrow> (zendesk, automation, context))"

lemma status_literals [simp]:
  "slower ''solved'' = ''solved''" "slower ''closed'' = ''closed''" "strip ''closed'' = ''closed''"
  by code_simp+

lemma closed_slower: "st \<in> set closed_statuses \<Longrightarrow> slower st = st \<and> st \<noteq> []"
  by (auto simp: closed_statuses_def)

text \<open>A case closed by an event remembers the automation status it had.\<close>

definition closed_from :: "string \<Rightarrow> json \<times> json \<times> json \<Rightarrow> bool" where
  "closed_from a = (\<lambda>(zendesk, automation, context). jlower zendesk \<in> set closed_statuses \<and>
     automation = JStr ''closed'' \<and>
     jstrip (jget (jdict (jget (jdict context) ''zendesk_status_sync'')) ''prior_automation_status'') = a)"

lemma follow_close:
  assumes "jlower zendesk \<notin> set closed_statuses" "jstrip automation = a" "a \<noteq> ''closed''"
    "incoming \<in> set closed_statuses"
  shows "closed_from a (follow_status at (zendesk, automation, context) incoming)"
proof -
  have "or_none (jlower zendesk) \<noteq> Some incoming"
    using assms(1,4) by (auto simp: or_none_def split: if_splits)
  moreover have "ostr (or_none (jlower zendesk)) \<notin> set closed_statuses" using assms(1) by simp
  moreover have "strip a = a" using assms(2) by (metis strip_jstrip(1))
  ultimately show ?thesis
    using assms closed_slower [OF assms(4)]
    by (simp add: follow_status_def plan_account_zendesk_status_transition_def planned_transition_def Let_def closed_from_def
        closing_context_def)
qed

lemma follow_closed:
  assumes "closed_from a st" "incoming \<in> set closed_statuses"
  shows "closed_from a (follow_status at st incoming)"
proof -
  obtain z c where st: "st = (z, JStr ''closed'', c)" "jlower z \<in> set closed_statuses"
    using assms(1) by (auto simp: closed_from_def split: prod.splits)
  then have "ostr (or_none (jlower z)) \<in> set closed_statuses" by simp
  with st assms closed_slower [OF assms(2)] show ?thesis
    by (simp add: follow_status_def plan_account_zendesk_status_transition_def planned_transition_def Let_def closed_from_def)
qed

lemma follow_all_closed:
  "closed_from a st \<Longrightarrow> set incomings \<subseteq> set closed_statuses \<Longrightarrow>
     closed_from a (foldl (follow_status at) st incomings)"
proof (induction incomings arbitrary: st)
  case (Cons e incomings)
  then have "closed_from a (follow_status at st e)" by (intro follow_closed) simp_all
  then show ?case using Cons.IH Cons.prems(2) by simp
qed simp

lemma follow_reopen:
  assumes "closed_from a st" "a \<noteq> []" "incoming \<notin> set closed_statuses"
  shows "fst (snd (follow_status at st incoming)) = JStr a"
proof -
  obtain z c where st: "st = (z, JStr ''closed'', c)" "jlower z \<in> set closed_statuses"
    "jstrip (jget (jdict (jget (jdict c) ''zendesk_status_sync'')) ''prior_automation_status'') = a"
    using assms(1) by (auto simp: closed_from_def split: prod.splits)
  have "or_none (jlower z) \<noteq> Some incoming"
    using st(2) assms(3) by (auto simp: or_none_def split: if_splits)
  with st assms(2,3) show ?thesis
    by (simp add: follow_status_def plan_account_zendesk_status_transition_def planned_transition_def Let_def)
qed

subsection \<open>The internal e-mail\<close>

lemma put_case_Inr:
  "fst (stored (put_case key c s)) = Inr True \<longleftrightarrow> (\<exists>n. normalize_account_case_record c = Inr n)"
  "normalize_account_case_record c = Inr n \<Longrightarrow> put_case key c s = (Inr (), s\<lparr>cs_cases := dset key n (cs_cases s)\<rparr>)"
  by (auto simp: stored_def put_case_def split: sum.splits)

lemma email_keys:
  "normalize_account_case_record c = Inr n \<Longrightarrow> jget n ''internal_email_payload'' = jget c ''internal_email_payload''"
  "normalize_account_case_record c = Inr n \<Longrightarrow>
     jget n ''internal_email_send_status'' = jget c ''internal_email_send_status''"
  by (simp_all add: normalize_other identity_keys_def route_keys_def execution_keys_def)

lemma email_updated_simps [simp]:
  "jget (email_updated p st r at c) ''internal_email_payload'' = JDict p"
  "jget (email_updated p st r at c) ''internal_email_send_status'' = JStr st"
  "case_id (email_updated p st r at c) = case_id c"
  by (simp_all add: email_updated_def case_id_def)

lemma stored_email:
  assumes "stored (put_case key c s) = (Inr True, s')" "jget c ''internal_email_send_status'' = JStr st"
  shows "\<exists>n. normalize_account_case_record c = Inr n \<and> s' = s\<lparr>cs_cases := dset key n (cs_cases s)\<rparr> \<and>
     dget (cs_cases s') key = Some n \<and> email_status n = strip st"
proof -
  obtain n where n: "normalize_account_case_record c = Inr n"
    using assms(1) put_case_Inr(1) by (metis fst_conv)
  then have s': "s' = s\<lparr>cs_cases := dset key n (cs_cases s)\<rparr>"
    using assms(1) by (simp add: put_case_Inr(2) stored_def)
  with n assms(2) show ?thesis by (simp add: email_status_def email_keys(2) [OF n] dget_dset)
qed

lemma release_email_True:
  assumes "release_account_internal_email_after_public_reply i at s = (Inr True, s')"
  shows "\<exists>key c. dfind (\<lambda>c. case_id c = strip i) (cs_cases s) = Some (key, c) \<and>
     email_status c = ''awaiting_public_reply'' \<and> email_reply_job c \<noteq> [] \<and>
     confirmation_ids (email_reply_job c) (case_messages c s) \<noteq> [] \<and>
     public_reply_delivered (strip i) (confirmation_ids (email_reply_job c) (case_messages c s)) (cs_zendesk s) \<and>
     stored (put_case key (released_email at c) s) = (Inr True, s')"
proof (cases "dfind (\<lambda>c. case_id c = strip i) (cs_cases s)")
  case None
  with assms show ?thesis
    by (simp add: release_account_internal_email_after_public_reply_def Let_def split: if_split_asm)
next
  case (Some e)
  obtain key c where "e = (key, c)" by (cases e)
  with assms Some show ?thesis
    by (simp add: release_account_internal_email_after_public_reply_def Let_def split: if_split_asm)
qed

lemma claim_email_True:
  assumes "claim_account_internal_email_delivery i k token at payload allowed active s = (Inr True, s')"
  shows "\<exists>key c. dfind (\<lambda>c. case_id c = strip i \<and> email_field ''delivery_key'' c = strip k) (cs_cases s) =
       Some (key, c) \<and>
     stored (put_case key (email_updated (dset ''delivery_claim_token'' (JStr (strip token)) payload)
       ''sending'' ''delivery_claimed'' at c) s) = (Inr True, s')"
proof (cases "dfind (\<lambda>c. case_id c = strip i \<and> email_field ''delivery_key'' c = strip k) (cs_cases s)")
  case None
  with assms show ?thesis by (simp add: claim_account_internal_email_delivery_def Let_def)
next
  case (Some e)
  obtain key c where "e = (key, c)" by (cases e)
  with assms Some show ?thesis
    by (simp only: claim_account_internal_email_delivery_def Let_def option.case prod.case split: if_split_asm) simp_all
qed

lemma claim_email_refused:
  assumes "dfind (\<lambda>c. case_id c = strip i \<and> email_field ''delivery_key'' c = strip k) (cs_cases s) = Some (key, c)"
    "email_status c = ''sending''" "''sending'' \<notin> set allowed" "email_field ''delivery_claim_token'' c \<noteq> strip token"
  shows "claim_account_internal_email_delivery i k token at payload allowed active s = (Inr False, s)"
  using assms by (simp add: claim_account_internal_email_delivery_def Let_def)

lemma released_pending: "jget (released_email at c) ''internal_email_send_status'' = JStr ''pending''"
  by (simp add: released_email_def Let_def)

lemma strip_sending: "strip ''sending'' = ''sending''"
  by code_simp

section \<open>Properties\<close>

text \<open>
  Saving a case never rewrites the audit record of its route: a category, subcategory, route
  status or automation handler that is set stays what it is; and the stored case has a non-empty
  id and a known processing profile.
\<close>

theorem saved_case_keeps_route:
  assumes "normalize_account_case_record c = Inr n"
  shows "list_all (\<lambda>k. jget c k \<in> {JNull, JStr []} \<or> jget n k = jget c k)
       [''category'', ''subcategory'', ''route_status'', ''automation_handler''] \<and>
     jstrip (jget n ''billing_ticket_id'') \<noteq> [] \<and>
     (\<exists>p \<in> set account_processing_profiles. jget n ''processing_profile'' = JStr p)"
  using normalize_route [OF assms] normalize_identity [OF assms] by (auto simp: route_keys_def)



text \<open>C27
  An internal e-mail being sent is not sent twice: once a worker has claimed a delivery, no other
  token can claim it, unless the caller lists \<open>sending\<close> among the statuses it may take over.
\<close>

theorem email_claimed_once:
  assumes "wf_dict (cs_cases s)" "strip i \<noteq> []"
    and "claim_account_internal_email_delivery i k token at payload allowed active s = (Inr True, s')"
    and "jstrip (jget payload ''delivery_key'') = strip k"
    and "strip other \<noteq> strip token" "''sending'' \<notin> set allowed'"
  shows "claim_account_internal_email_delivery i k other at' payload' allowed' active' s' = (Inr False, s')"
proof -
  define p where "p = dset ''delivery_claim_token'' (JStr (strip token)) payload"
  obtain key c where
    f: "dfind (\<lambda>c. case_id c = strip i \<and> email_field ''delivery_key'' c = strip k) (cs_cases s) = Some (key, c)"
    and r: "stored (put_case key (email_updated p ''sending'' ''delivery_claimed'' at c) s) = (Inr True, s')"
    using claim_email_True [OF assms(3)] unfolding p_def by blast
  obtain n where n: "normalize_account_case_record (email_updated p ''sending'' ''delivery_claimed'' at c) = Inr n"
      "s' = s\<lparr>cs_cases := dset key n (cs_cases s)\<rparr>" "email_status n = strip ''sending''"
    using stored_email [OF r email_updated_simps(2)] by blast
  have c: "case_id c = strip i" using dfind_SomeD [OF f] by simp
  then have "case_id (email_updated p ''sending'' ''delivery_claimed'' at c) \<noteq> []" using assms(2) by simp
  then have id: "case_id n = strip i" using normalize_identity(3) [OF n(1)] c by simp
  have p: "email_field k' n = jstrip (jget p k')" for k'
    unfolding email_field_def email_keys(1) [OF n(1)] by simp
  have st: "email_status n = ''sending''" using n(3) by (simp only: strip_sending)
  have key: "email_field ''delivery_key'' n = strip k" using assms(4) unfolding p by (simp add: p_def)
  have tok: "email_field ''delivery_claim_token'' n = strip token" unfolding p by (simp add: p_def)
  have "dfind (\<lambda>c. case_id c = strip i \<and> email_field ''delivery_key'' c = strip k) (cs_cases s') = Some (key, n)"
    unfolding n(2) using dfind_dset [OF assms(1) f] id key by simp
  from claim_email_refused [OF this st assms(6)] tok assms(5) show ?thesis by metis
qed

section \<open>Witnesses\<close>

text \<open>An enablement case that waits for the public reply of job \<open>r1\<close>, which message \<open>m1\<close> carries.\<close>

definition email_case :: jdict where
  "email_case =
     [(''billing_ticket_id'', JStr ''B1''), (''route_status'', JStr ''automated''),
      (''automation_handler'', JStr ''enablement''), (''client_ticket_id'', JStr ''T1''),
      (''internal_email_send_status'', JStr ''awaiting_public_reply''),
      (''internal_email_payload'', JDict [(''delivery_key'', JStr ''K1'')]),
      (''automation_context'', JDict [(''enablement_manual_workflow'',
         JDict [(''reply_job_id'', JStr ''r1''), (''state'', JStr ''waiting'')])])]"

definition email_ticket :: jdict where
  "email_ticket = [(''messages'', JList [JDict [(''message_id'', JStr ''m1''),
     (''meta'', JDict [(''account_reply_job_id'', JStr ''r1'')])]])]"

definition email_delivery :: zendesk_delivery where
  "email_delivery =
     \<lparr> zd_account_case_id = ''B1'', zd_message_id = ''m1'', zd_zendesk_ticket_id = ''9'', zd_idempotency_key = ''k'',
       zd_is_public = True, zd_status = ''delivered'', zd_zendesk_comment_id = None, zd_failure_code = None,
       zd_confirmed_at = None, zd_target_status = None, zd_source = ''hermes'', zd_engineer_case_id = None,
       zd_investigation_id = None, zd_draft_version = None, zd_comments_revision = None,
       zd_immutable_content = None, zd_attachments = [], zd_created_at = ''t'', zd_updated_at = ''t'' \<rparr>"

definition email_store :: case_store where
  "email_store =
     \<lparr> cs_cases = [(''B1'', email_case)], cs_tickets = [(''T1'', email_ticket)], cs_comments = [],
       cs_comment_sync = [], cs_audit = [], cs_idempotency = [], cs_engineer_events = [],
       cs_zendesk = [((''B1'', ''m1''), email_delivery)], cs_slack = [] \<rparr>"

theorem saved_case_keeps_route_witness:
  "\<exists>n. normalize_account_case_record email_case = Inr n \<and>
     list_all (\<lambda>k. jget email_case k \<in> {JNull, JStr []} \<or> jget n k = jget email_case k)
       [''category'', ''subcategory'', ''route_status'', ''automation_handler'']"
proof -
  have "case normalize_account_case_record email_case of Inr n \<Rightarrow> True | _ \<Rightarrow> False" by code_simp
  then obtain n where "normalize_account_case_record email_case = Inr n" by (auto split: sum.splits)
  with saved_case_keeps_route [OF this] show ?thesis by blast
qed


lemma email_released: "fst (release_account_internal_email_after_public_reply ''B1'' ''t'' email_store) = Inr True"
  by code_simp


definition claimed_store :: "(py_error + bool) \<times> case_store" where
  "claimed_store = claim_account_internal_email_delivery ''B1'' ''K1'' ''w1'' ''t''
     [(''delivery_key'', JStr ''K1'')] [''awaiting_public_reply''] True email_store"

lemma email_claimed: "fst claimed_store = Inr True"
  by code_simp

theorem email_claimed_once_witness:
  "claim_account_internal_email_delivery ''B1'' ''K1'' ''w2'' ''t2'' [] claimable_statuses True (snd claimed_store) =
     (Inr False, snd claimed_store)"
proof (rule email_claimed_once)
  show "wf_dict (cs_cases email_store)" by (simp add: email_store_def)
  show "strip ''B1'' \<noteq> []" by code_simp
  show "claim_account_internal_email_delivery ''B1'' ''K1'' ''w1'' ''t'' [(''delivery_key'', JStr ''K1'')]
      [''awaiting_public_reply''] True email_store = (Inr True, snd claimed_store)"
    using email_claimed by (simp add: prod_eq_iff claimed_store_def)
  show "jstrip (jget [(''delivery_key'', JStr ''K1'')] ''delivery_key'') = strip ''K1''" by code_simp
  show "strip ''w2'' \<noteq> strip ''w1''" by code_simp
  show "''sending'' \<notin> set claimable_statuses" by code_simp
qed

end
