(* ===== verification/Classification_Email.thy ===== *)
theory Classification_Email
  imports Case_Routing Slack_Outbox
begin

text \<open>
  The labels of a classified case (\<open>services/account_route_pipeline.py\<close>) and the e-mail that
  announces an automated case (\<open>services/production_automation_classification_email.py\<close>).
  \<open>json.loads\<close> of a stored source is the argument \<open>loads\<close> (\<open>None\<close> when it raises), and
  \<open>urllib.parse.urlparse\<close> of a link is \<open>urlparse\<close>, which gives the host name and the path.
\<close>

section \<open>Labels\<close>

text \<open>\<open>s.replace("_", " ")\<close>.\<close>

definition underscores_to_blanks :: "string \<Rightarrow> string" where
  "underscores_to_blanks s = map (\<lambda>c. if c = CHR ''_'' then CHR '' '' else c) s"

text \<open>
  \<open>str.title\<close>. Of the letters below 256, two have a capital beyond 255 (181 and 255); they are
  kept as they are.
\<close>

definition cased :: "char \<Rightarrow> bool" where
  "cased c =
     (let n = (of_char c :: nat)
      in (65 \<le> n \<and> n \<le> 90) \<or> (97 \<le> n \<and> n \<le> 122) \<or> n = 170 \<or> n = 181 \<or> n = 186 \<or>
         (192 \<le> n \<and> n \<noteq> 215 \<and> n \<noteq> 247))"

definition title_char :: "char \<Rightarrow> string" where
  "title_char c =
     (let n = (of_char c :: nat)
      in if n = 223 then ''Ss''
         else if (97 \<le> n \<and> n \<le> 122) \<or> (224 \<le> n \<and> n \<le> 254 \<and> n \<noteq> 247) then [char_of (n - 32)]
         else [c])"

fun title_from :: "bool \<Rightarrow> string \<Rightarrow> string" where
  "title_from inside [] = []"
| "title_from inside (c # s) = (if inside then [lower_char c] else title_char c) @ title_from (cased c) s"

definition title :: "string \<Rightarrow> string" where
  "title s = title_from False s"

definition titled :: "string \<Rightarrow> string" where
  "titled s = title (underscores_to_blanks s)"

definition str_or :: "json \<Rightarrow> string \<Rightarrow> string" where
  "str_or x d = (if truthy x then py_str x else d)"

definition billing_label :: "string \<Rightarrow> string" where
  "billing_label subcategory = ''Account & Billing / '' @ titled subcategory"

definition operation_label :: "string \<Rightarrow> string" where
  "operation_label subcategory = ''Backend Operation / '' @ titled subcategory"

definition classification_labels :: "jdict \<Rightarrow> string \<times> string" where
  "classification_labels c =
     (let intent = str_or (jget c ''intent_class'') ''uncertain''
      in if intent = ''conversation'' then
           (let action = str_or (jget c ''conversation_action'') ''human_review''
            in (''Conversation'', if action = ''resolve'' then ''Resolve''
                 else if action = ''follow_up'' then ''Follow-up'' else ''Human Review''))
         else if intent = ''agora'' then
           (let route = str_or (jget c ''agora_route'') ''uncategorized''
            in if route = ''technical'' then (''Agora'', ''Agora Technical'')
               else if route = ''non_technical'' then (''Agora'', ''Agora Non-technical'')
               else if route = ''security_compliance'' then (''Agora'', ''Security & Compliance'')
               else if route = ''account_billing''
               then (''Agora'', billing_label (strip (str_or (jget c ''account_billing_subcategory'') ''other'')))
               else if route = ''backend_operation''
               then (''Agora'', operation_label (strip (str_or (jget c ''backend_operation_subcategory'') ''unregistered'')))
               else if route = ''automation'' then
                 (let subcategory = strip (str_or (jget c ''automation_subcategory'') ''unregistered'')
                  in if subcategory \<in> {''fraud_account'', ''account_verification'', ''detailed_invoice''}
                     then (''Agora'', billing_label
                            (if subcategory = ''account_verification'' then ''fraud_account'' else subcategory))
                     else if subcategory \<in> {''enablement'', ''quota''} then (''Agora'', operation_label subcategory)
                     else (''Agora'', ''Backend Operation / Unregistered''))
               else (''Human Review'', ''Uncategorized''))
         else if jlower (jget c ''support_scope'') = ''non_agora'' then (''Human Review'', ''Non-Agora'')
         else (''Human Review'', ''Uncertain''))"

definition account_route_pipeline_version :: string where
  "account_route_pipeline_version = ''account-layered-router-v11''"

text \<open>The labels of a case that has no classification, by its scope.\<close>

definition scope_labels :: "jdict \<Rightarrow> string \<Rightarrow> string \<times> string" where
  "scope_labels r action =
     (let scope = jlower (jget r ''scope_label'')
      in if scope = ''ticket_resolution'' then (''Conversation'', ''Resolve'')
         else if scope = ''small_talk'' then (''Conversation'', ''Follow-up'')
         else if scope = ''agora_technical'' then (''Agora'', ''Agora Technical'')
         else if scope = ''agora_non_technical'' then (''Agora'', ''Agora Non-technical'')
         else if scope \<in> {''security_compliance'', ''agora_security_compliance''}
         then (''Agora'', ''Security & Compliance'')
         else if scope = ''account_billing''
         then (''Agora'', billing_label (strip (str_or (jget r ''subcategory'') ''other'')))
         else if scope \<in> {''billing'', ''human_review'', ''uncategorized''}
         then (''Human Review'', ''Uncategorized'')
         else if scope \<in> {''automation'', ''backend_operation'', ''enablement'', ''quota''} then
           (let subcategory = slower (str_or (jget r ''subcategory'') (or_else action ''unregistered''))
            in if subcategory \<in> {''enablement'', ''quota''} then (''Agora'', operation_label subcategory)
               else (''Agora'', ''Backend Operation / Unregistered''))
         else if scope \<in> {''uncertain'', ''unclear''} then (''Human Review'', ''Uncertain'')
         else if scope = ''non_agora'' then (''Human Review'', ''Non-Agora'')
         else (''Human Review'', ''Other''))"

definition account_case_labels :: "jdict \<Rightarrow> string \<times> string" where
  "account_case_labels r =
     (let route_family = jlower (jget r ''route_family'');
          action = canonical_automation_subcategory
            (jor (jor (jget r ''execution_action'') (jget r ''subcategory'')) (jget r ''route''));
          classification = jdict (jget r ''route_classification'')
      in if classification \<noteq> [] \<and> jstr (jget classification ''pipeline_version'') = account_route_pipeline_version
         then classification_labels classification
         else if is_registered_automation (JStr route_family) (JStr action) then
           (if action \<in> {''fraud_account'', ''account_verification'', ''detailed_invoice''}
            then (''Agora'', billing_label (if action = ''account_verification'' then ''fraud_account'' else action))
            else if action \<in> {''enablement'', ''quota''} then (''Agora'', operation_label action)
            else (''Agora'', ''Automation / '' @ titled action))
         else if classification \<noteq> [] then classification_labels classification
         else scope_labels r action)"

section \<open>The Zendesk ticket a source names\<close>

definition source_link :: "json \<Rightarrow> string" where
  "source_link v =
     (case v of
        JDict d \<Rightarrow>
          (case find (\<lambda>x. case x of JStr s \<Rightarrow> strip s \<noteq> [] | _ \<Rightarrow> False)
                  (map (jget d) [''Link'', ''link'', ''url'', ''source_url'', ''source'']) of
             Some (JStr s) \<Rightarrow> strip s
           | _ \<Rightarrow> [])
      | JStr s \<Rightarrow> strip s
      | _ \<Rightarrow> [])"

text \<open>\<open>^/(?:agent/tickets/(\d+)|api/v2/tickets/(\d+)\.json)$\<close>; the end may follow a final line break.\<close>

definition digits_then :: "string \<Rightarrow> string \<Rightarrow> string" where
  "digits_then s suffix =
     (let ds = takeWhile (\<lambda>c. undig c \<noteq> None) s
      in if drop (length ds) s \<in> {suffix, suffix @ [CHR 0x0A]} then ds else [])"

definition ticket_of_path :: "string \<Rightarrow> string" where
  "ticket_of_path p =
     (if take 15 p = ''/agent/tickets/'' then digits_then (drop 15 p) []
      else if take 16 p = ''/api/v2/tickets/'' then digits_then (drop 16 p) ''.json''
      else [])"

definition zendesk_ticket_id_from_source :: "(string \<Rightarrow> string \<times> string) \<Rightarrow> json \<Rightarrow> string" where
  "zendesk_ticket_id_from_source urlparse v =
     (let link = source_link v
      in if link = [] then []
         else let (hostname, path) = urlparse (if occurs_in ''://'' link then link else ''https://'' @ link);
                  host = lower hostname
              in if host \<noteq> ''zendesk.com'' \<and> drop (length host - 12) host \<noteq> ''.zendesk.com'' then []
                 else ticket_of_path path)"

section \<open>The announcement\<close>

definition is_production_automation_classification :: "jdict \<Rightarrow> bool" where
  "is_production_automation_classification c \<longleftrightarrow>
     is_live_account_processing_profile (jget c ''processing_profile'') \<and>
     jlower (jget c ''category'') \<in> {''automation'', ''backend_operation'', ''account_billing''} \<and>
     jlower (jget c ''automation_status'') = ''automation'' \<and>
     jlower (jget c ''route_status'') = ''automated'' \<and>
     jlower (jor (jget c ''subcategory'') (jget c ''execution_action'')) \<in> set active_automation_subcategories"

text \<open>A source that starts like a JSON object is decoded first.\<close>

definition decoded_source :: "(string \<Rightarrow> json option) \<Rightarrow> json \<Rightarrow> json" where
  "decoded_source loads v =
     (case v of
        JStr s \<Rightarrow>
          if take 1 (strip s) = ''{'' then (case loads s of Some x \<Rightarrow> x | None \<Rightarrow> JNull) else v
      | _ \<Rightarrow> v)"

definition newline :: string where "newline = [CHR 0x0A]"

definition link_failure :: "string \<Rightarrow> string \<Rightarrow> string" where
  "link_failure zendesk_ticket_id source_ticket_id =
     (if zendesk_ticket_id = [] then ''zendesk_ticket_id_missing''
      else if source_ticket_id \<noteq> zendesk_ticket_id then ''zendesk_source_ticket_mismatch'' else [])"

definition classification_path :: "jdict \<Rightarrow> string" where
  "classification_path c =
     (let (primary, secondary) = account_case_labels c
      in intersperse '' / '' (filter (\<lambda>l. l \<noteq> []) (map strip [primary, secondary])))"

text \<open>The e-mail, given the failure of its link and the failure of the announcement.\<close>

definition announcement :: "jdict \<Rightarrow> string \<Rightarrow> string \<Rightarrow> string \<Rightarrow> string \<Rightarrow> string \<Rightarrow> classification_email" where
  "announcement c account_case_id zendesk_ticket_id path code code' =
     (let url = (if code = [] then Some (''https://agoraio.zendesk.com/agent/tickets/'' @ zendesk_ticket_id) else None);
          question = jstrip (jget c ''question'');
          subject_ticket = or_else zendesk_ticket_id account_case_id;
          profile = slower (str_or (jget c ''processing_profile'') ''production'');
          link = (case url of Some u \<Rightarrow> u | None \<Rightarrow> ''Unavailable ('' @ or_else code' ''unknown'' @ '')'')
      in \<lparr> ce_account_case_id = account_case_id, ce_processing_profile = profile,
           ce_zendesk_ticket_id = or_none zendesk_ticket_id, ce_zendesk_ticket_url = url,
           ce_question = question, ce_classification_path = path,
           ce_recipient = ''xieziling@agora.io'',
           ce_subject = ''['' @ title profile @ '' Automation] Ticket '' @ subject_ticket,
           ce_body = ''Case: '' @ link @ newline @ newline @
                     ''Customer question:'' @ newline @ question @ newline @ newline @
                     ''Classification path:'' @ newline @ path @ newline,
           ce_status = (if code' = [] then ''queued'' else ''failed''),
           ce_failure_code = or_none code', ce_confirmed_at = None,
           ce_created_at = jstr (jget c ''updated_at''), ce_updated_at = jstr (jget c ''updated_at'') \<rparr>)"

definition build_production_automation_classification_email ::
  "(string \<Rightarrow> json option) \<Rightarrow> (string \<Rightarrow> string \<times> string) \<Rightarrow> jdict \<Rightarrow> py_error + classification_email option" where
  "build_production_automation_classification_email loads urlparse c =
     (if \<not> is_production_automation_classification c then Inr None
      else let account_case_id = jstrip (jor (jget c ''account_case_id'') (jget c ''billing_ticket_id''))
      in if account_case_id = []
         then Inl (ValueError ''Automation classification email requires account_case_id'')
         else let zendesk_ticket_id = jstrip (jget c ''zendesk_ticket_id'');
                  code = link_failure zendesk_ticket_id
                    (zendesk_ticket_id_from_source urlparse (decoded_source loads (jget c ''source'')));
                  path = classification_path c;
                  code' = (if path = [] then or_else code ''classification_path_missing'' else code)
              in Inr (Some (announcement c account_case_id zendesk_ticket_id path code code')))"

section \<open>Properties\<close>

lemma announced:
  assumes "build_production_automation_classification_email loads urlparse c = Inr (Some e)"
  shows "\<exists>i path code code'. is_production_automation_classification c \<and> i \<noteq> [] \<and>
    e = announcement c i (jstrip (jget c ''zendesk_ticket_id'')) path code code' \<and>
    code = link_failure (jstrip (jget c ''zendesk_ticket_id''))
       (zendesk_ticket_id_from_source urlparse (decoded_source loads (jget c ''source''))) \<and>
    (code' = [] \<longrightarrow> code = [])"
proof -
  define i where "i = jstrip (jor (jget c ''account_case_id'') (jget c ''billing_ticket_id''))"
  define code where "code = link_failure (jstrip (jget c ''zendesk_ticket_id''))
    (zendesk_ticket_id_from_source urlparse (decoded_source loads (jget c ''source'')))"
  define code' where "code' = (if classification_path c = [] then or_else code ''classification_path_missing'' else code)"
  have a: "is_production_automation_classification c \<and> i \<noteq> [] \<and>
      e = announcement c i (jstrip (jget c ''zendesk_ticket_id'')) (classification_path c) code code'"
    using assms unfolding build_production_automation_classification_email_def Let_def
      i_def [symmetric] code_def [symmetric] code'_def [symmetric]
    by (simp split: if_splits)
  have "code' = [] \<longrightarrow> code = []" by (simp add: code'_def or_else_def)
  with a show ?thesis unfolding code_def [symmetric] by blast
qed

text \<open>An announcement is made for a live automated case, and is queued only when its link was checked.\<close>

lemma announcement_live:
  assumes "build_production_automation_classification_email loads urlparse c = Inr (Some e)"
  shows "is_live_account_processing_profile (jget c ''processing_profile'')"
    "jlower (jget c ''automation_status'') = ''automation''" "ce_account_case_id e \<noteq> []"
proof -
  from announced [OF assms] obtain i path code code' where
    c: "is_production_automation_classification c" "i \<noteq> []"
    and e: "e = announcement c i (jstrip (jget c ''zendesk_ticket_id'')) path code code'" by blast
  from c show "is_live_account_processing_profile (jget c ''processing_profile'')"
    "jlower (jget c ''automation_status'') = ''automation''"
    by (simp_all add: is_production_automation_classification_def)
  from c show "ce_account_case_id e \<noteq> []" by (simp add: e announcement_def Let_def)
qed

lemma announcement_link:
  assumes "build_production_automation_classification_email loads urlparse c = Inr (Some e)"
    and "ce_status e = ''queued''"
  shows "zendesk_ticket_id_from_source urlparse (decoded_source loads (jget c ''source'')) = jstrip (jget c ''zendesk_ticket_id'')"
    and "ce_zendesk_ticket_url e = Some (''https://agoraio.zendesk.com/agent/tickets/'' @ jstrip (jget c ''zendesk_ticket_id''))"
proof -
  define source where "source = zendesk_ticket_id_from_source urlparse (decoded_source loads (jget c ''source''))"
  from announced [OF assms(1)] obtain i path code code' where
    e: "e = announcement c i (jstrip (jget c ''zendesk_ticket_id'')) path code code'"
    and code: "code = link_failure (jstrip (jget c ''zendesk_ticket_id'')) source" "code' = [] \<longrightarrow> code = []"
    unfolding source_def by blast
  from assms(2) have "code' = []" by (simp add: e announcement_def Let_def split: if_splits)
  with code(2) have z: "code = []" by simp
  with code(1) show "source = jstrip (jget c ''zendesk_ticket_id'')" unfolding source_def [symmetric]
    by (simp add: link_failure_def split: if_splits)
  from z show "ce_zendesk_ticket_url e = Some (''https://agoraio.zendesk.com/agent/tickets/'' @ jstrip (jget c ''zendesk_ticket_id''))"
    by (simp add: e announcement_def Let_def)
qed

end
