(* ===== verification/Reply_Jobs.thy ===== *)
theory Reply_Jobs
  imports Account_Cases Classification_Email
begin

text \<open>
  The reply jobs of account cases (\<open>services/account_reply_jobs.py\<close> and the in-memory repository):
  the contract of a reply, creation, cancellation, claiming, fenced updates, the hand-over to human
  review, the manual completion of an enablement, and publication, which writes the message, the
  case, the Zendesk comment delivery and the Slack event of a reply in one operation.

  A job is the dictionary the workers pass around. \<open>now\<close> is the clock where the code reads it,
  \<open>job_id\<close> a fresh identifier, \<open>local\<close> the instant of a wall-clock time in the time zone of
  the process. A payload, meta or context that is not a dictionary reads as an empty one, a list
  field that is not a list as an empty list.
\<close>

section \<open>The contract of a reply\<close>

definition hermes_compatibility_job_active_statuses :: "string list" where
  "hermes_compatibility_job_active_statuses =
     [''queued'', ''preparing'', ''scheduled'', ''publishing'',
      ''persona_queued'', ''persona_preparing'', ''persona_scheduled'', ''persona_publishing'',
      ''persona_v8_queued'', ''persona_v8_preparing'', ''persona_v8_scheduled'', ''persona_v8_publishing'',
      ''published'']"

definition is_hermes_compatibility_job_active_status :: "json \<Rightarrow> bool" where
  "is_hermes_compatibility_job_active_status status =
     (jlower status \<in> set hermes_compatibility_job_active_statuses)"

definition account_reply_close_intents :: "string list" where
  "account_reply_close_intents =
     [''enablement_completed_and_close'', ''enablement_archer_enabled'',
      ''enablement_appid_ownership_mismatch'', ''detailed_invoice_completed_and_close'']"

definition account_reply_known_intents :: "string list" where
  "account_reply_known_intents =
     [''request_missing_information'', ''submission_confirmation'', ''fraud_handoff_confirmation'',
      ''fraud_handoff_and_close'', ''account_suspension_contact_confirmation_request'',
      ''account_suspension_handoff_and_close'', ''enablement_completed_and_close'',
      ''enablement_archer_enabled'', ''enablement_appid_invalid'', ''enablement_appid_not_found'',
      ''enablement_appid_ownership_mismatch'', ''detailed_invoice_completed_and_close'',
      ''resolution_update'', ''rag_fallback_answer'', ''progress_inquiry_answer'']"

text \<open>A random delay of six to ten minutes, none in staging; \<open>randint\<close> is the random source.\<close>

definition account_reply_delay_seconds_for_profile :: "(int \<Rightarrow> int \<Rightarrow> int) \<Rightarrow> json \<Rightarrow> py_error + int" where
  "account_reply_delay_seconds_for_profile randint profile =
     sbind (normalize_account_processing_profile profile ''staging'') (\<lambda>p.
       if p = ''staging'' then Inr 0 else Inr (randint (6 * 60) (10 * 60)))"

text \<open>The facts with the canonical intent, the intent, and whether the reply closes the case.\<close>

definition normalize_account_reply_contract ::
  "json \<Rightarrow> json \<Rightarrow> bool \<Rightarrow> bool \<Rightarrow> py_error + jdict \<times> string option \<times> bool" where
  "normalize_account_reply_contract reply_facts reply_intent close_after_publish reject_legacy =
     (let facts = jdict reply_facts;
          nested = jlower (jget facts ''reply_intent'');
          top_level = jlower reply_intent;
          intent = or_else nested top_level;
          derived_close = (intent \<in> set account_reply_close_intents)
      in if nested \<noteq> [] \<and> top_level \<noteq> [] \<and> nested \<noteq> top_level
         then Inl (ValueError ''account_reply_intent_conflict'')
         else if intent \<noteq> [] \<and> intent \<notin> set account_reply_known_intents
         then Inl (ValueError ''unsupported_account_reply_intent'')
         else if intent = ''fraud_handoff_and_close'' \<and> reject_legacy
         then Inl (ValueError ''legacy_fraud_handoff_close_intent'')
         else if close_after_publish \<and> \<not> derived_close
         then Inl (ValueError ''account_reply_close_intent_conflict'')
         else Inr (if intent = [] then facts else dset ''reply_intent'' (JStr intent) facts,
                   or_none intent, derived_close))"

definition persona_pipeline :: string where "persona_pipeline = ''automation_persona_v8''"

definition persona_legacy_pipeline :: string where "persona_legacy_pipeline = ''automation_persona_v1''"

definition account_reply_persona_pipeline_for_job :: "jdict \<Rightarrow> json \<Rightarrow> string" where
  "account_reply_persona_pipeline_for_job job payload =
     (let p = (if is_jdict payload then jdict payload else jdict (jget job ''payload''));
          pipeline = jstrip (jget p ''reply_pipeline''); status = jstrip (jget job ''status'')
      in if pipeline = persona_legacy_pipeline then persona_legacy_pipeline
         else if pipeline = persona_pipeline \<or> take 11 status = ''persona_v8_'' then persona_pipeline
         else persona_legacy_pipeline)"

definition account_reply_persona_status_for_stage :: "jdict \<Rightarrow> string \<Rightarrow> py_error + string" where
  "account_reply_persona_status_for_stage job stage =
     (if stage \<notin> {''queued'', ''preparing'', ''scheduled'', ''publishing''}
      then Inl (ValueError (''unsupported Account reply Persona stage: '' @ stage))
      else Inr ((if account_reply_persona_pipeline_for_job job JNull = persona_pipeline
                 then ''persona_v8_'' else ''persona_'') @ stage))"

definition is_account_reply_persona_preparing_status :: "string \<Rightarrow> bool" where
  "is_account_reply_persona_preparing_status status =
     (status \<in> {''persona_preparing'', ''persona_v8_preparing'', ''preparing''})"

definition is_account_reply_persona_publishing_status :: "string \<Rightarrow> bool" where
  "is_account_reply_persona_publishing_status status =
     (status \<in> {''persona_publishing'', ''persona_v8_publishing'', ''publishing''})"

section \<open>The tables\<close>

record reply_store =
  rs_base :: case_store
  rs_jobs :: "(string, jdict) dict"
  rs_executions :: "(string, json list) dict"
  rs_emails :: email_outbox
  rs_events :: "jdict list"

definition record_ticket_event :: "string \<Rightarrow> string \<Rightarrow> jdict \<Rightarrow> string \<Rightarrow> jdict list \<Rightarrow> jdict list" where
  "record_ticket_event ticket_id event_type payload now events =
     events @ [[(''ticket_id'', JStr ticket_id), (''event_type'', JStr event_type),
                (''payload'', JDict payload), (''created_at'', jor (jget payload ''created_at'') (JStr now))]]"

text \<open>\<open>int(x or 0)\<close>.\<close>

definition int_or_zero :: "json \<Rightarrow> py_error + int" where
  "int_or_zero x =
     (if \<not> truthy x then Inr 0
      else case jint x of
          Some n \<Rightarrow> Inr n
        | None \<Rightarrow>
            (case x of
               JStr s \<Rightarrow> Inl (ValueError (''invalid literal for int() with base 10: '' @ repr_str s))
             | JList _ \<Rightarrow> Inl (TypeError ''int() argument must be a string, a bytes-like object or a real number, not list'')
             | _ \<Rightarrow> Inl (TypeError ''int() argument must be a string, a bytes-like object or a real number, not dict'')))"

text \<open>A job with its times and its count of attempts filled in.\<close>

definition filled_job :: "json \<Rightarrow> json \<Rightarrow> jdict \<Rightarrow> py_error + jdict" where
  "filled_job created updated job =
     (let j1 = dset ''created_at'' (jor (jget job ''created_at'') created) job;
          j2 = dset ''updated_at'' (jor (jget j1 ''updated_at'')
                 (if updated = JNull then jget j1 ''created_at'' else updated)) j1
      in sbind (int_or_zero (jget j2 ''attempt_count''))
           (\<lambda>n. Inr (dset ''attempt_count'' (JInt n) j2)))"

definition save_account_reply_job :: "string \<Rightarrow> jdict \<Rightarrow> (reply_store, jdict) op" where
  "save_account_reply_job now job s =
     (case filled_job (JStr now) JNull job of
        Inl e \<Rightarrow> (Inl e, s)
      | Inr saved \<Rightarrow>
          (case dget saved ''job_id'' of
             None \<Rightarrow> (Inl (KeyError ''job_id''), s)
           | Some j \<Rightarrow> (Inr saved, s\<lparr>rs_jobs := dset (py_str j) saved (rs_jobs s)\<rparr>)))"

section \<open>Claims\<close>

definition job_matches_claim :: "jdict \<Rightarrow> jdict \<Rightarrow> string \<Rightarrow> json \<Rightarrow> int \<Rightarrow> py_error + bool" where
  "job_matches_claim current claimed expected_status expected_claimed_at expected_attempts =
     (if jstr (jget current ''job_id'') = jstr (jget claimed ''job_id'') \<and>
         jstr (jget current ''ticket_id'') = jstr (jget claimed ''ticket_id'') \<and>
         jstr (jget current ''trigger_message_created_at'') = jstr (jget claimed ''trigger_message_created_at'') \<and>
         jstr (jget current ''status'') = expected_status \<and>
         jstr (jget current ''claimed_at'') = jstr expected_claimed_at
      then sbind (int_or_zero (jget current ''attempt_count'')) (\<lambda>n. Inr (n = expected_attempts))
      else Inr False)"

text \<open>A job kept only for Hermes may not be written by a worker that does not know of it.\<close>

definition compatibility_only :: "jdict \<Rightarrow> bool" where
  "compatibility_only job =
     (jget (jdict (jget job ''payload'')) ''hermes_compatibility_only'' = JBool True)"

definition update_claimed_account_reply_job ::
  "string \<Rightarrow> jdict \<Rightarrow> string \<Rightarrow> json \<Rightarrow> int \<Rightarrow> (reply_store, jdict option) op" where
  "update_claimed_account_reply_job now job expected_status expected_claimed_at expected_attempts s =
     (let job_id = jstrip (jget job ''job_id'')
      in case dget (rs_jobs s) job_id of
           None \<Rightarrow> (Inr None, s)
         | Some current \<Rightarrow>
             (case job_matches_claim current job expected_status expected_claimed_at expected_attempts of
                Inl e \<Rightarrow> (Inl e, s)
              | Inr matching \<Rightarrow>
                  if \<not> matching \<or> (compatibility_only current \<and> \<not> compatibility_only job) then (Inr None, s)
                  else case filled_job (jor (jget current ''created_at'') (JStr now)) JNull job of
                      Inl e \<Rightarrow> (Inl e, s)
                    | Inr saved \<Rightarrow> (Inr (Some saved), s\<lparr>rs_jobs := dset job_id saved (rs_jobs s)\<rparr>)))"

definition pending_reply_job_statuses :: "string list" where
  "pending_reply_job_statuses =
     [''queued'', ''preparing'', ''scheduled'', ''persona_queued'', ''persona_preparing'', ''persona_scheduled'',
      ''persona_v8_queued'', ''persona_v8_preparing'', ''persona_v8_scheduled'']"

definition cancelled_job :: "string \<Rightarrow> jdict \<Rightarrow> jdict" where
  "cancelled_job at job = dset ''updated_at'' (JStr at) (dset ''status'' (JStr ''cancelled'') job)"

definition cancellable :: "string \<Rightarrow> string \<Rightarrow> jdict \<Rightarrow> bool" where
  "cancellable ticket_id rerun_job_id job \<longleftrightarrow>
     jstr (jget job ''ticket_id'') = ticket_id \<and>
     (rerun_job_id \<noteq> [] \<longrightarrow> jstr (jget (jdict (jget job ''payload'')) ''rerun_job_id'') = rerun_job_id) \<and>
     jstr (jget job ''status'') \<in> set pending_reply_job_statuses"

definition cancel_pending_account_reply_jobs ::
  "string \<Rightarrow> string \<Rightarrow> string option \<Rightarrow> reply_store \<Rightarrow> nat \<times> reply_store" where
  "cancel_pending_account_reply_jobs ticket_id updated_at rerun_job_id s =
     (let P = cancellable ticket_id (ostrip rerun_job_id)
      in (length (filter P (dvalues (rs_jobs s))),
          s\<lparr>rs_jobs := dupdate_where P (cancelled_job updated_at) (rs_jobs s)\<rparr>))"

text \<open>
  Claiming walks over the jobs by due time and changes them in place, so an attempt count that is no
  number stops it after the jobs before.
\<close>

definition claimed_job :: "string \<Rightarrow> string \<Rightarrow> int \<Rightarrow> jdict \<Rightarrow> jdict" where
  "claimed_job to_status now n job =
     jupdate [(''status'', JStr to_status), (''claimed_at'', JStr now), (''updated_at'', JStr now),
              (''attempt_count'', JInt (n + 1))] job"

definition claimable :: "string \<Rightarrow> string \<Rightarrow> bool \<Rightarrow> jdict \<Rightarrow> bool" where
  "claimable from_status now due_only job \<longleftrightarrow>
     jstr (jget job ''status'') = from_status \<and> \<not> compatibility_only job \<and>
     \<not> (due_only \<and> now < jstr (jget job ''scheduled_for''))"

fun claim_jobs ::
  "string \<Rightarrow> string \<Rightarrow> string \<Rightarrow> nat \<Rightarrow> bool \<Rightarrow> (string \<times> jdict) list \<Rightarrow> jdict list \<Rightarrow> (string, jdict) dict
     \<Rightarrow> (py_error + jdict list) \<times> (string, jdict) dict" where
  "claim_jobs from_status to_status now limit due_only [] claimed jobs = (Inr claimed, jobs)"
| "claim_jobs from_status to_status now limit due_only ((k, job) # rest) claimed jobs =
     (if limit \<le> length claimed then (Inr claimed, jobs)
      else if \<not> claimable from_status now due_only job
      then claim_jobs from_status to_status now limit due_only rest claimed jobs
      else case int_or_zero (jget job ''attempt_count'') of
          Inl e \<Rightarrow> (Inl e, dset k (jupdate [(''status'', JStr to_status), (''claimed_at'', JStr now),
                                            (''updated_at'', JStr now)] job) jobs)
        | Inr n \<Rightarrow>
            claim_jobs from_status to_status now limit due_only rest
              (claimed @ [claimed_job to_status now n job]) (dset k (claimed_job to_status now n job) jobs))"

definition due_order :: "(string, jdict) dict \<Rightarrow> (string \<times> jdict) list" where
  "due_order jobs =
     sort_key (\<lambda>(k, job). (jstr (jget job ''scheduled_for''), jstr (jget job ''created_at''))) jobs"

definition claim_account_reply_jobs ::
  "string \<Rightarrow> string \<Rightarrow> string \<Rightarrow> int \<Rightarrow> bool \<Rightarrow> (reply_store, jdict list) op" where
  "claim_account_reply_jobs from_status to_status now limit due_only s =
     (let (res, jobs) = claim_jobs from_status to_status now (nat (max 1 limit)) due_only
                          (due_order (rs_jobs s)) [] (rs_jobs s)
      in (res, s\<lparr>rs_jobs := jobs\<rparr>))"

section \<open>Lookups\<close>

definition get_account_reply_job :: "string \<Rightarrow> reply_store \<Rightarrow> jdict option" where
  "get_account_reply_job job_id s = dget (rs_jobs s) job_id"

text \<open>\<open>max(jobs, key=...)\<close>: the first job with the greatest key.\<close>

fun max_by_created :: "jdict list \<Rightarrow> jdict option" where
  "max_by_created [] = None"
| "max_by_created (j # js) =
     (case max_by_created js of
        None \<Rightarrow> Some j
      | Some m \<Rightarrow> if jstr (jget j ''created_at'') < jstr (jget m ''created_at'') then Some m else Some j)"

definition get_latest_account_reply_job :: "string \<Rightarrow> reply_store \<Rightarrow> jdict option" where
  "get_latest_account_reply_job ticket_id s =
     max_by_created (filter (\<lambda>j. jstr (jget j ''ticket_id'') = ticket_id) (dvalues (rs_jobs s)))"

text \<open>A time without a zone is taken as UTC; one whose UTC time leaves the calendar raises.\<close>

definition normalize_account_reply_trigger :: "json \<Rightarrow> py_error + string" where
  "normalize_account_reply_trigger value =
     (let text = jstrip value
      in case (if text = [] then None else parse_iso text) of
           None \<Rightarrow> Inr []
         | Some d \<Rightarrow>
             if valid_instant (utc_instant d) then Inr (isoformat (utc_instant d))
             else Inl (OverflowError ''date value out of range''))"

definition chain_candidate :: "string \<Rightarrow> string \<Rightarrow> jdict \<Rightarrow> bool" where
  "chain_candidate ticket_id delivery_key job \<longleftrightarrow>
     jstr (jget job ''ticket_id'') = ticket_id \<and>
     jstrip (jget (jdict (jget job ''payload'')) ''rerun_job_id'') = [] \<and>
     jstr (jget (jdict (jget job ''payload'')) ''automation_delivery_key'') = delivery_key"

fun chain_matches :: "string \<Rightarrow> jdict list \<Rightarrow> py_error + jdict list" where
  "chain_matches trigger [] = Inr []"
| "chain_matches trigger (j # js) =
     sbind (normalize_account_reply_trigger (jget j ''trigger_message_created_at'')) (\<lambda>t.
       sbind (chain_matches trigger js) (\<lambda>ms. Inr (if t = trigger then j # ms else ms)))"

definition find_account_reply_job_by_chain ::
  "string \<Rightarrow> string \<Rightarrow> string option \<Rightarrow> reply_store \<Rightarrow> py_error + jdict option" where
  "find_account_reply_job_by_chain ticket_id trigger delivery_key s =
     sbind (normalize_account_reply_trigger (JStr trigger)) (\<lambda>t.
       if t = [] then Inr None
       else sbind (chain_matches t
              (filter (chain_candidate ticket_id (ostrip delivery_key)) (dvalues (rs_jobs s))))
              (\<lambda>ms. Inr (max_by_created ms)))"

definition latest_step :: "string list \<Rightarrow> jdict \<Rightarrow> (string, jdict) dict \<Rightarrow> (string, jdict) dict" where
  "latest_step ids job latest =
     (let ticket_id = jstrip (jget job ''ticket_id'')
      in if ticket_id \<notin> set ids then latest
         else case dget latest ticket_id of
             None \<Rightarrow> dset ticket_id job latest
           | Some existing \<Rightarrow>
               if jstr (jget existing ''created_at'') < jstr (jget job ''created_at'')
               then dset ticket_id job latest else latest)"

definition get_latest_account_reply_jobs :: "string list \<Rightarrow> reply_store \<Rightarrow> (string, jdict) dict" where
  "get_latest_account_reply_jobs ticket_ids s =
     (let ids = filter (\<lambda>i. i \<noteq> []) (map strip ticket_ids)
      in if ids = [] then [] else fold (latest_step ids) (dvalues (rs_jobs s)) [])"

section \<open>Saving a case\<close>

text \<open>
  Every saved case is normalised, and an automated production case is announced by e-mail once.
\<close>

type_synonym source_readers = "(string \<Rightarrow> json option) \<times> (string \<Rightarrow> string \<times> string)"

definition save_billing_ticket :: "source_readers \<Rightarrow> string \<Rightarrow> jdict \<Rightarrow> (reply_store, unit) op" where
  "save_billing_ticket readers now c s =
     (case normalize_account_case_record c of
        Inl e \<Rightarrow> (Inl e, s)
      | Inr n \<Rightarrow>
          (case dget n ''billing_ticket_id'' of
             None \<Rightarrow> (Inl (KeyError ''billing_ticket_id''), s)
           | Some key \<Rightarrow>
               let n1 = setdefault ''created_at'' (JStr now) n;
                   saved = setdefault ''updated_at'' (jget n1 ''created_at'') n1;
                   s1 = s\<lparr>rs_base := (rs_base s)\<lparr>cs_cases := dset (py_str key) saved (cs_cases (rs_base s))\<rparr>\<rparr>
               in case build_production_automation_classification_email (fst readers) (snd readers) saved of
                    Inl e \<Rightarrow> (Inl e, s1)
                  | Inr None \<Rightarrow> (Inr (), s1)
                  | Inr (Some e) \<Rightarrow> (Inr (), s1\<lparr>rs_emails := enqueue_classification_email e (rs_emails s1)\<rparr>)))"

section \<open>Human review\<close>

definition transition_claimed_account_reply_to_human_review ::
  "jdict \<Rightarrow> string \<Rightarrow> json \<Rightarrow> int \<Rightarrow> string \<Rightarrow> string \<Rightarrow> string \<Rightarrow> (reply_store, jdict option) op" where
  "transition_claimed_account_reply_to_human_review job expected_status expected_claimed_at expected_attempts
       reason policy_decision transitioned_at s =
     (let job_id = jstrip (jget job ''job_id''); ticket_id = jstrip (jget job ''ticket_id'')
      in if job_id = [] \<or> ticket_id = [] then (Inr None, s)
         else case dget (rs_jobs s) job_id of
             None \<Rightarrow> (Inr None, s)
           | Some current \<Rightarrow>
               if dget (cs_tickets (rs_base s)) ticket_id = None then (Inr None, s)
               else (case job_matches_claim current job expected_status expected_claimed_at expected_attempts of
                  Inl e \<Rightarrow> (Inl e, s)
                | Inr matching \<Rightarrow>
                    if \<not> matching \<or> (compatibility_only current \<and> \<not> compatibility_only job) then (Inr None, s)
                    else
                      let payload = jupdate [(''error'', JStr reason), (''persona_render_status'', JStr ''human_review'')]
                            (jdict (jget job ''payload''));
                          saved = jupdate [(''payload'', JDict payload), (''status'', JStr ''manual_attention''),
                            (''updated_at'', JStr transitioned_at)] job;
                          s1 = s\<lparr>rs_jobs := dset job_id saved (rs_jobs s)\<rparr>
                      in case dfind (\<lambda>c. jstrip (jget c ''client_ticket_id'') = ticket_id) (cs_cases (rs_base s)) of
                           None \<Rightarrow> (Inr (Some saved), s1)
                         | Some (key, c) \<Rightarrow>
                             (Inr (Some saved), s1\<lparr>
                                rs_base := (rs_base s)\<lparr>cs_cases := dset key
                                  (account_case_with_human_review_transition c reason policy_decision transitioned_at)
                                  (cs_cases (rs_base s))\<rparr>,
                                rs_events := record_ticket_event ticket_id ''automation_persona_human_review''
                                  [(''event'', JStr ''automation_persona_human_review''), (''ticket_id'', JStr ticket_id),
                                   (''job_id'', JStr job_id), (''reason'', JStr reason),
                                   (''created_at'', JStr transitioned_at)] transitioned_at (rs_events s)\<rparr>)))"

section \<open>The manual completion of an enablement\<close>

definition completed_workflow :: "json \<Rightarrow> string \<Rightarrow> jdict" where
  "completed_workflow workflow at =
     (if is_jdict workflow
      then jupdate [(''state'', JStr ''completed''), (''updated_at'', JStr at)] (jdict workflow)
      else [(''version'', JInt 1), (''state'', JStr ''completed''), (''legacy'', JBool True),
            (''completed_at'', JStr at)])"

definition cancel_other_jobs :: "string \<Rightarrow> string \<Rightarrow> string \<Rightarrow> (string, jdict) dict \<Rightarrow> (string, jdict) dict" where
  "cancel_other_jobs job_id ticket_id at jobs =
     map (\<lambda>(k, job). (k,
       if k \<noteq> job_id \<and> jstr (jget job ''ticket_id'') = ticket_id \<and>
          jstrip (jget job ''status'') \<in> set pending_reply_job_statuses
       then cancelled_job at job else job)) jobs"

definition claim_enablement_manual_completion ::
  "string \<Rightarrow> jdict \<Rightarrow> string \<Rightarrow> bool \<Rightarrow> (reply_store, bool) op" where
  "claim_enablement_manual_completion account_case_id job completed_at cancel_pending s =
     (let i = strip account_case_id; job_id = jstrip (jget job ''job_id'');
          ticket_id = jstrip (jget job ''ticket_id'')
      in if i = [] \<or> job_id = [] then (Inr False, s)
         else case dfind (\<lambda>c. case_id c = i) (cs_cases (rs_base s)) of
             None \<Rightarrow> (Inr False, s)
           | Some (key, current) \<Rightarrow>
               let context = jdict (jget current ''automation_context'');
                   workflow = jget context ''enablement_manual_workflow''
               in if jstrip (jget current ''automation_handler'') \<noteq> ''enablement'' \<or>
                     jstrip (jget current ''internal_email_send_status'') \<notin> {''sent'', ''delivery_unknown''} \<or>
                     jstrip (jget (jdict workflow) ''state'') = ''completed''
                  then (Inr False, s)
                  else case put_case key (jupdate
                         [(''automation_context'', JDict (dset ''enablement_manual_workflow''
                             (JDict (completed_workflow workflow completed_at)) context)),
                          (''updated_at'', JStr completed_at)] current) (rs_base s) of
                      (Inl e, _) \<Rightarrow> (Inl e, s)
                    | (Inr _, base) \<Rightarrow>
                        let s1 = s\<lparr>rs_base := base, rs_jobs :=
                              (if cancel_pending \<and> ticket_id \<noteq> []
                               then cancel_other_jobs job_id ticket_id completed_at (rs_jobs s) else rs_jobs s)\<rparr>
                        in case filled_job (JStr completed_at) (JStr completed_at) job of
                             Inl e \<Rightarrow> (Inl e, s1)
                           | Inr saved \<Rightarrow> (Inr True, s1\<lparr>rs_jobs := dset job_id saved (rs_jobs s1)\<rparr>))"

section \<open>Publication\<close>

subsection \<open>The message\<close>

definition message_job_id :: "jdict \<Rightarrow> string" where
  "message_job_id m =
     jstr (jor (jget (jdict (jget m ''meta'')) ''account_reply_job_id'') (jget m ''account_reply_job_id''))"

definition is_job_message :: "string \<Rightarrow> json \<Rightarrow> bool" where
  "is_job_message job_id m \<longleftrightarrow>
     is_jdict m \<and> lower (jstr (jget (jdict m) ''role'')) = ''assistant'' \<and> message_job_id (jdict m) = job_id"

fun find_message :: "(json \<Rightarrow> bool) \<Rightarrow> nat \<Rightarrow> json list \<Rightarrow> (nat \<times> json) option" where
  "find_message P n [] = None"
| "find_message P n (m # ms) = (if P m then Some (n, m) else find_message P (n + 1) ms)"

definition new_reply_message ::
  "string \<Rightarrow> string \<Rightarrow> nat \<Rightarrow> jdict \<Rightarrow> string \<Rightarrow> jdict \<Rightarrow> string \<Rightarrow> jdict" where
  "new_reply_message ticket_id job_id n job content payload published_at =
     [(''role'', JStr ''assistant''), (''content'', JStr (strip content)), (''created_at'', JStr published_at),
      (''content_format'', JStr ''plaintext''), (''source'', JStr ''account_ai''),
      (''meta'', JDict
         [(''account_reply_job_id'', JStr job_id), (''visibility'', JStr ''account_only''),
          (''trigger_message_created_at'', jget job ''trigger_message_created_at''),
          (''scheduled_for'', jget job ''scheduled_for''), (''published_at'', JStr published_at),
          (''asked_field_keys'', JList (jlist (jget payload ''asked_field_keys''))),
          (''persona_key'', jget payload ''persona_key''), (''persona_version'', jget payload ''persona_version''),
          (''persona_render_status'', jget payload ''persona_render_status''),
          (''rerun_job_id'', jget payload ''rerun_job_id''), (''reply_intent'', jget payload ''reply_intent''),
          (''source'', JStr ''account_ai''), (''attachments'', JList (jlist (jget payload ''attachments'')))]),
      (''message_id'', JStr (ticket_id @ '':'' @ show_int (int n)))]"

definition existing_reply_message :: "string \<Rightarrow> nat \<Rightarrow> jdict \<Rightarrow> jdict" where
  "existing_reply_message ticket_id n m =
     dset ''message_id'' (JStr (strip (str_or (jor (jget m ''message_id'') (jget m ''id''))
       (ticket_id @ '':'' @ show_int (int n))))) m"

text \<open>The message of the job and the messages of the ticket with it.\<close>

definition reply_message ::
  "string \<Rightarrow> string \<Rightarrow> jdict \<Rightarrow> string \<Rightarrow> jdict \<Rightarrow> string \<Rightarrow> json list \<Rightarrow> jdict \<times> json list" where
  "reply_message ticket_id job_id job content payload published_at ms =
     (case find_message (is_job_message job_id) 0 ms of
        None \<Rightarrow>
          let m = new_reply_message ticket_id job_id (length ms) job content payload published_at
          in (m, ms @ [JDict m])
      | Some (n, existing) \<Rightarrow>
          let m = existing_reply_message ticket_id n (jdict existing) in (m, ms[n := JDict m]))"

text \<open>Earlier generated replies of the ticket are marked as superseded.\<close>

definition supersedes :: "string \<Rightarrow> json \<Rightarrow> bool" where
  "supersedes except_job_id m \<longleftrightarrow>
     (let d = jdict m; meta = jdict (jget d ''meta'')
      in is_jdict m \<and> lower (jstr (jget d ''role'')) = ''assistant'' \<and>
         jstr (jor (jget meta ''source'') (jget d ''source'')) = ''account_ai'' \<and>
         message_job_id d \<noteq> except_job_id \<and> jget meta ''superseded'' \<noteq> JBool True)"

definition superseded_message :: "string \<Rightarrow> string \<Rightarrow> json \<Rightarrow> json" where
  "superseded_message except_job_id superseded_at m =
     JDict (dset ''meta'' (JDict (jupdate [(''superseded'', JBool True), (''superseded_at'', JStr superseded_at),
       (''superseded_by_job_id'', JStr except_job_id)] (jdict (jget (jdict m) ''meta'')))) (jdict m))"

definition supersede_messages :: "string \<Rightarrow> string \<Rightarrow> json list \<Rightarrow> json list" where
  "supersede_messages except_job_id superseded_at ms =
     map (\<lambda>m. if supersedes except_job_id m then superseded_message except_job_id superseded_at m else m) ms"

definition supersede_account_ai_messages ::
  "string \<Rightarrow> string \<Rightarrow> string \<Rightarrow> case_store \<Rightarrow> nat \<times> case_store" where
  "supersede_account_ai_messages ticket_id except_job_id superseded_at s =
     (case dget (cs_tickets s) (strip ticket_id) of
        None \<Rightarrow> (0, s)
      | Some t \<Rightarrow>
          let ms = jlist (jget t ''messages'')
          in (length (filter (supersedes except_job_id) ms),
              if filter (supersedes except_job_id) ms = [] then s
              else s\<lparr>cs_tickets := dset (strip ticket_id)
                (dset ''messages'' (JList (supersede_messages except_job_id superseded_at ms)) t) (cs_tickets s)\<rparr>))"

definition published_ticket ::
  "string \<Rightarrow> string \<Rightarrow> jdict \<Rightarrow> string \<Rightarrow> jdict \<Rightarrow> string \<Rightarrow> bool \<Rightarrow> jdict \<Rightarrow> jdict \<times> jdict" where
  "published_ticket ticket_id job_id job content payload published_at close_now t =
     (let (m, ms) = reply_message ticket_id job_id job content payload published_at (jlist (jget t ''messages''));
          ms' = (if truthy (jget payload ''replace_existing_reply'')
                 then supersede_messages job_id published_at ms else ms);
          t1 = jupdate [(''messages'', JList ms'), (''updated_at'', JStr published_at)] t
      in (m, if close_now
             then jupdate [(''status'', JStr ''resolved''), (''closed_at'', JStr published_at)] t1 else t1))"

subsection \<open>The case\<close>

definition closing :: "jdict \<Rightarrow> bool" where
  "closing payload = truthy (jget payload ''close_after_publish'')"

text \<open>A live case on Zendesk whose automation is registered, or that answers from the knowledge base.\<close>

definition delivery_eligible :: "jdict option \<Rightarrow> jdict \<Rightarrow> bool" where
  "delivery_eligible bt payload =
     (case bt of
        None \<Rightarrow> False
      | Some c \<Rightarrow>
          is_live_account_processing_profile (JStr (slower (str_or (jget c ''processing_profile'') ''staging''))) \<and>
          case_id c \<noteq> [] \<and> jstrip (jget c ''zendesk_ticket_id'') \<noteq> [] \<and>
          (jstrip (jget payload ''reply_intent'') = ''rag_fallback_answer'' \<or>
           is_registered_automation (jget c ''route_family'') (jor (jget c ''execution_action'') (jget c ''route''))))"

definition replied_case :: "string \<Rightarrow> bool \<Rightarrow> string \<Rightarrow> jdict \<Rightarrow> jdict" where
  "replied_case reply close_now at c =
     (let c1 = jupdate [(''customer_reply'', JStr reply), (''updated_at'', JStr at)] c;
          context = jdict (jget c ''automation_context'');
          workflow = jget context ''account_suspension_contact_workflow''
      in if close_now \<and> jstrip (jget c ''automation_handler'') = ''account_suspension'' \<and> is_jdict workflow
         then dset ''automation_context'' (JDict (dset ''account_suspension_contact_workflow''
                (JDict (jupdate [(''state'', JStr ''closed''), (''updated_at'', JStr at)] (jdict workflow))) context)) c1
         else c1)"

subsection \<open>The delivery\<close>

definition reply_delivery_request :: "jdict \<Rightarrow> string \<Rightarrow> bool \<Rightarrow> string \<Rightarrow> zendesk_request" where
  "reply_delivery_request c message_id close at =
     \<lparr> zr_account_case_id = case_id c, zr_message_id = message_id,
       zr_zendesk_ticket_id = jstrip (jget c ''zendesk_ticket_id''),
       zr_idempotency_key = ''production-zendesk-comment:'' @ case_id c @ '':'' @ message_id,
       zr_created_at = at, zr_is_public = True,
       zr_target_status = (if close then Some ''solved'' else None), zr_source = None,
       zr_engineer_case_id = None, zr_investigation_id = None, zr_draft_version = None,
       zr_comments_revision = None, zr_immutable_content = None, zr_attachments = None \<rparr>"

definition deliver_reply ::
  "jdict \<Rightarrow> string \<Rightarrow> jdict \<Rightarrow> string \<Rightarrow> (case_store, zendesk_delivery) op" where
  "deliver_reply c message_id payload at s =
     (case create_account_zendesk_comment_delivery (reply_delivery_request c message_id (closing payload) at)
             (cs_zendesk s) of
        (Inl e, _) \<Rightarrow> (Inl e, s)
      | (Inr (d, _), z) \<Rightarrow>
          let s1 = s\<lparr>cs_zendesk := z\<rparr>
          in case build_account_slack_event c message_id (jstr (jget payload ''reply_intent'')) of
               Inl e \<Rightarrow> (Inl e, s1)
             | Inr None \<Rightarrow> (Inr d, s1)
             | Inr (Some e) \<Rightarrow> (Inr d, s1\<lparr>cs_slack := add_slack_delivery e (case_id c) message_id at (cs_slack s1)\<rparr>))"

subsection \<open>The records of the job\<close>

definition save_account_reply_execution :: "string \<Rightarrow> jdict \<Rightarrow> (reply_store, jdict) op" where
  "save_account_reply_execution now execution s =
     (let saved = dset ''created_at'' (jor (jget execution ''created_at'') (JStr now)) execution
      in case dget saved ''ticket_id'' of
           None \<Rightarrow> (Inl (KeyError ''ticket_id''), s)
         | Some t \<Rightarrow>
             let old = (case dget (rs_executions s) (py_str t) of None \<Rightarrow> [] | Some xs \<Rightarrow> xs);
                 kept = filter (\<lambda>x. jget (jdict x) ''execution_id'' \<noteq> jget saved ''execution_id'') old
             in (Inr saved, s\<lparr>rs_executions := dset (py_str t) (kept @ [JDict saved]) (rs_executions s)\<rparr>))"

definition list_account_reply_executions :: "string option \<Rightarrow> reply_store \<Rightarrow> json list" where
  "list_account_reply_executions ticket_id s =
     (case ticket_id of
        Some t \<Rightarrow> (case dget (rs_executions s) t of None \<Rightarrow> [] | Some xs \<Rightarrow> xs)
      | None \<Rightarrow> sort_desc (\<lambda>x. jstr (jget (jdict x) ''created_at'')) (concat (dvalues (rs_executions s))))"

record reply_report =
  rp_content :: string
  rp_published_at :: string
  rp_message_id :: "string option"
  rp_delivery :: "zendesk_delivery option"
  rp_delivery_intent_id :: "string option"

datatype publish_outcome = Withheld string | Published reply_report

text \<open>The execution record and the job, after everything else has been written.\<close>

definition finish_publication ::
  "string \<Rightarrow> jdict \<Rightarrow> string \<Rightarrow> jdict \<Rightarrow> string \<Rightarrow> jdict \<Rightarrow> jdict \<Rightarrow> zendesk_delivery option
     \<Rightarrow> (reply_store, publish_outcome) op" where
  "finish_publication now job content payload published_at execution message delivery s =
     (case save_account_reply_execution now execution s of
        (Inl e, s1) \<Rightarrow> (Inl e, s1)
      | (Inr _, s1) \<Rightarrow>
          (case save_account_reply_job now (jupdate [(''payload'', JDict payload), (''status'', JStr ''published''),
                  (''published_at'', JStr published_at), (''updated_at'', JStr published_at)] job) s1 of
             (Inl e, s2) \<Rightarrow> (Inl e, s2)
           | (Inr _, s2) \<Rightarrow>
               (Inr (Published
                  \<lparr> rp_content = strip (str_or (jget message ''content'') content),
                    rp_published_at = published_at,
                    rp_message_id = or_none (jstrip (jget message ''message_id'')),
                    rp_delivery = delivery,
                    rp_delivery_intent_id = (case delivery of None \<Rightarrow> None
                      | Some d \<Rightarrow> or_none (strip (zd_idempotency_key d))) \<rparr>), s2)))"

text \<open>The ticket, the case and the deliveries of a reply that may be published.\<close>

definition write_reply ::
  "source_readers \<Rightarrow> string \<Rightarrow> string \<Rightarrow> string \<Rightarrow> jdict \<Rightarrow> string \<Rightarrow> jdict \<Rightarrow> string \<Rightarrow> jdict \<Rightarrow> jdict \<Rightarrow> jdict option
     \<Rightarrow> (reply_store, publish_outcome) op" where
  "write_reply readers now ticket_id job_id job content payload published_at execution t bt s =
     (let eligible = delivery_eligible bt payload;
          close_now = (closing payload \<and> \<not> eligible);
          (message, t') = published_ticket ticket_id job_id job content payload published_at close_now t;
          s1 = s\<lparr>rs_base := (rs_base s)\<lparr>cs_tickets := dset ticket_id t' (cs_tickets (rs_base s))\<rparr>\<rparr>
      in case bt of
           None \<Rightarrow> finish_publication now job content payload published_at execution message None s1
         | Some c \<Rightarrow>
             let c' = replied_case (strip (str_or (jget message ''content'') content)) close_now published_at c
             in case save_billing_ticket readers now c' s1 of
                  (Inl e, s2) \<Rightarrow> (Inl e, s2)
                | (Inr _, s2) \<Rightarrow>
                    if \<not> eligible
                    then finish_publication now job content payload published_at execution message None s2
                    else case deliver_reply c' (jstrip (jget message ''message_id'')) payload published_at (rs_base s2) of
                        (Inl e, base) \<Rightarrow> (Inl e, s2\<lparr>rs_base := base\<rparr>)
                      | (Inr d, base) \<Rightarrow> finish_publication now job content payload published_at execution message
                                           (Some d) (s2\<lparr>rs_base := base\<rparr>))"

text \<open>A case that is in human review keeps its job from being published.\<close>

definition withheld_job :: "string \<Rightarrow> jdict \<Rightarrow> string \<Rightarrow> jdict \<Rightarrow> jdict" where
  "withheld_job reason payload at current =
     jupdate [(''payload'', JDict (jupdate [(''error'', JStr reason),
                (''persona_render_status'', JStr ''human_review'')] payload)),
              (''status'', JStr ''manual_attention''), (''updated_at'', JStr at)] current"

definition publishing_statuses :: "string list" where
  "publishing_statuses = [''publishing'', ''persona_publishing'', ''persona_v8_publishing'']"

definition publishable :: "jdict \<Rightarrow> jdict \<Rightarrow> py_error + bool" where
  "publishable current job =
     (if jstr (jget job ''status'') \<notin> set publishing_statuses then Inr False
      else sbind (int_or_zero (jget job ''attempt_count'')) (\<lambda>n.
        sbind (job_matches_claim current job (jstr (jget job ''status'')) (jget job ''claimed_at'') n) (\<lambda>matching.
          Inr (matching \<and> \<not> (compatibility_only current \<and> \<not> compatibility_only job)))))"

definition publish_account_reply ::
  "source_readers \<Rightarrow> string \<Rightarrow> jdict \<Rightarrow> string \<Rightarrow> jdict \<Rightarrow> string \<Rightarrow> jdict \<Rightarrow> (reply_store, publish_outcome) op" where
  "publish_account_reply readers now job content payload published_at execution s =
     (let ticket_id = jstrip (jget job ''ticket_id''); job_id = jstrip (jget job ''job_id'')
      in case dget (rs_jobs s) job_id of
           None \<Rightarrow> (Inl (KeyError job_id), s)
         | Some current \<Rightarrow>
             (case publishable current job of
                Inl e \<Rightarrow> (Inl e, s)
              | Inr False \<Rightarrow> (Inl (KeyError job_id), s)
              | Inr True \<Rightarrow>
                  (case dget (cs_tickets (rs_base s)) ticket_id of
                     None \<Rightarrow> (Inl (ValueError ''ticket not found''), s)
                   | Some t \<Rightarrow>
                       (case get_billing_ticket_by_client_ticket_id ticket_id (rs_base s) of
                          None \<Rightarrow> write_reply readers now ticket_id job_id job content payload published_at execution
                                    t None s
                        | Some c \<Rightarrow>
                            if account_case_requires_human_review c
                            then let reason = account_case_human_review_reason c
                                 in (Inr (Withheld reason), s\<lparr>rs_jobs := dset job_id
                                       (withheld_job reason payload published_at current) (rs_jobs s)\<rparr>)
                            else write_reply readers now ticket_id job_id job content payload published_at execution
                                   t (Some c) s))))"

section \<open>Creation\<close>

record reply_request =
  rq_ticket_id :: string
  rq_trigger_message_created_at :: string
  rq_created_at :: string
  rq_delay_seconds :: int
  rq_draft_content :: string
  rq_reply_facts :: json
  rq_asked_field_keys :: "json list"
  rq_persona_assignment :: jdict
  rq_automation_delivery_key :: "string option"
  rq_rerun_job_id :: "string option"
  rq_close_after_publish :: bool
  rq_reply_intent :: "string option"
  rq_hermes_compatibility_only :: bool

text \<open>\<open>datetime.fromisoformat(s).astimezone(timezone.utc)\<close>: a time without a zone is local.\<close>

definition to_utc :: "(int \<Rightarrow> int) \<Rightarrow> string \<Rightarrow> py_error + int" where
  "to_utc local s =
     (case fromisoformat s of
        None \<Rightarrow> Inl (ValueError (''Invalid isoformat string: '' @ repr_str s))
      | Some d \<Rightarrow>
          let t = (case d of Naive w \<Rightarrow> local w | Aware w off \<Rightarrow> w - off)
          in if valid_instant t then Inr t else Inl (OverflowError ''date value out of range''))"

definition scheduled_for :: "(int \<Rightarrow> int) \<Rightarrow> reply_request \<Rightarrow> py_error + string" where
  "scheduled_for local q =
     sbind (to_utc local (rq_trigger_message_created_at q)) (\<lambda>trigger.
       sbind (to_utc local (rq_created_at q)) (\<lambda>created.
         let t = max trigger created + rq_delay_seconds q * 1000000
         in if valid_instant t then Inr (isoformat t) else Inl (OverflowError ''date value out of range'')))"

text \<open>The conversation a case carries for its reply is copied into the facts.\<close>

definition with_conversation :: "jdict option \<Rightarrow> jdict \<Rightarrow> jdict" where
  "with_conversation c facts =
     (case c of
        None \<Rightarrow> facts
      | Some c \<Rightarrow>
          let context = jget (jdict (jget c ''automation_context'')) ''reply_conversation_context''
          in if is_jdict context \<and> jget (jdict context) ''version'' = JStr ''automation-context-v1''
             then dset ''conversation_context'' context facts else facts)"

definition asked_keys :: "json list \<Rightarrow> json" where
  "asked_keys ks =
     JList (map JStr (sort (remdups (map slower (filter (\<lambda>s. strip s \<noteq> []) (map py_str ks))))))"

definition base_payload :: "reply_request \<Rightarrow> jdict" where
  "base_payload q =
     (let p = [(''draft_content'', JStr (strip (rq_draft_content q))),
               (''asked_field_keys'', asked_keys (rq_asked_field_keys q)),
               (''visibility'', JStr ''account_only''),
               (''reply_owner'', JStr ''account_reply_job_legacy'')]
      in if rq_hermes_compatibility_only q
         then jupdate [(''reply_owner'', JStr ''hermes_persona''), (''hermes_compatibility_only'', JBool True)] p
         else p)"

definition clean_references :: "json \<Rightarrow> json" where
  "clean_references v = JList (map JStr (filter (\<lambda>s. s \<noteq> []) (map (\<lambda>x. strip (py_str x)) (jlist v))))"

text \<open>
  A fallback or progress answer needs its answer among the facts to go through the persona
  pipeline.
\<close>

definition with_facts :: "string option \<Rightarrow> jdict \<Rightarrow> jdict \<Rightarrow> jdict" where
  "with_facts intent facts p =
     (if facts = [] \<or>
         intent \<in> {Some ''rag_fallback_answer'', Some ''progress_inquiry_answer''} \<and>
         jstrip (jget facts ''provided_answer'') = []
      then p
      else let facts' = (if intent = Some ''rag_fallback_answer''
                         then dset ''references'' (clean_references (jget facts ''references'')) facts else facts)
           in jupdate [(''reply_facts'', JDict facts'), (''reply_pipeline'', JStr persona_pipeline)] p)"

definition with_persona :: "jdict \<Rightarrow> jdict \<Rightarrow> jdict" where
  "with_persona a p =
     (if a = [] then p
      else jupdate [(''persona_key'', jget a ''persona_key''), (''persona_version'', jget a ''version''),
                    (''effective_prompt'', jor (jget a ''content'') (JDict []))] p)"

definition with_keys :: "reply_request \<Rightarrow> string option \<Rightarrow> bool \<Rightarrow> jdict \<Rightarrow> jdict" where
  "with_keys q intent close p =
     (let key = ostrip (rq_automation_delivery_key q); rerun = ostrip (rq_rerun_job_id q);
          p1 = (if key = [] then p else dset ''automation_delivery_key'' (JStr key) p);
          p2 = (if rerun = [] then p1
                else jupdate [(''rerun_job_id'', JStr rerun), (''replace_existing_reply'', JBool True)] p1);
          p3 = (if close then dset ''close_after_publish'' (JBool True) p2 else p2)
      in case intent of None \<Rightarrow> p3 | Some i \<Rightarrow> dset ''reply_intent'' (JStr i) p3)"

definition new_reply_job :: "string \<Rightarrow> reply_request \<Rightarrow> string \<Rightarrow> jdict \<Rightarrow> jdict" where
  "new_reply_job job_id q scheduled payload =
     [(''job_id'', JStr (''account-reply-'' @ job_id)), (''ticket_id'', JStr (rq_ticket_id q)),
      (''trigger_message_created_at'', JStr (rq_trigger_message_created_at q)),
      (''status'', JStr (if jget payload ''reply_pipeline'' = JStr persona_pipeline then ''persona_v8_queued''
                         else if truthy (jget payload ''draft_content'') then ''scheduled'' else ''queued'')),
      (''scheduled_for'', JStr scheduled), (''payload'', JDict payload), (''attempt_count'', JInt 0),
      (''claimed_at'', JNull), (''published_at'', JNull), (''created_at'', JStr (rq_created_at q)),
      (''updated_at'', JStr (rq_created_at q))]"

definition create_account_reply_job ::
  "(int \<Rightarrow> int) \<Rightarrow> string \<Rightarrow> string \<Rightarrow> reply_request \<Rightarrow> (reply_store, jdict) op" where
  "create_account_reply_job local now job_id q s =
     (case sbind (scheduled_for local q) (\<lambda>scheduled.
             map_sum id (Pair scheduled) (normalize_account_reply_contract (rq_reply_facts q)
               (of_opt (rq_reply_intent q)) (rq_close_after_publish q) True)) of
        Inl e \<Rightarrow> (Inl e, s)
      | Inr (scheduled, facts, intent, close) \<Rightarrow>
          let facts' = with_conversation (get_billing_ticket_by_client_ticket_id (rq_ticket_id q) (rs_base s)) facts;
              s1 = snd (cancel_pending_account_reply_jobs (rq_ticket_id q) (rq_created_at q) (rq_rerun_job_id q) s);
              payload = with_keys q intent close
                (with_persona (rq_persona_assignment q) (with_facts intent facts' (base_payload q)))
          in save_account_reply_job now (new_reply_job job_id q scheduled payload) s1)"

section \<open>Where jobs are stored\<close>

text \<open>A row is stored under its own identifier.\<close>

definition jobs_wf :: "reply_store \<Rightarrow> bool" where
  "jobs_wf s \<longleftrightarrow> (\<forall>k j. dget (rs_jobs s) k = Some j \<longrightarrow> jstr (jget j ''job_id'') = k \<and> k \<noteq> [])"

lemma jobs_wfD: "jobs_wf s \<Longrightarrow> dget (rs_jobs s) k = Some j \<Longrightarrow> jstr (jget j ''job_id'') = k \<and> k \<noteq> []"
  by (simp add: jobs_wf_def)

lemma jobs_wf_dset:
  "jobs_wf s \<Longrightarrow> jstr (jget j ''job_id'') = k \<Longrightarrow> k \<noteq> [] \<Longrightarrow> rs_jobs s' = dset k j (rs_jobs s) \<Longrightarrow> jobs_wf s'"
  by (simp add: jobs_wf_def dget_dset)

lemma jstr_py_str: "jstr x \<noteq> [] \<Longrightarrow> py_str x = jstr x"
  by (simp add: jstr_def split: if_splits)

lemma filled_job_fields:
  "filled_job c u job = Inr saved \<Longrightarrow>
     jget saved ''job_id'' = jget job ''job_id'' \<and> jget saved ''status'' = jget job ''status'' \<and>
     jget saved ''ticket_id'' = jget job ''ticket_id'' \<and> jget saved ''payload'' = jget job ''payload'' \<and>
     (dget saved ''job_id'' = None \<longleftrightarrow> dget job ''job_id'' = None)"
  by (auto simp: filled_job_def Let_def sbind_Inr dget_dset)

lemma matches_claimD:
  "job_matches_claim current claimed st ca n = Inr True \<Longrightarrow>
     jstr (jget current ''job_id'') = jstr (jget claimed ''job_id'') \<and> jstr (jget current ''status'') = st \<and>
     jstr (jget current ''ticket_id'') = jstr (jget claimed ''ticket_id'')"
  by (simp add: job_matches_claim_def split: if_splits)

text \<open>What saving does to the table.\<close>

lemma save_job_effect:
  assumes "save_account_reply_job now job s = (Inr saved, s')" "jstr (jget job ''job_id'') = k" "k \<noteq> []"
  shows "rs_jobs s' = dset k saved (rs_jobs s) \<and> rs_base s' = rs_base s \<and>
    jget saved ''job_id'' = jget job ''job_id'' \<and> jget saved ''status'' = jget job ''status'' \<and>
    jget saved ''ticket_id'' = jget job ''ticket_id''"
proof -
  from assms(1) obtain f where f: "filled_job (JStr now) JNull job = Inr f"
    by (auto simp: save_account_reply_job_def split: sum.splits)
  with assms(1) obtain j where j: "dget f ''job_id'' = Some j" "saved = f" "s' = s\<lparr>rs_jobs := dset (py_str j) f (rs_jobs s)\<rparr>"
    by (auto simp: save_account_reply_job_def split: option.splits)
  from j(1) have "jget f ''job_id'' = j" by (simp add: jget_def)
  with filled_job_fields [OF f] assms(2,3) have "py_str j = k" by (auto intro: jstr_py_str)
  with j filled_job_fields [OF f] show ?thesis by simp
qed

section \<open>Published once\<close>

lemma publishableD:
  "publishable current job = Inr True \<Longrightarrow>
     jstr (jget current ''job_id'') = jstr (jget job ''job_id'') \<and> jstr (jget current ''status'') \<in> set publishing_statuses"
  by (auto simp: publishable_def sbind_Inr dest!: matches_claimD split: if_splits)

lemma unpublishable:
  assumes "dget (rs_jobs s) (jstrip (jget job ''job_id'')) = Some current"
    and "jstr (jget current ''status'') \<notin> set publishing_statuses"
  shows "\<exists>e. publish_account_reply readers now job content payload at execution s = (Inl e, s)"
proof (cases "publishable current job")
  case (Inr b)
  with publishableD [of current job] assms(2) have "publishable current job = Inr False" by (cases b) auto
  with assms(1) show ?thesis by (simp add: publish_account_reply_def)
next
  case (Inl e)
  with assms(1) show ?thesis by (simp add: publish_account_reply_def)
qed

lemma execution_frame:
  "save_account_reply_execution now x s = (r, s') \<Longrightarrow> rs_jobs s' = rs_jobs s \<and> rs_base s' = rs_base s"
  by (auto simp: save_account_reply_execution_def Let_def split: option.splits)

lemma save_case_frame:
  "save_billing_ticket readers now c s = (r, s') \<Longrightarrow>
     rs_jobs s' = rs_jobs s \<and> cs_tickets (rs_base s') = cs_tickets (rs_base s) \<and>
     cs_zendesk (rs_base s') = cs_zendesk (rs_base s) \<and> cs_slack (rs_base s') = cs_slack (rs_base s)"
  by (auto simp: save_billing_ticket_def Let_def split: sum.splits option.splits)

lemma deliver_reply_frame: "deliver_reply c m payload at s = (r, s') \<Longrightarrow> cs_tickets s' = cs_tickets s"
  by (auto simp: deliver_reply_def Let_def split: sum.splits option.splits prod.splits)

lemma finish_publication_effect:
  assumes "finish_publication now job content payload at execution m d s = (Inr out, s')"
    and "jstr (jget job ''job_id'') = k" "k \<noteq> []"
  shows "\<exists>saved. rs_jobs s' = dset k saved (rs_jobs s) \<and> rs_base s' = rs_base s \<and>
    jget saved ''status'' = JStr ''published'' \<and> jstr (jget saved ''job_id'') = k"
proof -
  let ?job = "jupdate [(''payload'', JDict payload), (''status'', JStr ''published''),
                  (''published_at'', JStr at), (''updated_at'', JStr at)] job"
  from assms(1) obtain x s1 where s1: "save_account_reply_execution now execution s = (Inr x, s1)"
    by (auto simp: finish_publication_def split: sum.splits prod.splits)
  with assms(1) obtain saved where saved: "save_account_reply_job now ?job s1 = (Inr saved, s')"
    by (auto simp: finish_publication_def split: sum.splits prod.splits)
  have "jstr (jget ?job ''job_id'') = k" using assms(2) by simp
  from save_job_effect [OF saved this assms(3)] execution_frame [OF s1] assms(2)
  show ?thesis by (intro exI [of _ saved]) simp
qed

text \<open>What a publication that went through has written.\<close>

lemma write_reply_effect:
  assumes "write_reply readers now t k job content payload at execution ticket bt s = (Inr out, s')"
    and "jstr (jget job ''job_id'') = k" "k \<noteq> []"
  shows "(\<exists>saved. rs_jobs s' = dset k saved (rs_jobs s) \<and> jget saved ''status'' = JStr ''published'' \<and>
      jstr (jget saved ''job_id'') = k) \<and>
    cs_tickets (rs_base s') = dset t
      (snd (published_ticket t k job content payload at (closing payload \<and> \<not> delivery_eligible bt payload) ticket))
      (cs_tickets (rs_base s))"
proof -
  obtain m t' where p: "published_ticket t k job content payload at (closing payload \<and> \<not> delivery_eligible bt payload) ticket = (m, t')"
    by fastforce
  define s1 where "s1 = s\<lparr>rs_base := (rs_base s)\<lparr>cs_tickets := dset t t' (cs_tickets (rs_base s))\<rparr>\<rparr>"
  note unf = write_reply_def Let_def p prod.case s1_def [symmetric]
  have "\<exists>d s2. finish_publication now job content payload at execution m d s2 = (Inr out, s') \<and>
      rs_jobs s2 = rs_jobs s1 \<and> cs_tickets (rs_base s2) = cs_tickets (rs_base s1)"
  proof (cases bt)
    case None
    with assms(1) have "finish_publication now job content payload at execution m None s1 = (Inr out, s')"
      unfolding unf by simp
    then show ?thesis by blast
  next
    case (Some c)
    define c' where "c' = replied_case (strip (str_or (jget m ''content'') content))
        (closing payload \<and> \<not> delivery_eligible bt payload) at c"
    obtain r s2 where s2: "save_billing_ticket readers now c' s1 = (r, s2)" by fastforce
    with assms(1) Some have "r = Inr ()" unfolding unf c'_def [symmetric]
      by (cases r) (auto simp: c'_def)
    obtain d base where d: "deliver_reply c' (jstrip (jget m ''message_id'')) payload at (rs_base s2) = (d, base)"
      by fastforce
    show ?thesis
    proof (cases "delivery_eligible bt payload")
      case False
      with assms(1) Some s2 \<open>r = Inr ()\<close>
      have "finish_publication now job content payload at execution m None s2 = (Inr out, s')"
        unfolding unf by (simp add: c'_def)
      with save_case_frame [OF s2] show ?thesis by blast
    next
      case True
      with assms(1) Some s2 \<open>r = Inr ()\<close> d obtain x where
        "finish_publication now job content payload at execution m (Some x) (s2\<lparr>rs_base := base\<rparr>) = (Inr out, s')"
        unfolding unf by (cases d) (auto simp: c'_def)
      with save_case_frame [OF s2] deliver_reply_frame [OF d] show ?thesis by fastforce
    qed
  qed
  then obtain d s2 where s2: "finish_publication now job content payload at execution m d s2 = (Inr out, s')"
    "rs_jobs s2 = rs_jobs s1" "cs_tickets (rs_base s2) = cs_tickets (rs_base s1)" by blast
  from finish_publication_effect [OF s2(1) assms(2,3)] s2(2,3) show ?thesis
    by (auto simp: p s1_def)
qed

lemma publish_cases:
  assumes "publish_account_reply readers now job content payload at execution s = (Inr out, s')"
  obtains t current bt where "dget (rs_jobs s) (jstrip (jget job ''job_id'')) = Some current"
    "publishable current job = Inr True" "dget (cs_tickets (rs_base s)) (jstrip (jget job ''ticket_id'')) = Some t"
    "write_reply readers now (jstrip (jget job ''ticket_id'')) (jstrip (jget job ''job_id'')) job content payload at
       execution t bt s = (Inr out, s')"
  | current reason where "dget (rs_jobs s) (jstrip (jget job ''job_id'')) = Some current"
    "publishable current job = Inr True" "out = Withheld reason"
    "s' = s\<lparr>rs_jobs := dset (jstrip (jget job ''job_id'')) (withheld_job reason payload at current) (rs_jobs s)\<rparr>"
proof -
  from assms obtain current where c: "dget (rs_jobs s) (jstrip (jget job ''job_id'')) = Some current"
    and p: "publishable current job = Inr True"
    by (auto simp: publish_account_reply_def Let_def split: option.splits sum.splits bool.splits)
  from assms c p obtain t where t: "dget (cs_tickets (rs_base s)) (jstrip (jget job ''ticket_id'')) = Some t"
    by (auto simp: publish_account_reply_def Let_def split: option.splits)
  show thesis
  proof (cases "get_billing_ticket_by_client_ticket_id (jstrip (jget job ''ticket_id'')) (rs_base s)")
    case None
    with assms c p t show thesis by (intro that(1)) (simp_all add: publish_account_reply_def)
  next
    case (Some b)
    show thesis
    proof (cases "account_case_requires_human_review b")
      case True
      with assms c p t Some show thesis
        by (intro that(2) [of current "account_case_human_review_reason b"])
           (auto simp: publish_account_reply_def Let_def)
    next
      case False
      with assms c p t Some show thesis by (intro that(1)) (simp_all add: publish_account_reply_def)
    qed
  qed
qed

lemma publishable_id:
  assumes "jobs_wf s" "dget (rs_jobs s) (jstrip (jget job ''job_id'')) = Some current" "publishable current job = Inr True"
  shows "jstr (jget job ''job_id'') = jstrip (jget job ''job_id'')" "jstrip (jget job ''job_id'') \<noteq> []"
  using jobs_wfD [OF assms(1,2)] publishableD [OF assms(3)] by simp_all

lemma publish_effect:
  assumes "publish_account_reply readers now job content payload at execution s = (Inr out, s')" "jobs_wf s"
  shows "\<exists>saved. rs_jobs s' = dset (jstrip (jget job ''job_id'')) saved (rs_jobs s) \<and>
    jget saved ''status'' = JStr (case out of Withheld _ \<Rightarrow> ''manual_attention'' | Published _ \<Rightarrow> ''published'') \<and>
    jstr (jget saved ''job_id'') = jstrip (jget job ''job_id'')"
proof (rule publish_cases [OF assms(1)], goal_cases)
  case (1 t current bt)
  note i = publishable_id [OF assms(2) 1(1,2)]
  have "\<exists>r. out = Published r" using 1(4)
    by (auto simp: write_reply_def Let_def finish_publication_def split: prod.splits option.splits sum.splits if_splits)
  with write_reply_effect [OF 1(4) i] show ?case by auto
next
  case (2 current reason)
  with jobs_wfD [OF assms(2) 2(1)] show ?case by (auto simp: withheld_job_def)
qed


section \<open>One message for a job\<close>

definition job_messages :: "string \<Rightarrow> jdict \<Rightarrow> nat" where
  "job_messages job_id t = length (filter (is_job_message job_id) (jlist (jget t ''messages'')))"

lemma find_message_spec:
  "find_message P n ms = (case find P ms of None \<Rightarrow> None | Some m \<Rightarrow> Some (n + length (takeWhile (\<lambda>x. \<not> P x) ms), m))"
  by (induction ms arbitrary: n) (auto split: option.splits)

lemma takeWhile_index: "find P ms = Some m \<Longrightarrow> length (takeWhile (\<lambda>x. \<not> P x) ms) < length ms \<and>
    ms ! length (takeWhile (\<lambda>x. \<not> P x) ms) = m \<and> P m"
  by (induction ms) (auto split: if_splits)

lemma filter_update_length:
  "i < length ms \<Longrightarrow> Q m \<longleftrightarrow> Q (ms ! i) \<Longrightarrow> length (filter Q (ms[i := m])) = length (filter Q ms)"
  by (induction ms arbitrary: i) (auto split: nat.split)

lemma superseded_same_job: "supersedes e m \<Longrightarrow> is_job_message j (superseded_message e at m) = is_job_message j m"
  by (simp add: is_job_message_def message_job_id_def superseded_message_def supersedes_def Let_def)

lemma supersede_count:
  "length (filter (is_job_message j) (supersede_messages e at ms)) = length (filter (is_job_message j) ms)"
  by (induction ms) (simp_all add: supersede_messages_def superseded_same_job)

lemma lower_assistant: "lower ''assistant'' = ''assistant''"
  by code_simp

lemma reply_message_count:
  assumes "k \<noteq> []"
  shows "length (filter (is_job_message j) (snd (reply_message t k job content payload at ms))) =
    (if j = k then max 1 (length (filter (is_job_message j) ms)) else length (filter (is_job_message j) ms))"
proof (cases "find (is_job_message k) ms")
  case None
  then have "filter (is_job_message k) ms = []" by (simp add: find_None_iff filter_empty_conv)
  moreover have "is_job_message j (JDict (new_reply_message t k n job content payload at)) \<longleftrightarrow> j = k" for n
    using assms by (auto simp: is_job_message_def message_job_id_def new_reply_message_def jor_def lower_assistant)
  ultimately show ?thesis using None by (simp add: reply_message_def find_message_spec Let_def)
next
  case (Some m)
  let ?n = "length (takeWhile (\<lambda>x. \<not> is_job_message k x) ms)"
  note i = takeWhile_index [OF Some]
  have "is_job_message j (JDict (existing_reply_message t ?n (jdict m))) = is_job_message j m"
    using i by (simp add: is_job_message_def message_job_id_def existing_reply_message_def)
  with i have c: "length (filter (is_job_message j) (ms[?n := JDict (existing_reply_message t ?n (jdict m))]))
      = length (filter (is_job_message j) ms)" by (intro filter_update_length) simp_all
  have "m \<in> set ms" using i by (metis nth_mem)
  with i have "1 \<le> length (filter (is_job_message k) ms)" by (auto simp: Suc_le_eq filter_empty_conv)
  then have "max 1 (length (filter (is_job_message k) ms)) = length (filter (is_job_message k) ms)"
    by (rule max.absorb2)
  with c Some show ?thesis by (simp add: reply_message_def find_message_spec Let_def)
qed

lemma published_ticket_count:
  assumes "k \<noteq> []"
  shows "job_messages j (snd (published_ticket t k job content payload at close_now ticket)) =
    (if j = k then max 1 (job_messages j ticket) else job_messages j ticket)"
  unfolding job_messages_def
    reply_message_count [OF assms, of j t job content payload at "jlist (jget ticket ''messages'')", symmetric]
  by (simp add: published_ticket_def split_def Let_def supersede_count)

text \<open>C8
  Publishing is idempotent in the conversation: when a reply has been published, its ticket holds
  exactly one message of the job (or as many as before, if there were some), the messages of every
  other job are as many as before, superseded ones included, and no other ticket has changed.
\<close>

theorem reply_message_once:
  assumes "jobs_wf s"
    and "publish_account_reply readers now job content payload at execution s = (Inr (Published r), s')"
  shows "\<exists>t t'. dget (cs_tickets (rs_base s)) (jstrip (jget job ''ticket_id'')) = Some t \<and>
    cs_tickets (rs_base s') = dset (jstrip (jget job ''ticket_id'')) t' (cs_tickets (rs_base s)) \<and>
    (\<forall>j. job_messages j t' =
       (if j = jstrip (jget job ''job_id'') then max 1 (job_messages j t) else job_messages j t))"
proof (rule publish_cases [OF assms(2)], goal_cases)
  case (1 t current bt)
  note i = publishable_id [OF assms(1) 1(1,2)]
  from write_reply_effect [OF 1(4) i] 1(3) published_ticket_count [OF i(2)] show ?case by blast
qed simp

section \<open>Claims do not overlap\<close>

text \<open>
  The claimed jobs are rows of the table that had the first status and now have the second; the
  other rows are as they were.
\<close>

lemma claimed_job_fields [simp]:
  "jget (claimed_job to_status now n job) ''status'' = JStr to_status"
  "jget (claimed_job to_status now n job) ''job_id'' = jget job ''job_id''"
  by (simp_all add: claimed_job_def)

lemma claim_jobs_effect:
  assumes "claim_jobs from_status to_status now limit due rest claimed jobs = (Inr out, jobs')"
    and "from_status \<noteq> to_status" "distinct (map fst rest)"
    and "\<And>k j. (k, j) \<in> set rest \<Longrightarrow> jstr (jget j ''job_id'') = k"
    and "\<And>c. c \<in> set claimed \<Longrightarrow> dget jobs (jstr (jget c ''job_id'')) = Some c \<and> jstr (jget c ''status'') = to_status
           \<and> jstr (jget c ''job_id'') \<notin> fst ` set rest"
  shows "\<forall>c \<in> set out. dget jobs' (jstr (jget c ''job_id'')) = Some c \<and> jstr (jget c ''status'') = to_status"
  using assms
proof (induction rest arbitrary: claimed jobs)
  case (Cons r rest)
  obtain k job where r: "r = (k, job)" by (cases r)
  consider "limit \<le> length claimed" | "\<not> limit \<le> length claimed" "\<not> claimable from_status now due job"
    | "\<not> limit \<le> length claimed" "claimable from_status now due job" by blast
  then show ?case
  proof cases
    case 1
    with Cons.prems show ?thesis by (simp add: r)
  next
    case 2
    show ?thesis
    proof (rule Cons.IH)
      show "claim_jobs from_status to_status now limit due rest claimed jobs = (Inr out, jobs')"
        using Cons.prems(1) 2 by (simp add: r)
      show "jstr (jget j ''job_id'') = k'" if "(k', j) \<in> set rest" for k' j using Cons.prems(4) that by simp
      show "dget jobs (jstr (jget c ''job_id'')) = Some c \<and> jstr (jget c ''status'') = to_status \<and>
          jstr (jget c ''job_id'') \<notin> fst ` set rest" if "c \<in> set claimed" for c
        using Cons.prems(5) [OF that] by simp
    qed (use Cons.prems in simp_all)
  next
    case 3
    with Cons.prems(1) obtain n where n: "int_or_zero (jget job ''attempt_count'') = Inr n"
      by (cases "int_or_zero (jget job ''attempt_count'')") (simp_all add: r)
    have k: "jstr (jget job ''job_id'') = k" using Cons.prems(4) [of k job] by (simp add: r)
    show ?thesis
    proof (rule Cons.IH)
      show "claim_jobs from_status to_status now limit due rest (claimed @ [claimed_job to_status now n job])
          (dset k (claimed_job to_status now n job) jobs) = (Inr out, jobs')"
        using Cons.prems(1) 3 n by (simp add: r)
      show "jstr (jget j ''job_id'') = k'" if "(k', j) \<in> set rest" for k' j using Cons.prems(4) that by simp
      show "dget (dset k (claimed_job to_status now n job) jobs) (jstr (jget c ''job_id'')) = Some c \<and>
          jstr (jget c ''status'') = to_status \<and> jstr (jget c ''job_id'') \<notin> fst ` set rest"
        if "c \<in> set (claimed @ [claimed_job to_status now n job])" for c
      proof (cases "c \<in> set claimed")
        case True
        with Cons.prems(5) [OF True] show ?thesis by (simp add: r dget_dset)
      next
        case False
        with that have c: "c = claimed_job to_status now n job" by simp
        have "k \<notin> fst ` set rest" using Cons.prems(3) by (simp add: r)
        then show ?thesis by (simp add: c k dget_dset)
      qed
    qed (use Cons.prems in simp_all)
  qed
qed simp

lemma claim_jobs_from:
  assumes "claim_jobs from_status to_status now limit due rest claimed jobs = (Inr out, jobs')"
    and "\<And>k j. (k, j) \<in> set rest \<Longrightarrow> jstr (jget j ''job_id'') = k" "c \<in> set out"
  shows "c \<in> set claimed \<or> (\<exists>j. (jstr (jget c ''job_id''), j) \<in> set rest \<and> jstr (jget j ''status'') = from_status)"
  using assms
proof (induction rest arbitrary: claimed jobs)
  case (Cons r rest)
  obtain k job where r: "r = (k, job)" by (cases r)
  have ids: "jstr (jget j ''job_id'') = k'" if "(k', j) \<in> set rest" for k' j using Cons.prems(2) that by simp
  consider "limit \<le> length claimed" | "\<not> limit \<le> length claimed" "\<not> claimable from_status now due job"
    | "\<not> limit \<le> length claimed" "claimable from_status now due job" by blast
  then show ?case
  proof cases
    case 1
    with Cons.prems show ?thesis by (simp add: r)
  next
    case 2
    with Cons.prems(1) have "claim_jobs from_status to_status now limit due rest claimed jobs = (Inr out, jobs')"
      by (simp add: r)
    from Cons.IH [OF this ids Cons.prems(3)] show ?thesis by (auto simp: r)
  next
    case 3
    with Cons.prems(1) obtain n where "int_or_zero (jget job ''attempt_count'') = Inr n"
      by (cases "int_or_zero (jget job ''attempt_count'')") (simp_all add: r)
    with Cons.prems(1) 3 have "claim_jobs from_status to_status now limit due rest
        (claimed @ [claimed_job to_status now n job]) (dset k (claimed_job to_status now n job) jobs) = (Inr out, jobs')"
      by (simp add: r)
    from Cons.IH [OF this ids Cons.prems(3)] Cons.prems(2) [of k job] 3(2) show ?thesis
      by (auto simp: r claimable_def)
  qed
qed simp

definition job_ids :: "jdict list \<Rightarrow> string set" where
  "job_ids js = (\<lambda>j. jstr (jget j ''job_id'')) ` set js"


lemma distinct_sort_key: "distinct (map fst (sort_key f xs)) = distinct (map fst xs)"
proof -
  have "mset (map fst (sort_key f xs)) = mset (map fst xs)" by simp
  then show ?thesis by (metis distinct_count_atmost_1 mset_eq_setD)
qed

lemma due_order_rows [simp]:
  "set (due_order jobs) = set jobs" "distinct (map fst (due_order jobs)) = distinct (map fst jobs)"
  by (simp_all add: due_order_def distinct_sort_key)

lemma claim_jobs_rows:
  assumes "claim_jobs from_status to_status now limit due rest claimed jobs = (res, jobs')" "wf_dict jobs"
    and "\<And>k j. dget jobs k = Some j \<Longrightarrow> jstr (jget j ''job_id'') = k \<and> k \<noteq> []"
    and "\<And>k j. (k, j) \<in> set rest \<Longrightarrow> jstr (jget j ''job_id'') = k \<and> k \<noteq> []"
  shows "wf_dict jobs' \<and> (\<forall>k j. dget jobs' k = Some j \<longrightarrow> jstr (jget j ''job_id'') = k \<and> k \<noteq> [])"
  using assms
proof (induction rest arbitrary: claimed jobs)
  case (Cons r rest)
  obtain k job where r: "r = (k, job)" by (cases r)
  have k: "jstr (jget job ''job_id'') = k \<and> k \<noteq> []" using Cons.prems(4) [of k job] by (simp add: r)
  have rest: "jstr (jget j ''job_id'') = k' \<and> k' \<noteq> []" if "(k', j) \<in> set rest" for k' j
    using Cons.prems(4) [of k' j] that by simp
  consider "limit \<le> length claimed" | "\<not> limit \<le> length claimed" "\<not> claimable from_status now due job"
    | "\<not> limit \<le> length claimed" "claimable from_status now due job" by blast
  then show ?case
  proof cases
    case 1
    with Cons.prems show ?thesis by (simp add: r)
  next
    case 2
    with Cons.prems(1) have "claim_jobs from_status to_status now limit due rest claimed jobs = (res, jobs')"
      by (simp add: r)
    from Cons.IH [OF this Cons.prems(2,3) rest] show ?thesis by blast
  next
    case 3
    show ?thesis
    proof (cases "int_or_zero (jget job ''attempt_count'')")
      case (Inl e)
      let ?j = "jupdate [(''status'', JStr to_status), (''claimed_at'', JStr now), (''updated_at'', JStr now)] job"
      have e: "jobs' = dset k ?j jobs" using Cons.prems(1) 3 Inl by (simp add: r)
      have "jstr (jget j ''job_id'') = k' \<and> k' \<noteq> []" if "dget jobs' k' = Some j" for k' j
      proof (cases "k' = k")
        case True
        with that e have "j = ?j" by (simp add: dget_dset)
        with True k show ?thesis by simp
      next
        case False
        with that e have "dget jobs k' = Some j" by (simp add: dget_dset)
        then show ?thesis by (rule Cons.prems(3))
      qed
      moreover have "wf_dict jobs'" unfolding e using Cons.prems(2) by (rule wf_dset)
      ultimately show ?thesis by blast
    next
      case (Inr n)
      with Cons.prems(1) 3 have "claim_jobs from_status to_status now limit due rest
          (claimed @ [claimed_job to_status now n job]) (dset k (claimed_job to_status now n job) jobs) = (res, jobs')"
        by (simp add: r)
      then show ?thesis
      proof (rule Cons.IH)
        show "wf_dict (dset k (claimed_job to_status now n job) jobs)" using Cons.prems(2) by (rule wf_dset)
        show "jstr (jget j ''job_id'') = k' \<and> k' \<noteq> []"
          if "dget (dset k (claimed_job to_status now n job) jobs) k' = Some j" for k' j
        proof (cases "k' = k")
          case True
          with that have "j = claimed_job to_status now n job" by (simp add: dget_dset)
          with True k show ?thesis by simp
        next
          case False
          with that have "dget jobs k' = Some j" by (simp add: dget_dset)
          then show ?thesis by (rule Cons.prems(3))
        qed
      qed (rule rest)
    qed
  qed
qed simp

lemma claim_jobs_wf:
  assumes "claim_account_reply_jobs from_status to_status now limit due s = (res, s')" "jobs_wf s" "wf_dict (rs_jobs s)"
  shows "jobs_wf s' \<and> wf_dict (rs_jobs s')"
proof -
  from assms(1) have c: "claim_jobs from_status to_status now (nat (max 1 limit)) due (due_order (rs_jobs s)) []
      (rs_jobs s) = (res, rs_jobs s')"
    by (auto simp: claim_account_reply_jobs_def split: prod.splits)
  have row: "jstr (jget j ''job_id'') = k \<and> k \<noteq> []" if "(k, j) \<in> set (due_order (rs_jobs s))" for k j
    using that assms(2,3) by (auto simp: jobs_wf_def)
  from claim_jobs_rows [OF c assms(3) jobs_wfD [OF assms(2)] row] show ?thesis by (auto simp: jobs_wf_def)
qed

text \<open>C9
  Two workers never hold the same job: whatever two claims of the same status take, one after the
  other, whether the limits and due times differ or not, no job is in both.
\<close>

theorem reply_claims_disjoint:
  assumes "jobs_wf s" "wf_dict (rs_jobs s)" "from_status \<noteq> to_status"
    and "claim_account_reply_jobs from_status to_status now limit due s = (Inr first, s')"
    and "claim_account_reply_jobs from_status to_status' now' limit' due' s' = (Inr second, s'')"
  shows "job_ids first \<inter> job_ids second = {}"
proof -
  from claim_jobs_wf [OF assms(4,1,2)] have wf: "jobs_wf s'" "wf_dict (rs_jobs s')" by auto
  have c1: "claim_jobs from_status to_status now (nat (max 1 limit)) due (due_order (rs_jobs s)) []
      (rs_jobs s) = (Inr first, rs_jobs s')"
    using assms(4) by (auto simp: claim_account_reply_jobs_def split: prod.splits)
  have c2: "claim_jobs from_status to_status' now' (nat (max 1 limit')) due' (due_order (rs_jobs s')) []
      (rs_jobs s') = (Inr second, rs_jobs s'')"
    using assms(5) by (auto simp: claim_account_reply_jobs_def split: prod.splits)
  have held: "dget (rs_jobs s') (jstr (jget c ''job_id'')) = Some c \<and> jstr (jget c ''status'') = to_status"
    if "c \<in> set first" for c
    using claim_jobs_effect [OF c1 assms(3)] assms(1,2) that by (simp add: jobs_wf_def)
  have "jstr (jget c ''job_id'') \<noteq> jstr (jget d ''job_id'')" if "c \<in> set first" "d \<in> set second" for c d
  proof
    assume eq: "jstr (jget c ''job_id'') = jstr (jget d ''job_id'')"
    have "jstr (jget j ''job_id'') = k" if "(k, j) \<in> set (due_order (rs_jobs s'))" for k j
      using that wf by (simp add: jobs_wf_def)
    from claim_jobs_from [OF c2 this \<open>d \<in> set second\<close>] obtain j where
      j: "(jstr (jget d ''job_id''), j) \<in> set (rs_jobs s')" "jstr (jget j ''status'') = from_status" by auto
    with wf(2) have "dget (rs_jobs s') (jstr (jget d ''job_id'')) = Some j" by simp
    with held [OF \<open>c \<in> set first\<close>] eq j(2) assms(3) show False by simp
  qed
  then show ?thesis by (auto simp: job_ids_def)
qed

section \<open>One pending reply for a ticket\<close>

definition pending_for :: "string \<Rightarrow> jdict \<Rightarrow> bool" where
  "pending_for ticket_id job \<longleftrightarrow>
     jstr (jget job ''ticket_id'') = ticket_id \<and> jstr (jget job ''status'') \<in> set pending_reply_job_statuses"

lemma cancelled_not_pending [simp]: "\<not> pending_for t (cancelled_job at job)"
  by (simp add: pending_for_def cancelled_job_def pending_reply_job_statuses_def)

lemma filter_update_where:
  "(\<And>v. P v \<Longrightarrow> Q v) \<Longrightarrow> (\<And>v. \<not> P (f v)) \<Longrightarrow> filter P (dvalues (dupdate_where Q f d)) = []"
  by (induction d) (auto simp: dupdate_where_def split: if_splits)

lemma pending_cancellable: "pending_for t v \<Longrightarrow> cancellable t [] v"
  by (simp add: pending_for_def cancellable_def)

lemma cancelled_none_pending:
  "ostrip rerun = [] \<Longrightarrow>
     filter (pending_for t) (dvalues (rs_jobs (snd (cancel_pending_account_reply_jobs t at rerun s)))) = []"
  unfolding cancel_pending_account_reply_jobs_def Let_def
  by (simp, rule filter_update_where) (erule pending_cancellable, simp)

lemma filter_dset_new:
  "filter P (dvalues d) = [] \<Longrightarrow> P v \<Longrightarrow> filter P (dvalues (dset k v d)) = [v]"
  by (induction d) (auto split: if_splits)

lemma new_reply_job_pending: "pending_for (rq_ticket_id q) (new_reply_job i q scheduled payload)"
  by (simp add: pending_for_def new_reply_job_def pending_reply_job_statuses_def)


section \<open>A shop with one reply\<close>

definition reply_job :: "string \<Rightarrow> jdict" where
  "reply_job status =
     [(''job_id'', JStr ''j1''), (''ticket_id'', JStr ''t1''), (''trigger_message_created_at'', JStr ''at0''),
      (''status'', JStr status), (''claimed_at'', JStr ''at1''), (''attempt_count'', JInt 1),
      (''created_at'', JStr ''at0''), (''updated_at'', JStr ''at1'')]"

definition reply_shop :: "string \<Rightarrow> reply_store" where
  "reply_shop status =
     \<lparr> rs_base = \<lparr> cs_cases = [], cs_tickets = [(''t1'', [(''ticket_id'', JStr ''t1''), (''messages'', JList [])])],
         cs_comments = [], cs_comment_sync = [], cs_audit = [], cs_idempotency = [], cs_engineer_events = [],
         cs_zendesk = [], cs_slack = [] \<rparr>,
       rs_jobs = [(''j1'', reply_job status)], rs_executions = [], rs_emails = [], rs_events = [] \<rparr>"

definition no_readers :: source_readers where
  "no_readers = (\<lambda>_. None, \<lambda>_. ([], []))"

definition reply_published :: "(py_error + publish_outcome) \<times> reply_store" where
  "reply_published = publish_account_reply no_readers ''at2'' (reply_job ''publishing'') ''Hello'' [] ''at2''
     [(''execution_id'', JStr ''e1''), (''ticket_id'', JStr ''t1'')] (reply_shop ''publishing'')"

lemma reply_published_report:
  "fst reply_published = Inr (Published \<lparr> rp_content = ''Hello'', rp_published_at = ''at2'',
     rp_message_id = Some ''t1:0'', rp_delivery = None, rp_delivery_intent_id = None \<rparr>)"
  by code_simp

lemma one_job_wf: "jobs_wf (reply_shop st)" "wf_dict (rs_jobs (reply_shop st))"
  by (simp_all add: jobs_wf_def reply_shop_def reply_job_def)

lemma reply_published_run:
  "publish_account_reply no_readers ''at2'' (reply_job ''publishing'') ''Hello'' [] ''at2''
     [(''execution_id'', JStr ''e1''), (''ticket_id'', JStr ''t1'')] (reply_shop ''publishing'') =
     (Inr (Published \<lparr> rp_content = ''Hello'', rp_published_at = ''at2'',
        rp_message_id = Some ''t1:0'', rp_delivery = None, rp_delivery_intent_id = None \<rparr>), snd reply_published)"
  using reply_published_report unfolding reply_published_def by (metis prod.collapse)


theorem reply_message_once_witness:
  "\<exists>t t'. dget (cs_tickets (rs_base (reply_shop ''publishing''))) (jstrip (jget (reply_job ''publishing'') ''ticket_id'')) = Some t \<and>
    cs_tickets (rs_base (snd reply_published)) =
      dset (jstrip (jget (reply_job ''publishing'') ''ticket_id'')) t' (cs_tickets (rs_base (reply_shop ''publishing''))) \<and>
    (\<forall>j. job_messages j t' =
       (if j = jstrip (jget (reply_job ''publishing'') ''job_id'') then max 1 (job_messages j t) else job_messages j t))"
  by (rule reply_message_once [OF one_job_wf(1) reply_published_run])

definition first_claim :: "(py_error + jdict list) \<times> reply_store" where
  "first_claim = claim_account_reply_jobs ''queued'' ''preparing'' ''at2'' 10 False (reply_shop ''queued'')"

definition second_claim :: "(py_error + jdict list) \<times> reply_store" where
  "second_claim = claim_account_reply_jobs ''queued'' ''preparing'' ''at3'' 10 True (snd first_claim)"

lemma claims_run:
  "fst first_claim = Inr [claimed_job ''preparing'' ''at2'' 1 (reply_job ''queued'')]" "fst second_claim = Inr []"
  by code_simp+

theorem reply_claims_disjoint_witness:
  "job_ids [claimed_job ''preparing'' ''at2'' 1 (reply_job ''queued'')] \<inter> job_ids [] = {}"
proof (rule reply_claims_disjoint [OF one_job_wf])
  show "''queued'' \<noteq> ''preparing''" by simp
  show "claim_account_reply_jobs ''queued'' ''preparing'' ''at2'' 10 False (reply_shop ''queued'') =
      (Inr [claimed_job ''preparing'' ''at2'' 1 (reply_job ''queued'')], snd first_claim)"
    using claims_run(1) unfolding first_claim_def by (metis prod.collapse)
  show "claim_account_reply_jobs ''queued'' ''preparing'' ''at3'' 10 True (snd first_claim) = (Inr [], snd second_claim)"
    using claims_run(2) unfolding second_claim_def by (metis prod.collapse)
qed

definition sample_reply_request :: reply_request where
  "sample_reply_request =
     \<lparr> rq_ticket_id = ''t1'', rq_trigger_message_created_at = ''0001-01-02T00:00:00+00:00'',
       rq_created_at = ''0001-01-02T00:00:05+00:00'', rq_delay_seconds = 360, rq_draft_content = ''Done'',
       rq_reply_facts = JNull, rq_asked_field_keys = [], rq_persona_assignment = [],
       rq_automation_delivery_key = None, rq_rerun_job_id = None, rq_close_after_publish = True,
       rq_reply_intent = Some ''enablement_archer_enabled'', rq_hermes_compatibility_only = False \<rparr>"

definition created_reply :: "(py_error + jdict) \<times> reply_store" where
  "created_reply = create_account_reply_job (\<lambda>t. t) ''at9'' ''u1'' sample_reply_request (reply_shop ''queued'')"

lemma created_reply_ok: "\<not> isl (fst created_reply)"
  by code_simp


end
