(* ===== verification/Case_Handoffs.thy ===== *)
theory Case_Handoffs
  imports Reply_Jobs
begin

text \<open>
  Properties across the tables of the account cases, over every sequence of operations: a reply
  is handed to Slack only after its public Zendesk comment, and the comments of a ticket are
  never lost or taken back in time.
\<close>

section \<open>A reply goes to Slack after Zendesk\<close>

text \<open>
  One operation of the case tables. A worker completes a Slack event that it claimed, so never
  one that still waits for Zendesk; every other operation may come at any time with any argument.
\<close>

inductive case_step :: "case_store \<Rightarrow> case_store \<Rightarrow> bool" where
  comment_delivery: "case_step s (s\<lparr>cs_zendesk := snd (zendesk_run [z] (cs_zendesk s))\<rparr>)"
| slack_added: "case_step s (s\<lparr>cs_slack := add_slack_delivery e i m at (cs_slack s)\<rparr>)"
| slack_claimed: "case_step s (s\<lparr>cs_slack := snd (claim_account_slack_delivery k at (cs_slack s))\<rparr>)"
| slack_completed:
    "table_status sd_status (cs_slack s) (strip k) \<noteq> Some ''waiting_zendesk'' \<Longrightarrow>
     case_step s (s\<lparr>cs_slack := snd (complete_account_slack_delivery k st fc at (cs_slack s))\<rparr>)"
| slack_requeued: "case_step s (s\<lparr>cs_slack := snd (requeue_account_slack_delivery k at (cs_slack s))\<rparr>)"
| comment_result:
    "case_step s (snd (record_account_zendesk_internal_comment_result i t m k result at close s))"
| request_begun:
    "case_step s (s\<lparr>cs_idempotency := snd (begin_idempotent_request scope k at retry (cs_idempotency s))\<rparr>)"
| email_prepared: "case_step s (snd (prepare_account_internal_email_delivery i k payload at allowed target s))"
| email_released: "case_step s (snd (release_account_internal_email_after_public_reply i at s))"
| email_claimed: "case_step s (snd (claim_account_internal_email_delivery i k token at payload allowed active s))"
| email_completed: "case_step s (snd (complete_account_internal_email_delivery i k token payload st reason at s))"
| comments_synced: "case_step s (snd (sync_account_case_comments t i snap at s))"
| case_saved: "case_step s (rs_base (snd (save_billing_ticket readers now c (rs\<lparr>rs_base := s\<rparr>))))"
| reply_published:
    "case_step s (rs_base (snd (publish_account_reply readers now job content payload at execution (rs\<lparr>rs_base := s\<rparr>))))"
| reply_reviewed:
    "case_step s (rs_base (snd (transition_claimed_account_reply_to_human_review job st claimed n reason policy at
       (rs\<lparr>rs_base := s\<rparr>))))"
| enablement_completed:
    "case_step s (rs_base (snd (claim_enablement_manual_completion i job at cancel (rs\<lparr>rs_base := s\<rparr>))))"
| status_updated: "case_step s (snd (update_account_case_zendesk_status i st at source event notification s))"

inductive case_reachable :: "case_store \<Rightarrow> bool" where
  start: "cs_slack s = [] \<Longrightarrow> case_reachable s"
| step: "case_reachable s \<Longrightarrow> case_step s s' \<Longrightarrow> case_reachable s'"

text \<open>A delivered public comment of a message.\<close>

definition publicly_delivered :: "string \<Rightarrow> string \<Rightarrow> zendesk_outbox \<Rightarrow> bool" where
  "publicly_delivered i m z \<longleftrightarrow>
     (\<exists>d. dget z (i, m) = Some d \<and> zd_is_public d \<and> slower (zd_status d) = ''delivered'')"

definition handoff_ok :: "case_store \<Rightarrow> bool" where
  "handoff_ok s \<longleftrightarrow> (\<forall>k r. dget (cs_slack s) k = Some r \<and> slower (sd_status r) \<noteq> ''waiting_zendesk'' \<longrightarrow>
     publicly_delivered (sd_account_case_id r) (sd_message_id r) (cs_zendesk s))"

subsection \<open>What the operations leave alone\<close>

lemma put_case_frame [simp]: "cs_zendesk (snd (put_case k c s)) = cs_zendesk s" "cs_slack (snd (put_case k c s)) = cs_slack s"
  by (simp_all add: put_case_def split: sum.split)

lemma stored_frame [simp]: "snd (stored x) = snd x"
  by (simp add: stored_def)

lemma email_frame:
  "cs_zendesk (snd (prepare_account_internal_email_delivery i k payload at allowed target s)) = cs_zendesk s"
  "cs_slack (snd (prepare_account_internal_email_delivery i k payload at allowed target s)) = cs_slack s"
  "cs_zendesk (snd (release_account_internal_email_after_public_reply i at s)) = cs_zendesk s"
  "cs_slack (snd (release_account_internal_email_after_public_reply i at s)) = cs_slack s"
  "cs_zendesk (snd (claim_account_internal_email_delivery i k token at payload allowed active s)) = cs_zendesk s"
  "cs_slack (snd (claim_account_internal_email_delivery i k token at payload allowed active s)) = cs_slack s"
  "cs_zendesk (snd (complete_account_internal_email_delivery i k token payload st reason at s)) = cs_zendesk s"
  "cs_slack (snd (complete_account_internal_email_delivery i k token payload st reason at s)) = cs_slack s"
  by (simp_all add: prepare_account_internal_email_delivery_def release_account_internal_email_after_public_reply_def
      claim_account_internal_email_delivery_def complete_account_internal_email_delivery_def Let_def
      split: option.split prod.split)

lemma sync_frame:
  "cs_zendesk (snd (sync_account_case_comments t i snap at s)) = cs_zendesk s"
  "cs_slack (snd (sync_account_case_comments t i snap at s)) = cs_slack s"
  by (simp_all add: sync_account_case_comments_def store_snapshot_def Let_def)

lemma close_ticket_frame:
  "close_ticket t at s = (b, s') \<Longrightarrow> cs_zendesk s' = cs_zendesk s \<and> cs_slack s' = cs_slack s"
  by (auto simp: close_ticket_def split: option.splits if_splits)

lemma put_case_frame':
  "put_case k c s = (x, s') \<Longrightarrow> cs_zendesk s' = cs_zendesk s \<and> cs_slack s' = cs_slack s"
  using put_case_frame [of k c s] by simp

lemma apply_status_frame:
  "cs_zendesk (snd (apply_status p st source at event notification c s)) = cs_zendesk s \<and>
   cs_slack (snd (apply_status p st source at event notification c s)) = cs_slack s"
proof -
  obtain b s1 where s1: "(if tr_close_local_ticket p then close_ticket (jstrip (jget c ''client_ticket_id'')) at s
      else (False, s)) = (b, s1)" by fastforce
  then have f1: "cs_zendesk s1 = cs_zendesk s \<and> cs_slack s1 = cs_slack s"
    using close_ticket_frame by (auto split: if_splits)
  obtain x s2 where s2: "put_case (or_else (jstrip (jget c ''billing_ticket_id'')) (case_id c))
      (status_updated_case p st source at c) s1 = (x, s2)" by fastforce
  with f1 have f2: "cs_zendesk s2 = cs_zendesk s \<and> cs_slack s2 = cs_slack s" using put_case_frame' by metis
  show ?thesis
    unfolding apply_status_def Let_def s1 prod.case s2
    using f2 by (simp split: sum.split option.split prod.split)
qed

lemma finish_status_frame:
  "cs_zendesk (snd (finish_status p st source at event notification c s)) = cs_zendesk s"
  "cs_slack (snd (finish_status p st source at event notification c s)) = cs_slack s"
  using apply_status_frame by (simp_all add: finish_status_def split: plan.split)

lemma update_status_frame:
  "cs_zendesk (snd (update_account_case_zendesk_status i st at source event notification s)) = cs_zendesk s"
  "cs_slack (snd (update_account_case_zendesk_status i st at source event notification s)) = cs_slack s"
  by (auto simp: update_account_case_zendesk_status_def Let_def finish_status_frame dest!: put_case_frame'
      split: option.split sum.split watermark.split prod.split)

lemma record_on_ticket_frame:
  "record_on_ticket t m result at s = (b, s') \<Longrightarrow> cs_zendesk s' = cs_zendesk s \<and> cs_slack s' = cs_slack s"
  by (auto simp: record_on_ticket_def split: option.splits if_splits prod.splits)

lemma close_solved_frame:
  "close_solved i t at s = (x, s') \<Longrightarrow> cs_zendesk s' = cs_zendesk s \<and> cs_slack s' = cs_slack s"
  by (auto simp: close_solved_def split: option.splits if_splits)

text \<open>What the result of a comment does to the two outboxes.\<close>

lemma settled_result_effect:
  assumes "dget (cs_zendesk s) (i, m) = Some d"
  shows "cs_zendesk (snd (settled_result i t m result at close b d s)) =
       dset (i, m) (settle_delivery result at d) (cs_zendesk s) \<and>
     cs_slack (snd (settled_result i t m result at close b d s)) =
       (if result_status result = ''added'' \<and> zd_is_public d
        then release_slack_deliveries i m at (cs_slack s) else cs_slack s)"
  unfolding settled_result_def Let_def
  by (auto dest!: close_solved_frame split: sum.split prod.split)

definition result_effect :: "string \<Rightarrow> string \<Rightarrow> jdict \<Rightarrow> string \<Rightarrow> case_store \<Rightarrow> case_store \<Rightarrow> bool" where
  "result_effect i m result at s s' \<longleftrightarrow>
     cs_zendesk s' = cs_zendesk s \<and> cs_slack s' = cs_slack s \<or>
     (\<exists>d. dget (cs_zendesk s) (i, m) = Some d \<and>
        cs_zendesk s' = dset (i, m) (settle_delivery result at d) (cs_zendesk s) \<and>
        cs_slack s' = (if result_status result = ''added'' \<and> zd_is_public d
          then release_slack_deliveries i m at (cs_slack s) else cs_slack s))"

lemma comment_result_effect:
  "result_effect (strip i) (strip m) result at s
     (snd (record_account_zendesk_internal_comment_result i t m k result at close s))"
proof -
  let ?i = "strip i" and ?m = "strip m"
  let ?scope = "(''account_zendesk_internal_comment'', strip k)"
  have same: "result_effect ?i ?m result at s s" by (simp add: result_effect_def)
  show ?thesis
  proof (cases "?i = [] \<or> strip t = [] \<or> ?m = [] \<or> strip k = [] \<or>
      result_status result \<notin> {''added'', ''failed'', ''outcome_unknown''} \<or> dget (cs_idempotency s) ?scope = None")
    case True
    then show ?thesis
      using same by (auto simp: record_account_zendesk_internal_comment_result_def Let_def)
  next
    case False
    then obtain r where r: "dget (cs_idempotency s) ?scope = Some r" by blast
    define s1 where "s1 = s\<lparr>cs_idempotency := dset ?scope (settle_request result at r) (cs_idempotency s)\<rparr>"
    obtain b s2 where s2: "record_on_ticket (strip t) ?m result at s1 = (b, s2)" by fastforce
    then have f: "cs_zendesk s2 = cs_zendesk s" "cs_slack s2 = cs_slack s"
      using record_on_ticket_frame by (fastforce simp: s1_def)+
    have run: "record_account_zendesk_internal_comment_result i t m k result at close s =
        (case dget (cs_zendesk s2) (?i, ?m) of
           None \<Rightarrow> (Inr \<lparr>rr_audit_persisted = b, rr_delivery = None\<rparr>, s2)
         | Some d \<Rightarrow>
             settled_result ?i (strip t) ?m result at close b d s2)"
      using False r
      by (simp add: record_account_zendesk_internal_comment_result_def s1_def [symmetric] s2)
          (simp add: Let_def)
    show ?thesis
    proof (cases "dget (cs_zendesk s2) (?i, ?m)")
      case None
      then show ?thesis by (simp add: run f result_effect_def)
    next
      case (Some d)
      then show ?thesis using settled_result_effect [OF Some]
        by (simp add: run f result_effect_def)
    qed
  qed
qed

lemma settle_delivery_keeps:
  "zd_is_public (settle_delivery result at d) = zd_is_public d"
  "slower (zd_status d) = ''delivered'' \<Longrightarrow> settle_delivery result at d = d"
  "result_status result = ''added'' \<Longrightarrow> slower (zd_status (settle_delivery result at d)) = ''delivered''"
  by (simp_all add: settle_delivery_def Let_def)

subsection \<open>Steps of the outboxes\<close>

lemma zendesk_op_keeps:
  assumes "dget z k = Some d" "slower (zd_status d) = ''delivered''"
  shows "dget (snd (zendesk_run [p] z)) k = Some d"
proof -
  have q: "zd_status d \<noteq> ''pending''" "zd_status d \<noteq> ''queued''" using assms(2) by auto
  show ?thesis
  proof (cases p)
    case (Claim r at)
    then show ?thesis
      using assms by (auto simp: zendesk_run_def claim_status Let_def split_def dget_dset
          zendesk_row_status_def table_status_def split: option.split)
  next
    case (Complete r c)
    then show ?thesis
      using assms by (cases c) (auto simp: zendesk_run_def zendesk_complete_step_def dget_dset
          complete_account_zendesk_comment_delivery_def Let_def split: option.split)
  next
    case (Feed f)
    then show ?thesis
      using assms q by (cases f) (auto simp: zendesk_run_def zendesk_defs Let_def dget_dset split: option.split)
  qed
qed

lemma publicly_delivered_op: "publicly_delivered i m z \<Longrightarrow> publicly_delivered i m (snd (zendesk_run [p] z))"
  using zendesk_op_keeps by (fastforce simp: publicly_delivered_def)

lemma publicly_delivered_settled:
  "publicly_delivered i m z \<Longrightarrow> dget z (j, n) = Some d \<Longrightarrow>
     publicly_delivered i m (dset (j, n) (settle_delivery result at d) z)"
  by (auto simp: publicly_delivered_def dget_dset settle_delivery_keeps)

lemma handoff_ok_rows:
  assumes "handoff_ok s"
    and "\<And>i m. publicly_delivered i m (cs_zendesk s) \<Longrightarrow> publicly_delivered i m (cs_zendesk s')"
    and "\<And>k r. dget (cs_slack s') k = Some r \<Longrightarrow> slower (sd_status r) \<noteq> ''waiting_zendesk'' \<Longrightarrow>
       publicly_delivered (sd_account_case_id r) (sd_message_id r) (cs_zendesk s') \<or>
       (\<exists>r0. dget (cs_slack s) k = Some r0 \<and> slower (sd_status r0) \<noteq> ''waiting_zendesk'' \<and>
          sd_account_case_id r0 = sd_account_case_id r \<and> sd_message_id r0 = sd_message_id r)"
  shows "handoff_ok s'"
  unfolding handoff_ok_def
proof (intro allI impI)
  fix k r
  assume "dget (cs_slack s') k = Some r \<and> slower (sd_status r) \<noteq> ''waiting_zendesk''"
  with assms(3) [of k r] consider "publicly_delivered (sd_account_case_id r) (sd_message_id r) (cs_zendesk s')"
    | r0 where "dget (cs_slack s) k = Some r0" "slower (sd_status r0) \<noteq> ''waiting_zendesk''"
      "sd_account_case_id r0 = sd_account_case_id r" "sd_message_id r0 = sd_message_id r" by blast
  then show "publicly_delivered (sd_account_case_id r) (sd_message_id r) (cs_zendesk s')"
  proof cases
    case 1
    then show ?thesis .
  next
    case r0: (2 r0)
    then have "publicly_delivered (sd_account_case_id r0) (sd_message_id r0) (cs_zendesk s)"
      using assms(1) unfolding handoff_ok_def by blast
    with r0 assms(2) show ?thesis by simp
  qed
qed

text \<open>A step of the Slack table that changes no identity and takes no row out of waiting.\<close>

lemma handoff_ok_slack:
  assumes "handoff_ok s"
    and "\<And>k r. dget t k = Some r \<Longrightarrow> slower (sd_status r) \<noteq> ''waiting_zendesk'' \<Longrightarrow>
       \<exists>r0. dget (cs_slack s) k = Some r0 \<and> slower (sd_status r0) \<noteq> ''waiting_zendesk'' \<and>
          sd_account_case_id r0 = sd_account_case_id r \<and> sd_message_id r0 = sd_message_id r"
  shows "handoff_ok (s\<lparr>cs_slack := t\<rparr>)"
  by (rule handoff_ok_rows [OF assms(1)]) (use assms(2) in \<open>simp_all\<close>)

lemma handoff_ok_result:
  assumes "handoff_ok s" "result_effect i m result at s s'"
  shows "handoff_ok s'"
proof (rule handoff_ok_rows [OF assms(1)])
  fix j n
  assume "publicly_delivered j n (cs_zendesk s)"
  with assms(2) show "publicly_delivered j n (cs_zendesk s')"
    by (auto simp: result_effect_def publicly_delivered_settled)
next
  fix k r
  assume r: "dget (cs_slack s') k = Some r" "slower (sd_status r) \<noteq> ''waiting_zendesk''"
  show "publicly_delivered (sd_account_case_id r) (sd_message_id r) (cs_zendesk s') \<or>
       (\<exists>r0. dget (cs_slack s) k = Some r0 \<and> slower (sd_status r0) \<noteq> ''waiting_zendesk'' \<and>
          sd_account_case_id r0 = sd_account_case_id r \<and> sd_message_id r0 = sd_message_id r)"
  proof (cases "cs_slack s' = cs_slack s")
    case True
    with r show ?thesis by auto
  next
    case False
    with assms(2) obtain d where d: "dget (cs_zendesk s) (i, m) = Some d"
      "cs_zendesk s' = dset (i, m) (settle_delivery result at d) (cs_zendesk s)"
      "result_status result = ''added''" "zd_is_public d"
      "cs_slack s' = release_slack_deliveries i m at (cs_slack s)"
      by (auto simp: result_effect_def split: if_splits)
    then have pd: "publicly_delivered i m (cs_zendesk s')"
      by (simp add: publicly_delivered_def dget_dset settle_delivery_keeps)
    obtain r0 where r0: "dget (cs_slack s) k = Some r0"
      "r = (if sd_account_case_id r0 = i \<and> sd_message_id r0 = m \<and> sd_status r0 = ''waiting_zendesk''
            then r0\<lparr>sd_status := ''queued'', sd_updated_at := at\<rparr> else r0)"
      using r(1) by (auto simp: d(5) release_slack_deliveries_def dget_dupdate_where)
    show ?thesis using r0 r(2) pd by (auto split: if_splits)
  qed
qed

text \<open>What publishing a reply does to the two outboxes: a new comment delivery, a new waiting event.\<close>

definition reply_effect :: "case_store \<Rightarrow> case_store \<Rightarrow> bool" where
  "reply_effect s s' \<longleftrightarrow>
     (cs_zendesk s' = cs_zendesk s \<or> (\<exists>q. cs_zendesk s' = snd (zendesk_run [Feed (ZCreate q)] (cs_zendesk s)))) \<and>
     (cs_slack s' = cs_slack s \<or> (\<exists>e i m at. cs_slack s' = add_slack_delivery e i m at (cs_slack s)))"

lemma reply_effect_refl:
  "cs_zendesk s' = cs_zendesk s \<Longrightarrow> cs_slack s' = cs_slack s \<Longrightarrow> reply_effect s s'"
  by (simp add: reply_effect_def)

lemma deliver_reply_effect: "deliver_reply c m payload at s = (r, s') \<Longrightarrow> reply_effect s s'"
proof -
  assume d: "deliver_reply c m payload at s = (r, s')"
  let ?q = "reply_delivery_request c m (closing payload) at"
  obtain x z where z: "create_account_zendesk_comment_delivery ?q (cs_zendesk s) = (x, z)" by fastforce
  then have run: "snd (zendesk_run [Feed (ZCreate ?q)] (cs_zendesk s)) = z" by (simp add: zendesk_run_def)
  show ?thesis
  proof (cases x)
    case (Inl e)
    with d z show ?thesis by (intro reply_effect_refl) (simp_all add: deliver_reply_def)
  next
    case (Inr v)
    obtain y w where "v = (y, w)" by (cases v)
    with d z Inr have "cs_zendesk s' = z \<and> (cs_slack s' = cs_slack s \<or>
        (\<exists>e i m at. cs_slack s' = add_slack_delivery e i m at (cs_slack s)))"
      by (auto simp: deliver_reply_def Let_def split: sum.splits option.splits) blast
    with run show ?thesis unfolding reply_effect_def by blast
  qed
qed

lemma saved_base:
  "save_account_reply_execution now x s = (r, s') \<Longrightarrow> rs_base s' = rs_base s"
  "save_account_reply_job now job s = (r', s') \<Longrightarrow> rs_base s' = rs_base s"
  by (auto simp: save_account_reply_execution_def save_account_reply_job_def Let_def
      split: option.splits sum.splits)

lemma finish_publication_base:
  "rs_base (snd (finish_publication now job content payload at execution m d s)) = rs_base s"
  unfolding finish_publication_def by (auto dest!: saved_base split: sum.split prod.split)

lemma save_case_effect: "reply_effect (rs_base s) (rs_base (snd (save_billing_ticket readers now c s)))"
proof -
  obtain r s' where s': "save_billing_ticket readers now c s = (r, s')" by fastforce
  with save_case_frame [OF s'] show ?thesis by (simp add: reply_effect_refl)
qed

lemma reply_effect_frame:
  "reply_effect s2 s' \<Longrightarrow> cs_zendesk s2 = cs_zendesk s \<Longrightarrow> cs_slack s2 = cs_slack s \<Longrightarrow> reply_effect s s'"
  by (simp add: reply_effect_def)

lemma write_reply_base:
  "reply_effect (rs_base s) (rs_base (snd (write_reply readers now t k job content payload at execution ticket bt s)))"
proof -
  define close_now where "close_now = (closing payload \<and> \<not> delivery_eligible bt payload)"
  obtain m t' where p: "published_ticket t k job content payload at close_now ticket = (m, t')" by fastforce
  define s1 where "s1 = s\<lparr>rs_base := (rs_base s)\<lparr>cs_tickets := dset t t' (cs_tickets (rs_base s))\<rparr>\<rparr>"
  have f1: "cs_zendesk (rs_base s1) = cs_zendesk (rs_base s)" "cs_slack (rs_base s1) = cs_slack (rs_base s)"
    by (simp_all add: s1_def)
  note unf = write_reply_def Let_def close_now_def [symmetric] p prod.case s1_def [symmetric]
  show ?thesis
  proof (cases bt)
    case None
    show ?thesis unfolding unf by (simp add: None finish_publication_base reply_effect_refl f1)
  next
    case (Some c)
    define c' where "c' = replied_case (strip (str_or (jget m ''content'') content)) close_now at c"
    obtain r s2 where s2: "save_billing_ticket readers now c' s1 = (r, s2)" by fastforce
    note f2 = save_case_frame [OF s2]
    obtain d base where d: "deliver_reply c' (jstrip (jget m ''message_id'')) payload at (rs_base s2) = (d, base)"
      by fastforce
    have "reply_effect (rs_base s2) base" using deliver_reply_effect [OF d] .
    then have e: "reply_effect (rs_base s) base" using f1 f2 by (auto intro: reply_effect_frame)
    have e2: "reply_effect (rs_base s) (rs_base s2)" using f1 f2 by (intro reply_effect_refl) simp_all
    show ?thesis unfolding unf unfolding Some option.case c'_def [symmetric] s2 prod.case
      by (cases r; cases "delivery_eligible (Some c) payload"; cases d)
         (simp_all add: d e e2 finish_publication_base)
  qed
qed

lemma publish_reply_effect:
  "reply_effect (rs_base s) (rs_base (snd (publish_account_reply readers now job content payload at execution s)))"
proof -
  have "reply_effect (rs_base s) (rs_base s)" by (simp add: reply_effect_refl)
  then show ?thesis
    by (simp add: publish_account_reply_def Let_def write_reply_base split: option.split sum.split bool.split)
qed

lemma review_reply_effect:
  "reply_effect (rs_base s) (rs_base (snd
     (transition_claimed_account_reply_to_human_review job st claimed n reason policy at s)))"
  by (rule reply_effect_refl)
     (simp_all add: transition_claimed_account_reply_to_human_review_def Let_def
        split: option.split sum.split prod.split)

lemma enablement_reply_effect:
  "reply_effect (rs_base s) (rs_base (snd (claim_enablement_manual_completion i job at cancel s)))"
  by (rule reply_effect_refl)
     (auto simp: claim_enablement_manual_completion_def Let_def dest!: put_case_frame'
        split: option.split sum.split prod.split)

lemma handoff_ok_reply: "handoff_ok s \<Longrightarrow> reply_effect s s' \<Longrightarrow> handoff_ok s'"
proof -
  assume ok: "handoff_ok s" and e: "reply_effect s s'"
  show "handoff_ok s'"
  proof (rule handoff_ok_rows [OF ok])
    show "publicly_delivered i m (cs_zendesk s')" if "publicly_delivered i m (cs_zendesk s)" for i m
      using that e publicly_delivered_op by (auto simp: reply_effect_def)
    show "publicly_delivered (sd_account_case_id r) (sd_message_id r) (cs_zendesk s') \<or>
       (\<exists>r0. dget (cs_slack s) k = Some r0 \<and> slower (sd_status r0) \<noteq> ''waiting_zendesk'' \<and>
          sd_account_case_id r0 = sd_account_case_id r \<and> sd_message_id r0 = sd_message_id r)"
      if "dget (cs_slack s') k = Some r" "slower (sd_status r) \<noteq> ''waiting_zendesk''" for k r
      using that e by (auto simp: reply_effect_def add_slack_delivery_def new_slack_delivery_def dget_dset
          split: option.splits if_splits)
  qed
qed

lemma case_step_handoff_ok:
  assumes "case_step s s'" "handoff_ok s"
  shows "handoff_ok s'"
  using assms
proof cases
  case (comment_delivery z)
  then show ?thesis
    using publicly_delivered_op by (intro handoff_ok_rows [OF assms(2)]) auto
next
  case (slack_added e i m at)
  show ?thesis unfolding slack_added
    by (rule handoff_ok_slack [OF assms(2)])
      (auto simp: add_slack_delivery_def new_slack_delivery_def dget_dset split: option.splits if_splits)
next
  case (slack_claimed k at)
  show ?thesis unfolding slack_claimed
    by (rule handoff_ok_slack [OF assms(2)])
      (auto simp: claim_account_slack_delivery_def Let_def dget_dset split: option.splits if_splits)
next
  case (slack_completed k st fc at)
  show ?thesis unfolding slack_completed(1)
    by (rule handoff_ok_slack [OF assms(2)]) (use slack_completed(2) in
      \<open>auto simp: complete_account_slack_delivery_def table_status_def Let_def dget_dset
        split: option.splits if_splits\<close>)
next
  case (slack_requeued k at)
  show ?thesis unfolding slack_requeued
    by (rule handoff_ok_slack [OF assms(2)])
      (auto simp: requeue_account_slack_delivery_def Let_def dget_dset split: option.splits if_splits)
next
  case (comment_result i t m k result at close)
  show ?thesis unfolding comment_result by (rule handoff_ok_result [OF assms(2) comment_result_effect])
next
  case (case_saved readers now c rs)
  show ?thesis unfolding case_saved
    using save_case_effect [of "rs\<lparr>rs_base := s\<rparr>"] by (intro handoff_ok_reply [OF assms(2)]) simp
next
  case (reply_published readers now job content payload at execution rs)
  show ?thesis unfolding reply_published
    using publish_reply_effect [of "rs\<lparr>rs_base := s\<rparr>"] by (intro handoff_ok_reply [OF assms(2)]) simp
next
  case (reply_reviewed job st claimed n reason policy at rs)
  show ?thesis unfolding reply_reviewed
    using review_reply_effect [of "rs\<lparr>rs_base := s\<rparr>"] by (intro handoff_ok_reply [OF assms(2)]) simp
next
  case (enablement_completed i job at cancel rs)
  show ?thesis unfolding enablement_completed
    using enablement_reply_effect [of "rs\<lparr>rs_base := s\<rparr>"] by (intro handoff_ok_reply [OF assms(2)]) simp
qed (use assms(2) in \<open>simp_all add: handoff_ok_def email_frame sync_frame update_status_frame\<close>)

section \<open>Comments are never lost\<close>

text \<open>A comment snapshot as it arrives: normalised, then synchronised.\<close>

record sync_request =
  sq_ticket_id :: string
  sq_account_case_id :: string
  sq_payload :: json
  sq_synced_at :: string

definition sync_zendesk_account_comments ::
  "(string \<Rightarrow> string) \<Rightarrow> sync_request \<Rightarrow> (case_store, comment_sync) op" where
  "sync_zendesk_account_comments sha q s =
     (case normalize_snapshot sha (sq_payload q) of
        Inl e \<Rightarrow> (Inl e, s)
      | Inr snap \<Rightarrow> sync_account_case_comments (sq_ticket_id q) (sq_account_case_id q) snap (sq_synced_at q) s)"

definition sync_run :: "(string \<Rightarrow> string) \<Rightarrow> sync_request list \<Rightarrow> case_store \<Rightarrow> case_store" where
  "sync_run sha qs s = foldl (\<lambda>s q. snd (sync_zendesk_account_comments sha q s)) s qs"

text \<open>The source time of the last snapshot of a ticket.\<close>

definition sync_source :: "string \<Rightarrow> case_store \<Rightarrow> string" where
  "sync_source t s =
     (case dget (cs_comment_sync s) t of None \<Rightarrow> [] | Some d \<Rightarrow> jstrip (jget d ''source_updated_at''))"

lemma sync_cases:
  assumes "sync_account_case_comments ticket i snap at s = (r, s')"
  shows "s' = s \<and> (\<forall>st. r \<noteq> Inr (Synced st)) \<or>
     (let t = strip ticket in
      t \<noteq> [] \<and> strip i \<noteq> [] \<and> map_option case_id (get_account_case_by_ticket_id t s) = Some (strip i) \<and>
      \<not> (sync_source t s \<noteq> [] \<and> sn_source_updated_at snap < sync_source t s) \<and>
      cs_comments s' = dset t (store_comments (strip i) t at (sn_comments snap) (ticket_comments t s)) (cs_comments s) \<and>
      cs_cases s' = cs_cases s \<and>
      (\<exists>n. r = Inr (Synced (sync_state (strip i) t snap at n)) \<and>
        cs_comment_sync s' = dset t (sync_state (strip i) t snap at n) (cs_comment_sync s)))"
proof -
  let ?t = "strip ticket"
  have source: "jstrip (jget (case dget (cs_comment_sync s) ?t of None \<Rightarrow> [] | Some d \<Rightarrow> d) ''source_updated_at'') =
      sync_source ?t s" by (simp add: sync_source_def split: option.split)
  define out where "out = store_snapshot (strip i) ?t snap at s"
  define missing where "missing = sort (filter (\<lambda>c. c \<notin> set (comment_ids (sn_comments snap)))
      (map fst (ticket_comments ?t s)))"
  define current where "current = (case dget (cs_comment_sync s) ?t of None \<Rightarrow> [] | Some d \<Rightarrow> d)"
  have "(if ?t = [] \<or> strip i = [] \<or> map_option case_id (get_account_case_by_ticket_id ?t s) \<noteq> Some (strip i)
      then (Inl (KeyError (or_else ?t (strip i))), s)
      else if sync_source ?t s \<noteq> [] \<and> sn_source_updated_at snap < sync_source ?t s
      then (Inr (StaleIgnored current), s)
      else if current \<noteq> [] \<and> jstr (jget current ''snapshot_hash'') = sn_snapshot_hash snap
      then (Inr (Unchanged current), s)
      else if missing \<noteq> [] then (Inr (IncompleteSnapshot missing current), s)
      else (Inr (Synced (fst out)), snd out)) = (r, s')"
    using assms unfolding sync_account_case_comments_def Let_def source
    by (simp only: out_def missing_def current_def)
  then have "s' = s \<and> (\<forall>st. r \<noteq> Inr (Synced st)) \<or>
      (?t \<noteq> [] \<and> strip i \<noteq> [] \<and> map_option case_id (get_account_case_by_ticket_id ?t s) = Some (strip i) \<and>
       \<not> (sync_source ?t s \<noteq> [] \<and> sn_source_updated_at snap < sync_source ?t s) \<and>
       r = Inr (Synced (fst out)) \<and> s' = snd out)"
    by (simp only: prod.inject split: if_split_asm) auto
  then show ?thesis
    by (elim disjE conjE) (simp_all add: out_def store_snapshot_def Let_def, blast)
qed

lemma keys_store_comments:
  "fst ` set (store_comments i t at cs d) = fst ` set d \<union> set (comment_ids cs)"
proof (induction cs arbitrary: d)
  case Nil
  then show ?case by (simp add: store_comments_def)
next
  case (Cons c cs)
  then show ?case unfolding store_comments_def by (simp add: dom_update)
qed

lemma sync_state_source: "jstrip (jget (sync_state i t snap at n) ''source_updated_at'') = strip (sn_source_updated_at snap)"
  by (simp add: sync_state_def)

lemma snapshot_source:
  assumes "normalize_snapshot sha x = Inr snap"
  shows "strip (sn_source_updated_at snap) = sn_source_updated_at snap"
proof -
  obtain v f source raw cs where "normalize_timestamp v f = Inr source"
    "snap = snapshot_of sha source (ordered_comments cs)" using assms by (rule snapshot_cases)
  with normalize_timestamp_Inr [OF this(1)] show ?thesis by (auto simp: snapshot_of_def)
qed

lemma sync_step_monotone:
  "fst ` set (ticket_comments t s) \<subseteq> fst ` set (ticket_comments t (snd (sync_zendesk_account_comments sha q s))) \<and>
   sync_source t s \<le> sync_source t (snd (sync_zendesk_account_comments sha q s))"
proof (cases "normalize_snapshot sha (sq_payload q)")
  case (Inr snap)
  obtain r s' where run: "sync_account_case_comments (sq_ticket_id q) (sq_account_case_id q) snap (sq_synced_at q) s = (r, s')"
    by fastforce
  have strip: "strip (sn_source_updated_at snap) = sn_source_updated_at snap" by (rule snapshot_source [OF Inr])
  let ?t = "strip (sq_ticket_id q)"
  consider "s' = s" | n where
    "\<not> (sync_source ?t s \<noteq> [] \<and> sn_source_updated_at snap < sync_source ?t s)"
    "cs_comments s' = dset ?t (store_comments (strip (sq_account_case_id q)) ?t (sq_synced_at q) (sn_comments snap)
       (ticket_comments ?t s)) (cs_comments s)"
    "cs_comment_sync s' = dset ?t (sync_state (strip (sq_account_case_id q)) ?t snap (sq_synced_at q) n) (cs_comment_sync s)"
    using sync_cases [OF run] by (auto simp: Let_def)
  then show ?thesis
  proof cases
    case 1
    then show ?thesis by (simp add: sync_zendesk_account_comments_def Inr run)
  next
    case 2
    have "fst ` set (ticket_comments t s) \<subseteq> fst ` set (ticket_comments t s')"
      by (cases "t = ?t") (auto simp: ticket_comments_def 2(2) dget_dset keys_store_comments)
    moreover have "sync_source t s \<le> sync_source t s'"
      using 2(1) by (cases "t = ?t") (auto simp: sync_source_def 2(3) dget_dset sync_state_source strip)
    ultimately show ?thesis by (simp add: sync_zendesk_account_comments_def Inr run)
  qed
qed (simp add: sync_zendesk_account_comments_def)

section \<open>Properties\<close>


text \<open>C23
  Synchronising snapshots, in whatever order they arrive and whatever they contain, never loses a
  stored comment and never takes the stored source time of a ticket back.
\<close>

theorem comments_never_lost:
  "set (map fst (ticket_comments t s)) \<subseteq> set (map fst (ticket_comments t (sync_run sha qs s))) \<and>
   sync_source t s \<le> sync_source t (sync_run sha qs s)"
proof (induction qs arbitrary: s)
  case (Cons q qs)
  have run: "sync_run sha (q # qs) s = sync_run sha qs (snd (sync_zendesk_account_comments sha q s))"
    by (simp add: sync_run_def)
  note later = Cons.IH [of "snd (sync_zendesk_account_comments sha q s)", unfolded set_map]
  note first = sync_step_monotone [of t s sha q]
  show ?case
    unfolding run set_map
    using subset_trans [OF conjunct1 [OF first] conjunct1 [OF later]] order_trans [OF conjunct2 [OF first] conjunct2 [OF later]]
    by blast
qed (simp add: sync_run_def)

text \<open>
  Delivering a snapshot twice is harmless: once it has been stored, the same snapshot is answered
  with \<open>unchanged\<close> and the stored state, and nothing is written.
\<close>

theorem resync_changes_nothing:
  assumes "sync_zendesk_account_comments sha q s = (Inr (Synced st), s')"
  shows "sync_zendesk_account_comments sha (q\<lparr>sq_synced_at := later\<rparr>) s' = (Inr (Unchanged st), s')"
proof -
  obtain snap where snap: "normalize_snapshot sha (sq_payload q) = Inr snap"
    and run: "sync_account_case_comments (sq_ticket_id q) (sq_account_case_id q) snap (sq_synced_at q) s = (Inr (Synced st), s')"
    using assms by (auto simp: sync_zendesk_account_comments_def split: sum.splits)
  let ?t = "strip (sq_ticket_id q)" and ?i = "strip (sq_account_case_id q)"
  obtain n where n: "?t \<noteq> []" "?i \<noteq> []" "map_option case_id (get_account_case_by_ticket_id ?t s) = Some ?i"
    "cs_cases s' = cs_cases s" "st = sync_state ?i ?t snap (sq_synced_at q) n"
    "cs_comment_sync s' = dset ?t st (cs_comment_sync s)"
    using sync_cases [OF run] by (auto simp: Let_def)
  have owner: "map_option case_id (get_account_case_by_ticket_id ?t s') = Some ?i"
    using n(3) by (simp only: get_account_case_by_ticket_id_def get_billing_ticket_by_client_ticket_id_def n(4))
  have st: "dget (cs_comment_sync s') ?t = Some st" by (simp add: n(6) dget_dset)
  have fields: "st \<noteq> []" "jstrip (jget st ''source_updated_at'') = sn_source_updated_at snap"
    "jstr (jget st ''snapshot_hash'') = sn_snapshot_hash snap"
    by (simp_all add: n(5) sync_state_source snapshot_source [OF snap]) (simp_all add: sync_state_def)
  have "sync_account_case_comments (sq_ticket_id q) (sq_account_case_id q) snap later s' = (Inr (Unchanged st), s')"
    unfolding sync_account_case_comments_def Let_def using n(1,2) owner st fields by simp
  then show ?thesis by (simp add: sync_zendesk_account_comments_def snap)
qed

section \<open>Witnesses\<close>

text \<open>A published reply: its comment is created, begun, reported as added; its event waits, then is queued.\<close>

definition reply_event :: slack_event where
  "reply_event = \<lparr> se_event_id = ''E1'', se_account_case_id = ''C1'', se_message_id = ''m1'', se_reply_intent = ''answer'',
     se_case_type = ''Fraud'', se_case_title = [], se_zendesk_ticket_id = ''7'', se_zendesk_url = [],
     se_ticket_summary = [], se_message_text = ''hi'' \<rparr>"

definition empty_cases :: case_store where
  "empty_cases = \<lparr> cs_cases = [], cs_tickets = [], cs_comments = [], cs_comment_sync = [], cs_audit = [],
     cs_idempotency = [], cs_engineer_events = [], cs_zendesk = [], cs_slack = [] \<rparr>"

definition published :: case_store where
  "published =
     (let s1 = empty_cases\<lparr>cs_zendesk := snd (zendesk_run [Feed (ZCreate sample_zendesk_request)] (cs_zendesk empty_cases))\<rparr>;
          s2 = s1\<lparr>cs_slack := add_slack_delivery reply_event ''C1'' ''m1'' ''t0'' (cs_slack s1)\<rparr>
      in s2\<lparr>cs_idempotency := snd (begin_idempotent_request ''account_zendesk_internal_comment'' ''k'' ''t0'' True
            (cs_idempotency s2))\<rparr>)"

definition confirmed :: case_store where
  "confirmed = snd (record_account_zendesk_internal_comment_result ''C1'' ''T1'' ''m1'' ''k''
     [(''status'', JStr ''added''), (''comment_id'', JStr ''9'')] ''t1'' False published)"

lemma confirmed_reachable: "case_reachable confirmed"
  unfolding confirmed_def published_def Let_def
  by (rule case_reachable.step [OF _ comment_result], rule case_reachable.step [OF _ request_begun],
      rule case_reachable.step [OF _ slack_added], rule case_reachable.step [OF _ comment_delivery],
      rule case_reachable.start) (simp add: empty_cases_def)

lemma confirmed_row: "map_option (\<lambda>r. (sd_status r, sd_account_case_id r, sd_message_id r)) (dget (cs_slack confirmed) ''E1'') =
     Some (''queued'', ''C1'', ''m1'')"
  by code_simp


text \<open>The case of a ticket and the snapshot of its two comments.\<close>

definition ticket_store :: case_store where
  "ticket_store = empty_cases\<lparr>cs_cases := [(''C1'', [(''billing_ticket_id'', JStr ''C1''), (''client_ticket_id'', JStr ''T1'')])]\<rparr>"

definition two_request :: sync_request where
  "two_request = \<lparr> sq_ticket_id = ''T1'', sq_account_case_id = ''C1'', sq_payload = JDict two_payload, sq_synced_at = ''t'' \<rparr>"

lemma two_synced:
  "\<exists>st s'. sync_zendesk_account_comments id two_request ticket_store = (Inr (Synced st), s')"
proof -
  have "strip ''T1'' = ''T1''" "strip ''C1'' = ''C1''" by code_simp+
  then show ?thesis
    by (simp add: sync_zendesk_account_comments_def two_request_def two_snapshot sync_account_case_comments_def
        ticket_store_def empty_cases_def get_account_case_by_ticket_id_def get_billing_ticket_by_client_ticket_id_def
        case_id_def jor_def ticket_comments_def Let_def)
qed

theorem resync_changes_nothing_witness:
  "\<exists>st s'. sync_zendesk_account_comments id (two_request\<lparr>sq_synced_at := ''later''\<rparr>) s' = (Inr (Unchanged st), s') \<and>
     sync_zendesk_account_comments id two_request ticket_store = (Inr (Synced st), s')"
  using two_synced resync_changes_nothing by blast

end
