(* ===== verification/Prompts.thy ===== *)
theory Prompts
  imports Json_Values
begin

text \<open>
  Managed prompts: the catalog the code ships, the numbered versions of each prompt, and the
  releases that name one version per prompt and are prepared, activated, failed or synchronised
  from another deployment (\<open>sync_prompt_catalog\<close> to \<open>list_prompt_releases\<close> of
  \<open>InMemoryTicketRepository\<close>).

  The SHA-256 digest and the random part of a release id are parameters.
\<close>

section \<open>Data\<close>

record prompt_definition =
  pd_prompt_key :: string
  pd_name :: string
  pd_agent_key :: string
  pd_component_key :: string
  pd_editable :: bool
  pd_created_at :: string
  pd_updated_at :: string
  pd_retired_at :: "string option"

record prompt_version =
  pv_version :: int
  pv_content :: string
  pv_content_sha256 :: string
  pv_status :: string
  pv_based_on_version :: "int option"
  pv_change_note :: string
  pv_created_by :: string
  pv_created_at :: "string option"
  pv_scheduled_by :: "string option"
  pv_scheduled_at :: "string option"
  pv_activated_at :: "string option"

record prompt_release =
  pr_release_id :: string
  pr_build_ref :: string
  pr_status :: string
  pr_previous_release_id :: "string option"
  pr_created_at :: "string option"
  pr_activated_at :: "string option"
  pr_failure_reason :: "string option"
  pr_items :: "(string, int) dict"

record prompts =
  pm_definitions :: "(string, prompt_definition) dict"
  pm_versions :: "(string, prompt_version list) dict"
  pm_releases :: "(string, prompt_release) dict"

text \<open>An entry of the code's catalog; \<open>None\<close> is a missing key.\<close>

record catalog_entry =
  ct_prompt_key :: "string option"
  ct_content :: "string option"
  ct_name :: "string option"
  ct_agent_key :: "string option"
  ct_component_key :: "string option"
  ct_editable :: "bool option"

section \<open>Lists of versions\<close>

definition has_status :: "string \<Rightarrow> prompt_version \<Rightarrow> bool" where
  "has_status st v \<longleftrightarrow> pv_status v = st"

definition has_version :: "int \<Rightarrow> prompt_version \<Rightarrow> bool" where
  "has_version n v \<longleftrightarrow> pv_version v = n"

text \<open>\<open>target.update(...)\<close> of the first item found.\<close>

fun update_first :: "('a \<Rightarrow> bool) \<Rightarrow> ('a \<Rightarrow> 'a) \<Rightarrow> 'a list \<Rightarrow> 'a list" where
  "update_first P f [] = []"
| "update_first P f (x # xs) = (if P x then f x # xs else x # update_first P f xs)"

definition to_draft :: "prompt_version \<Rightarrow> prompt_version" where
  "to_draft v = v\<lparr>pv_status := ''draft'', pv_scheduled_by := None, pv_scheduled_at := None\<rparr>"

definition demote_scheduled :: "prompt_version list \<Rightarrow> prompt_version list" where
  "demote_scheduled vs = map (\<lambda>v. if has_status ''scheduled'' v then to_draft v else v) vs"

definition supersede_active :: "prompt_version list \<Rightarrow> prompt_version list" where
  "supersede_active vs =
     map (\<lambda>v. if has_status ''active'' v then v\<lparr>pv_status := ''superseded''\<rparr> else v) vs"

definition activate_version :: "string option \<Rightarrow> prompt_version \<Rightarrow> prompt_version" where
  "activate_version at v = v\<lparr>pv_status := ''active'', pv_activated_at := at\<rparr>"

definition max_version :: "prompt_version list \<Rightarrow> py_error + int" where
  "max_version vs =
     (if vs = [] then Inl (ValueError ''max() iterable argument is empty'')
      else Inr (Max (set (map pv_version vs))))"

text \<open>The version activated last, the first of several.\<close>

definition last_activated :: "prompt_version list \<Rightarrow> prompt_version option" where
  "last_activated vs =
     (let key = (\<lambda>v. (ostr (pv_activated_at v), pv_version v))
      in fold (\<lambda>v best. case best of None \<Rightarrow> Some v
               | Some b \<Rightarrow> if key b < key v then Some v else Some b)
           (filter (\<lambda>v. ostr (pv_activated_at v) \<noteq> []) vs) None)"

section \<open>Releases\<close>

definition is_active_release :: "prompt_release \<Rightarrow> bool" where
  "is_active_release r \<longleftrightarrow> pr_status r = ''active''"

definition get_active_prompt_release :: "prompts \<Rightarrow> prompt_release option" where
  "get_active_prompt_release s = find is_active_release (dvalues (pm_releases s))"

definition get_prompt_release :: "string \<Rightarrow> prompts \<Rightarrow> prompt_release option" where
  "get_prompt_release release_id s = dget (pm_releases s) (strip release_id)"

definition active_items :: "prompts \<Rightarrow> (string, int) dict" where
  "active_items s = (case get_active_prompt_release s of None \<Rightarrow> [] | Some r \<Rightarrow> pr_items r)"

definition is_current :: "prompt_definition \<Rightarrow> bool" where
  "is_current d \<longleftrightarrow> ostr (pd_retired_at d) = []"

definition current_keys :: "prompts \<Rightarrow> string list" where
  "current_keys s = map fst (filter (\<lambda>e. is_current (snd e)) (pm_definitions s))"

section \<open>The catalog\<close>

fun normalize_catalog ::
  "catalog_entry list \<Rightarrow> (string, catalog_entry) dict \<Rightarrow> py_error + (string, catalog_entry) dict" where
  "normalize_catalog [] acc = Inr acc"
| "normalize_catalog (e # es) acc =
     (let key = ostrip (ct_prompt_key e); content = ostrip (ct_content e)
      in if key = [] \<or> content = []
         then Inl (ValueError ''prompt catalog entries require prompt_key and content'')
         else if dget acc key \<noteq> None then Inl (ValueError (''duplicate prompt catalog key: '' @ key))
         else normalize_catalog es
                (dset key (e\<lparr>ct_prompt_key := Some key, ct_content := Some content\<rparr>) acc))"

definition described :: "string \<Rightarrow> catalog_entry \<Rightarrow> string \<Rightarrow> prompt_definition \<Rightarrow> prompt_definition" where
  "described key e at d =
     d\<lparr> pd_name := strip (or_else (ostr (ct_name e)) key),
        pd_agent_key := ostrip (ct_agent_key e),
        pd_component_key := ostrip (ct_component_key e),
        pd_editable := (case ct_editable e of None \<Rightarrow> True | Some b \<Rightarrow> b),
        pd_updated_at := at, pd_retired_at := None \<rparr>"

definition new_definition :: "string \<Rightarrow> catalog_entry \<Rightarrow> string \<Rightarrow> prompt_definition" where
  "new_definition key e at = described key e at
     \<lparr> pd_prompt_key = key, pd_name = [], pd_agent_key = [], pd_component_key = [],
       pd_editable = True, pd_created_at = at, pd_updated_at = at, pd_retired_at = None \<rparr>"

text \<open>The first version of a new prompt, scheduled when a release is active already.\<close>

definition seed_version ::
  "(string \<Rightarrow> string) \<Rightarrow> bool \<Rightarrow> string \<Rightarrow> string \<Rightarrow> string \<Rightarrow> prompt_version" where
  "seed_version sha has_active content actor at =
     \<lparr> pv_version = 1, pv_content = content, pv_content_sha256 = sha content,
       pv_status = (if has_active then ''scheduled'' else ''active''),
       pv_based_on_version = None, pv_change_note = ''Seeded from code prompt catalog'',
       pv_created_by = actor, pv_created_at = Some at,
       pv_scheduled_by = (if has_active then Some actor else None),
       pv_scheduled_at = (if has_active then Some at else None),
       pv_activated_at = (if has_active then None else Some at) \<rparr>"

text \<open>The version a prompt that comes back gets, a copy of the one activated last.\<close>

definition restored_version ::
  "(string \<Rightarrow> string) \<Rightarrow> string \<Rightarrow> int \<Rightarrow> string \<Rightarrow> string \<Rightarrow> prompt_version list \<Rightarrow> prompt_version" where
  "restored_version sha content version actor at vs =
     (let source = last_activated vs;
          text = or_else (case source of None \<Rightarrow> [] | Some v \<Rightarrow> pv_content v) content
      in \<lparr> pv_version = version, pv_content = text, pv_content_sha256 = sha text,
           pv_status = ''scheduled'', pv_based_on_version = map_option pv_version source,
           pv_change_note = ''Restored after code catalog reintroduction'',
           pv_created_by = actor, pv_created_at = Some at, pv_scheduled_by = Some actor,
           pv_scheduled_at = Some at, pv_activated_at = None \<rparr>)"

text \<open>One entry: the keys it creates and the keys it reactivates.\<close>

definition sync_entry ::
  "(string \<Rightarrow> string) \<Rightarrow> bool \<Rightarrow> string set \<Rightarrow> string \<Rightarrow> string \<Rightarrow> string \<Rightarrow> catalog_entry
    \<Rightarrow> (prompts, string list \<times> string list) op" where
  "sync_entry sha has_active active_keys actor at key e s =
     (let content = ostr (ct_content e)
      in case dget (pm_definitions s) key of
           None \<Rightarrow>
             (Inr ([key], []),
              s\<lparr> pm_definitions := dset key (new_definition key e at) (pm_definitions s),
                 pm_versions := dset key [seed_version sha has_active content actor at] (pm_versions s) \<rparr>)
         | Some d \<Rightarrow>
             let s' = s\<lparr>pm_definitions := dset key (described key e at d) (pm_definitions s)\<rparr>
             in if is_current d then (Inr ([], []), s')
                else case dget (pm_versions s) key of
                    None \<Rightarrow> (Inl (KeyError key), s')
                  | Some vs \<Rightarrow>
                      if key \<in> active_keys \<or> find (has_status ''scheduled'') vs \<noteq> None
                      then (Inr ([], [key]), s')
                      else (case max_version vs of
                              Inl err \<Rightarrow> (Inl err, s')
                            | Inr n \<Rightarrow>
                                (Inr ([], [key]),
                                 s'\<lparr>pm_versions :=
                                      dset key (vs @ [restored_version sha content (n + 1) actor at vs])
                                        (pm_versions s)\<rparr>)))"

fun sync_entries ::
  "(string \<Rightarrow> string) \<Rightarrow> bool \<Rightarrow> string set \<Rightarrow> string \<Rightarrow> string \<Rightarrow> (string, catalog_entry) dict
    \<Rightarrow> (prompts, string list \<times> string list) op" where
  "sync_entries sha has_active active_keys actor at [] s = (Inr ([], []), s)"
| "sync_entries sha has_active active_keys actor at ((key, e) # es) s =
     (case sync_entry sha has_active active_keys actor at key e s of
        (Inl err, s') \<Rightarrow> (Inl err, s')
      | (Inr (created, reactivated), s') \<Rightarrow>
          (case sync_entries sha has_active active_keys actor at es s' of
             (Inl err, s'') \<Rightarrow> (Inl err, s'')
           | (Inr (cs, rs), s'') \<Rightarrow> (Inr (created @ cs, reactivated @ rs), s'')))"

definition retire_prompt :: "string \<Rightarrow> string \<Rightarrow> prompts \<Rightarrow> prompts" where
  "retire_prompt at key s =
     s\<lparr> pm_definitions := (case dget (pm_definitions s) key of None \<Rightarrow> pm_definitions s
          | Some d \<Rightarrow> dset key (d\<lparr>pd_retired_at := Some at, pd_updated_at := at\<rparr>) (pm_definitions s)),
        pm_versions := (case dget (pm_versions s) key of None \<Rightarrow> pm_versions s
          | Some vs \<Rightarrow> dset key (demote_scheduled vs) (pm_versions s)) \<rparr>"

record catalog_report =
  cr_created :: "string list"
  cr_retired :: "string list"
  cr_reactivated :: "string list"
  cr_prompt_count :: int

definition initial_release :: "string \<Rightarrow> string list \<Rightarrow> string \<Rightarrow> prompt_release" where
  "initial_release release_id keys at =
     \<lparr> pr_release_id = release_id, pr_build_ref = ''initial'', pr_status = ''active'',
       pr_previous_release_id = None, pr_created_at = Some at, pr_activated_at = Some at,
       pr_failure_reason = None, pr_items = map (\<lambda>k. (k, 1)) (sort keys) \<rparr>"

definition sync_prompt_catalog ::
  "(string \<Rightarrow> string) \<Rightarrow> string \<Rightarrow> catalog_entry list \<Rightarrow> string \<Rightarrow> string \<Rightarrow> (prompts, catalog_report) op" where
  "sync_prompt_catalog sha uuid entries actor at s =
     (let has_active = get_active_prompt_release s \<noteq> None
      in case normalize_catalog entries [] of
           Inl err \<Rightarrow> (Inl err, s)
         | Inr catalog \<Rightarrow>
             (case sync_entries sha has_active (set (map fst (active_items s))) actor at catalog s of
                (Inl err, s1) \<Rightarrow> (Inl err, s1)
              | (Inr (created, reactivated), s1) \<Rightarrow>
                  let keys = map fst catalog;
                      retired = sort (map fst (filter (\<lambda>(k, d). k \<notin> set keys \<and> is_current d)
                                                  (pm_definitions s1)));
                      s2 = fold (retire_prompt at) retired s1;
                      release_id = ''pr-'' @ uuid;
                      s3 = (if has_active \<or> keys = [] then s2
                            else s2\<lparr>pm_releases := dset release_id (initial_release release_id keys at)
                                                    (pm_releases s2)\<rparr>)
                  in (Inr \<lparr> cr_created = created, cr_retired = retired,
                            cr_reactivated = sort reactivated, cr_prompt_count = int (length keys) \<rparr>, s3)))"

section \<open>Drafts and scheduling\<close>

record managed_prompt =
  mp_definition :: prompt_definition
  mp_versions :: "prompt_version list"
  mp_active_version :: "prompt_version option"
  mp_scheduled_version :: "prompt_version option"
  mp_active_release_id :: "string option"

definition prompt_versions :: "prompts \<Rightarrow> string \<Rightarrow> prompt_version list" where
  "prompt_versions s key = (case dget (pm_versions s) key of None \<Rightarrow> [] | Some vs \<Rightarrow> vs)"

definition current_definition :: "prompts \<Rightarrow> string \<Rightarrow> prompt_definition option" where
  "current_definition s key =
     (case dget (pm_definitions s) key of None \<Rightarrow> None
      | Some d \<Rightarrow> if is_current d then Some d else None)"

definition managed_prompt_payload :: "prompts \<Rightarrow> string \<Rightarrow> prompt_definition \<Rightarrow> managed_prompt" where
  "managed_prompt_payload s key d =
     (let vs = prompt_versions s key
      in \<lparr> mp_definition = d, mp_versions = vs,
           mp_active_version = find (has_status ''active'') vs,
           mp_scheduled_version = find (has_status ''scheduled'') vs,
           mp_active_release_id = map_option pr_release_id (get_active_prompt_release s) \<rparr>)"

definition list_managed_prompts :: "prompts \<Rightarrow> managed_prompt list" where
  "list_managed_prompts s =
     map (\<lambda>(k, d). managed_prompt_payload s k d)
       (sort_key fst (filter (\<lambda>(k, d). is_current d) (pm_definitions s)))"

definition get_managed_prompt :: "string \<Rightarrow> prompts \<Rightarrow> managed_prompt option" where
  "get_managed_prompt prompt_key s =
     map_option (managed_prompt_payload s (strip prompt_key)) (current_definition s (strip prompt_key))"

definition put_versions :: "string \<Rightarrow> prompt_version list \<Rightarrow> prompts \<Rightarrow> prompts" where
  "put_versions key vs s = s\<lparr>pm_versions := dset key vs (pm_versions s)\<rparr>"

definition draft_version ::
  "(string \<Rightarrow> string) \<Rightarrow> string \<Rightarrow> string \<Rightarrow> int \<Rightarrow> int \<Rightarrow> string \<Rightarrow> string \<Rightarrow> prompt_version" where
  "draft_version sha content change_note based_on version actor at =
     \<lparr> pv_version = version, pv_content = strip content, pv_content_sha256 = sha (strip content),
       pv_status = ''draft'', pv_based_on_version = Some based_on,
       pv_change_note = strip change_note, pv_created_by = actor, pv_created_at = Some at,
       pv_scheduled_by = None, pv_scheduled_at = None, pv_activated_at = None \<rparr>"

definition create_prompt_draft ::
  "(string \<Rightarrow> string) \<Rightarrow> string \<Rightarrow> string \<Rightarrow> string \<Rightarrow> int \<Rightarrow> string \<Rightarrow> string
    \<Rightarrow> (prompts, prompt_version) op" where
  "create_prompt_draft sha prompt_key content change_note based_on actor at s =
     (let key = strip prompt_key
      in if current_definition s key = None then (Inl (ValueError ''prompt not found''), s)
         else case dget (pm_versions s) key of
             None \<Rightarrow> (Inl (KeyError key), s)
           | Some vs \<Rightarrow>
               (case find (has_status ''active'') vs of
                  None \<Rightarrow> (Inl (RuntimeError ''active prompt version changed''), s)
                | Some a \<Rightarrow>
                    if pv_version a \<noteq> based_on
                    then (Inl (RuntimeError ''active prompt version changed''), s)
                    else case max_version vs of
                        Inl err \<Rightarrow> (Inl err, s)
                      | Inr n \<Rightarrow>
                          let item = draft_version sha content change_note based_on (n + 1) actor at
                          in (Inr item, put_versions key (vs @ [item]) s)))"

definition scheduled_as :: "string \<Rightarrow> string \<Rightarrow> prompt_version \<Rightarrow> prompt_version" where
  "scheduled_as actor at v =
     v\<lparr>pv_status := ''scheduled'', pv_scheduled_by := Some actor, pv_scheduled_at := Some at\<rparr>"

definition schedule_prompt_version ::
  "string \<Rightarrow> int \<Rightarrow> string \<Rightarrow> string \<Rightarrow> (prompts, prompt_version) op" where
  "schedule_prompt_version prompt_key version actor at s =
     (let key = strip prompt_key; vs = prompt_versions s key
      in if current_definition s key = None then (Inl (ValueError ''prompt not found''), s)
         else case find (has_version version) vs of
             None \<Rightarrow> (Inl (ValueError ''draft version not found''), s)
           | Some target \<Rightarrow>
               if pv_status target \<noteq> ''draft'' then (Inl (ValueError ''draft version not found''), s)
               else (Inr (scheduled_as actor at target),
                     put_versions key
                       (update_first (has_version version) (scheduled_as actor at) (demote_scheduled vs)) s))"

definition unschedule_prompt_version :: "string \<Rightarrow> int \<Rightarrow> (prompts, prompt_version) op" where
  "unschedule_prompt_version prompt_key version s =
     (let key = strip prompt_key; vs = prompt_versions s key
      in case find (has_version version) vs of
           None \<Rightarrow> (Inl (ValueError ''scheduled version not found''), s)
         | Some target \<Rightarrow>
             if pv_status target \<noteq> ''scheduled''
             then (Inl (ValueError ''scheduled version not found''), s)
             else (Inr (to_draft target), put_versions key (update_first (has_version version) to_draft vs) s))"

definition restore_prompt_version ::
  "(string \<Rightarrow> string) \<Rightarrow> string \<Rightarrow> int \<Rightarrow> string \<Rightarrow> string \<Rightarrow> (prompts, prompt_version) op" where
  "restore_prompt_version sha prompt_key version actor at s =
     (case get_managed_prompt prompt_key s of
        None \<Rightarrow> (Inl (ValueError ''prompt version not found''), s)
      | Some p \<Rightarrow>
          (case (find (has_version version) (mp_versions p), mp_active_version p) of
             (Some source, Some a) \<Rightarrow>
               create_prompt_draft sha prompt_key (pv_content source)
                 (''Restore version '' @ show_int version) (pv_version a) actor at s
           | _ \<Rightarrow> (Inl (ValueError ''prompt version not found''), s)))"

section \<open>Deployment\<close>

text \<open>The version a release takes for each current prompt: the scheduled one, or the deployed one.\<close>

fun release_items ::
  "(string \<Rightarrow> prompt_version option) \<Rightarrow> (string, int) dict \<Rightarrow> string list
    \<Rightarrow> py_error + (string, int) dict" where
  "release_items scheduled deployed [] = Inr []"
| "release_items scheduled deployed (key # keys) =
     (case (case scheduled key of Some v \<Rightarrow> Some (pv_version v) | None \<Rightarrow> dget deployed key) of
        None \<Rightarrow> Inl (ValueError (''current prompt catalog key has no deployable version: '' @ key))
      | Some n \<Rightarrow> map_sum id (\<lambda>items. (key, n) # items) (release_items scheduled deployed keys))"

definition supersede_candidates :: "(string, prompt_release) dict \<Rightarrow> (string, prompt_release) dict" where
  "supersede_candidates rs =
     dupdate_where (\<lambda>r. pr_status r = ''candidate'')
       (\<lambda>r. r\<lparr>pr_status := ''failed'',
              pr_failure_reason := Some ''Superseded by a newer deployment candidate''\<rparr>) rs"

definition supersede_releases :: "(string, prompt_release) dict \<Rightarrow> (string, prompt_release) dict" where
  "supersede_releases rs = dupdate_where is_active_release (\<lambda>r. r\<lparr>pr_status := ''superseded''\<rparr>) rs"

definition candidate_release ::
  "string \<Rightarrow> string \<Rightarrow> string \<Rightarrow> (string, int) dict \<Rightarrow> prompts \<Rightarrow> prompt_release" where
  "candidate_release release_id build_ref at items s =
     \<lparr> pr_release_id = release_id, pr_build_ref = or_else build_ref ''unknown'', pr_status = ''candidate'',
       pr_previous_release_id = map_option pr_release_id (get_active_prompt_release s),
       pr_created_at = Some at, pr_activated_at = None, pr_failure_reason = None, pr_items = items \<rparr>"

definition prepare_prompt_release ::
  "string \<Rightarrow> string \<Rightarrow> string \<Rightarrow> (prompts, prompt_release \<times> bool) op" where
  "prepare_prompt_release uuid build_ref at s =
     (let deployed = active_items s;
          keys = current_keys s;
          scheduled = (\<lambda>k. find (has_status ''scheduled'') (prompt_versions s k))
      in if list_all (\<lambda>k. scheduled k = None) keys \<and> set (map fst deployed) = set keys
         then case get_active_prompt_release s of
             None \<Rightarrow> (Inl (ValueError ''active prompt release not found''), s)
           | Some r \<Rightarrow> (Inr (r, False), s)
         else case release_items scheduled deployed (sort keys) of
             Inl err \<Rightarrow> (Inl err, s)
           | Inr items \<Rightarrow>
               let release_id = ''pr-'' @ uuid; release = candidate_release release_id build_ref at items s
               in (Inr (release, True),
                   s\<lparr>pm_releases := dset release_id release (supersede_candidates (pm_releases s))\<rparr>))"

text \<open>The loop that marks the released versions; a key without versions ends it.\<close>

fun activate_items ::
  "string \<Rightarrow> (string, int) dict \<Rightarrow> (string, prompt_version list) dict
    \<Rightarrow> py_error option \<times> (string, prompt_version list) dict" where
  "activate_items at [] versions = (None, versions)"
| "activate_items at ((key, n) # items) versions =
     (case dget versions key of
        None \<Rightarrow> (Some (KeyError key), versions)
      | Some vs \<Rightarrow> activate_items at items
          (dset key (map (\<lambda>v. if has_version n v then activate_version (Some at) v else v) vs) versions))"

definition supersede_all ::
  "(string, prompt_version list) dict \<Rightarrow> (string, prompt_version list) dict" where
  "supersede_all versions = map (\<lambda>(k, vs). (k, supersede_active vs)) versions"

definition activate_prompt_release :: "string \<Rightarrow> string \<Rightarrow> (prompts, prompt_release) op" where
  "activate_prompt_release release_id at s =
     (let i = strip release_id
      in case dget (pm_releases s) i of
           None \<Rightarrow> (Inl (ValueError ''prompt release not found''), s)
         | Some r \<Rightarrow>
             if is_active_release r then (Inr r, s)
             else if pr_status r \<noteq> ''candidate''
             then (Inl (ValueError ''candidate prompt release not found''), s)
             else let (err, versions) = activate_items at (pr_items r) (supersede_all (pm_versions s));
                      s' = s\<lparr>pm_releases := supersede_releases (pm_releases s), pm_versions := versions\<rparr>
                  in case err of
                       Some e \<Rightarrow> (Inl e, s')
                     | None \<Rightarrow>
                         let r' = r\<lparr>pr_status := ''active'', pr_activated_at := Some at\<rparr>
                         in (Inr r', s'\<lparr>pm_releases := dset i r' (pm_releases s')\<rparr>))"

definition fail_prompt_release :: "string \<Rightarrow> string \<Rightarrow> (prompts, prompt_release) op" where
  "fail_prompt_release release_id failure_reason s =
     (let i = strip release_id
      in case dget (pm_releases s) i of
           None \<Rightarrow> (Inl (ValueError ''candidate prompt release not found''), s)
         | Some r \<Rightarrow>
             if pr_status r \<noteq> ''candidate''
             then (Inl (ValueError ''candidate prompt release not found''), s)
             else let r' = r\<lparr>pr_status := ''failed'', pr_failure_reason := Some (strip failure_reason)\<rparr>
                  in (Inr r', s\<lparr>pm_releases := dset i r' (pm_releases s)\<rparr>))"

definition list_prompt_releases :: "int \<Rightarrow> prompts \<Rightarrow> prompt_release list" where
  "list_prompt_releases limit s =
     take_limit 200 limit
       (sort_desc (\<lambda>r. case pr_created_at r of None \<Rightarrow> ''None'' | Some t \<Rightarrow> t)
         (dvalues (pm_releases s)))"

section \<open>The service\<close>

text \<open>
  \<open>PromptVersionService\<close> checks what a caller sends before it reaches the repository. A draft is
  at most \<open>MAX_PROMPT_CONTENT_CHARS\<close> long and its note at most \<open>MAX_CHANGE_NOTE_CHARS\<close>.
\<close>

definition max_prompt_content_chars :: int where "max_prompt_content_chars = 100000"

definition max_change_note_chars :: int where "max_change_note_chars = 500"

definition create_draft ::
  "(string \<Rightarrow> string) \<Rightarrow> string \<Rightarrow> string \<Rightarrow> string \<Rightarrow> int \<Rightarrow> string \<Rightarrow> string
    \<Rightarrow> (prompts, prompt_version) op" where
  "create_draft sha prompt_key content change_note based_on actor at s =
     (let text = strip content; note = strip change_note
      in if text = [] then (Inl (ValueError ''prompt content is required''), s)
         else if max_prompt_content_chars < int (length text)
         then (Inl (ValueError (''prompt content exceeds '' @ show_int max_prompt_content_chars @ '' characters'')), s)
         else if note = [] then (Inl (ValueError ''change_note is required''), s)
         else if max_change_note_chars < int (length note)
         then (Inl (ValueError (''change_note exceeds '' @ show_int max_change_note_chars @ '' characters'')), s)
         else case get_managed_prompt prompt_key s of
             None \<Rightarrow> (Inl (ValueError ''prompt not found''), s)
           | Some p \<Rightarrow>
               if \<not> pd_editable (mp_definition p) then (Inl (ValueError ''prompt is read-only''), s)
               else create_prompt_draft sha prompt_key text note based_on actor at s)"

text \<open>\<open>prepare_release\<close>: the catalog of the running code first, then a candidate.\<close>

definition prepare_release ::
  "(string \<Rightarrow> string) \<Rightarrow> string \<Rightarrow> string \<Rightarrow> catalog_entry list \<Rightarrow> string \<Rightarrow> string
    \<Rightarrow> (prompts, prompt_release \<times> bool) op" where
  "prepare_release sha uuid1 uuid2 entries build_ref at s =
     (case sync_prompt_catalog sha uuid1 entries ''system'' at s of
        (Inl err, s') \<Rightarrow> (Inl err, s')
      | (Inr _, s') \<Rightarrow>
          prepare_prompt_release uuid2 (or_else (strip (or_else build_ref ''unknown'')) ''unknown'') at s')"

definition fail_release :: "string \<Rightarrow> string \<Rightarrow> (prompts, prompt_release) op" where
  "fail_release release_id failure_reason s =
     (let reason = strip failure_reason
      in if reason = [] then (Inl (ValueError ''failure_reason is required''), s)
         else fail_prompt_release release_id (take 1000 reason) s)"

section \<open>Synchronising a release from another deployment\<close>

text \<open>The payload: the release and one row per version it names; \<open>None\<close> is a missing value.\<close>

record release_payload =
  rp_release_id :: "string option"
  rp_build_ref :: "string option"
  rp_status :: "string option"
  rp_previous_release_id :: "string option"
  rp_created_at :: "string option"
  rp_activated_at :: "string option"
  rp_items :: "(string, int) dict"

record version_row =
  vr_prompt_key :: "string option"
  vr_version :: int
  vr_content :: "string option"
  vr_content_sha256 :: "string option"
  vr_status :: "string option"
  vr_based_on_version :: "int option"
  vr_change_note :: "string option"
  vr_created_by :: "string option"
  vr_created_at :: "string option"
  vr_scheduled_by :: "string option"
  vr_scheduled_at :: "string option"
  vr_activated_at :: "string option"

definition key_version :: "string \<Rightarrow> int \<Rightarrow> string" where
  "key_version key n = key @ '' v'' @ show_int n"

fun payload_hashes ::
  "(string \<Rightarrow> string) \<Rightarrow> (string, int) dict \<Rightarrow> version_row list \<Rightarrow> (string, string) dict
    \<Rightarrow> py_error + (string, string) dict" where
  "payload_hashes sha items [] hashes = Inr hashes"
| "payload_hashes sha items (row # rows) hashes =
     (let key = ostrip (vr_prompt_key row); n = vr_version row;
          content_sha256 = ostrip (vr_content_sha256 row)
      in if key = [] \<or> n < 1 \<or> dget items key \<noteq> Some n
         then Inl (ValueError (''synced version does not match the release items: '' @ key_version key n))
         else if content_sha256 = []
         then Inl (ValueError (''content_sha256 is required for synced version: '' @ key_version key n))
         else if sha (ostr (vr_content row)) \<noteq> content_sha256
         then Inl (ValueError (''content hash mismatch for synced payload: '' @ key_version key n))
         else if dget hashes key \<noteq> None
         then Inl (ValueError (''duplicate synced prompt version: '' @ key))
         else payload_hashes sha items rows (dset key content_sha256 hashes))"

definition missing_versions :: "(string, int) dict \<Rightarrow> (string, 'a) dict \<Rightarrow> string" where
  "missing_versions items found =
     py_str (JList (map JStr (sort (filter (\<lambda>k. dget found k = None) (map fst items)))))"

definition validate_prompt_release_sync_payload ::
  "(string \<Rightarrow> string) \<Rightarrow> release_payload \<Rightarrow> version_row list
    \<Rightarrow> py_error + (string \<times> string \<times> (string, string) dict)" where
  "validate_prompt_release_sync_payload sha release rows =
     (let release_id = ostrip (rp_release_id release); status = ostrip (rp_status release);
          items = rp_items release
      in if release_id = [] then Inl (ValueError ''release_id is required'')
         else if status \<notin> {''candidate'', ''active''}
         then Inl (ValueError (''cannot sync a prompt release with status '' @ or_else status ''unknown''))
         else case payload_hashes sha items rows [] of
             Inl err \<Rightarrow> Inl err
           | Inr hashes \<Rightarrow>
               if fst ` set hashes \<noteq> fst ` set items
               then Inl (ValueError (''synced release is missing prompt versions: '' @
                                     missing_versions items hashes))
               else Inr (release_id, status, hashes))"

record sync_report =
  sr_release_id :: string
  sr_status :: string
  sr_created :: bool
  sr_versions_created :: int
  sr_versions_matched :: int
  sr_versions_remapped :: int

text \<open>A release stored earlier: its versions must have the contents of the payload.\<close>

definition resync ::
  "prompt_release \<Rightarrow> release_payload \<Rightarrow> string \<Rightarrow> (string, string) dict \<Rightarrow> prompts \<Rightarrow> py_error + sync_report" where
  "resync existing release release_id hashes s =
     (let mismatch = Inl (ValueError (''prompt release content fingerprint mismatch: '' @ release_id));
          items = rp_items release; target_items = pr_items existing;
          same = (\<lambda>(key, n). case find (has_version n) (prompt_versions s key) of
             None \<Rightarrow> False | Some v \<Rightarrow> Some (pv_content_sha256 v) = dget hashes key)
      in if strip (pr_status existing) \<notin> {''candidate'', ''active''}
         then Inl (ValueError (''existing prompt release is not deployable: '' @ release_id))
         else if pr_build_ref existing \<noteq> ostr (rp_build_ref release)
         then Inl (ValueError (''prompt release build_ref mismatch: '' @ release_id))
         else if fst ` set target_items \<noteq> fst ` set items then mismatch
         else if \<not> list_all same target_items then mismatch
         else Inr \<lparr> sr_release_id = release_id, sr_status = strip (pr_status existing), sr_created = False,
                    sr_versions_created = 0, sr_versions_matched = int (length items),
                    sr_versions_remapped =
                      int (length (filter (\<lambda>(k, n). dget target_items k \<noteq> Some n) items)) \<rparr>)"

text \<open>The number a synchronised version gets here, and whether it is a new version.\<close>

definition sync_target :: "version_row \<Rightarrow> string \<Rightarrow> prompt_version list \<Rightarrow> int \<times> bool" where
  "sync_target row content_sha256 vs =
     (case find (has_version (vr_version row)) vs of
        Some v \<Rightarrow>
          if pv_content_sha256 v = content_sha256 then (vr_version row, False)
          else (case find (\<lambda>w. pv_content_sha256 w = content_sha256) vs of
                  Some w \<Rightarrow> (pv_version w, False)
                | None \<Rightarrow> (Max (set (map pv_version vs)) + 1, True))
      | None \<Rightarrow>
          (case find (\<lambda>w. pv_content_sha256 w = content_sha256) vs of
             Some w \<Rightarrow> (pv_version w, False)
           | None \<Rightarrow> (vr_version row, True)))"

definition synced_version :: "version_row \<Rightarrow> int \<Rightarrow> string \<Rightarrow> string \<Rightarrow> prompt_version" where
  "synced_version row target content_sha256 row_status =
     \<lparr> pv_version = target, pv_content = ostr (vr_content row), pv_content_sha256 = content_sha256,
       pv_status = row_status,
       pv_based_on_version = (if target = vr_version row then vr_based_on_version row else None),
       pv_change_note = or_else (ostr (vr_change_note row)) ''Synced from another deployment database'',
       pv_created_by = or_else (ostr (vr_created_by row)) ''system'',
       pv_created_at = vr_created_at row,
       pv_scheduled_by = (if row_status = ''scheduled'' then vr_scheduled_by row else None),
       pv_scheduled_at = (if row_status = ''scheduled'' then vr_scheduled_at row else None),
       pv_activated_at = (if row_status = ''active'' then vr_activated_at row else None) \<rparr>"

definition add_synced ::
  "version_row \<Rightarrow> int \<Rightarrow> string \<Rightarrow> string \<Rightarrow> prompt_version list \<Rightarrow> prompt_version list" where
  "add_synced row target content_sha256 row_status vs =
     (if row_status = ''active'' then supersede_active vs
      else if row_status = ''scheduled'' then demote_scheduled vs else vs) @
     [synced_version row target content_sha256 row_status]"

text \<open>
  The loop over the rows. It returns the target of each key with whether it was created; the
  payload was validated before, so the only error left is a prompt the catalog does not have.
\<close>

fun sync_rows ::
  "string \<Rightarrow> version_row list \<Rightarrow> (prompts, (string \<times> version_row \<times> int \<times> bool) list) op" where
  "sync_rows status [] s = (Inr [], s)"
| "sync_rows status (row # rows) s =
     (let key = ostrip (vr_prompt_key row); sha256 = ostrip (vr_content_sha256 row)
      in if current_definition s key = None
         then (Inl (ValueError (''prompt definition missing or retired for synced version: '' @ key)), s)
         else let vs = prompt_versions s key;
                  (target, new) = sync_target row sha256 vs;
                  row_status = (if status = ''candidate'' then ''draft''
                                else or_else (ostr (vr_status row)) ''draft'');
                  s' = (if new then put_versions key (add_synced row target sha256 row_status vs) s else s)
              in case sync_rows status rows s' of
                   (Inl err, s'') \<Rightarrow> (Inl err, s'')
                 | (Inr ts, s'') \<Rightarrow> (Inr ((key, row, target, new) # ts), s''))"

definition select_version ::
  "string option \<Rightarrow> string \<times> int \<Rightarrow> (string, prompt_version list) dict \<Rightarrow> (string, prompt_version list) dict" where
  "select_version at = (\<lambda>(key, n) versions.
     case dget versions key of None \<Rightarrow> versions
     | Some vs \<Rightarrow> dset key (update_first (has_version n) (activate_version at) vs) versions)"

definition synced_release ::
  "release_payload \<Rightarrow> string \<Rightarrow> string \<Rightarrow> (string, int) dict \<Rightarrow> (string, prompt_release) dict \<Rightarrow> prompt_release" where
  "synced_release release release_id status items releases =
     (let previous = ostrip (rp_previous_release_id release)
      in \<lparr> pr_release_id = release_id,
           pr_build_ref = or_else (ostr (rp_build_ref release)) ''unknown'', pr_status = status,
           pr_previous_release_id =
             (if previous \<noteq> [] \<and> dget releases previous \<noteq> None then Some previous else None),
           pr_created_at = rp_created_at release, pr_activated_at = rp_activated_at release,
           pr_failure_reason = None, pr_items = items \<rparr>)"

definition sync_prompt_release ::
  "(string \<Rightarrow> string) \<Rightarrow> release_payload \<Rightarrow> version_row list \<Rightarrow> (prompts, sync_report) op" where
  "sync_prompt_release sha release rows s =
     (case validate_prompt_release_sync_payload sha release rows of
        Inl err \<Rightarrow> (Inl err, s)
      | Inr (release_id, status, hashes) \<Rightarrow>
          (case dget (pm_releases s) release_id of
             Some existing \<Rightarrow> (resync existing release release_id hashes s, s)
           | None \<Rightarrow>
               (case sync_rows status rows s of
                  (Inl err, s1) \<Rightarrow> (Inl err, s1)
                | (Inr ts, s1) \<Rightarrow>
                    let items = map (\<lambda>(key, row, target, new). (key, target)) ts;
                        report = \<lparr> sr_release_id = release_id, sr_status = status, sr_created = True,
                          sr_versions_created = int (length (filter (\<lambda>(key, row, target, new). new) ts)),
                          sr_versions_matched = int (length (filter (\<lambda>(key, row, target, new). \<not> new) ts)),
                          sr_versions_remapped =
                            int (length (filter (\<lambda>(key, row, target, new). target \<noteq> vr_version row) ts)) \<rparr>;
                        releases = (if status = ''active'' then supersede_releases (pm_releases s1)
                                    else pm_releases s1);
                        r = synced_release release release_id status items releases
                    in (Inr report,
                        s1\<lparr> pm_releases := dset release_id r releases,
                            pm_versions := (if status = ''active''
                              then fold (select_version (rp_activated_at release)) items
                                     (supersede_all (pm_versions s1))
                              else pm_versions s1) \<rparr>))))"

end
