(* ===== verification/Prompt_Deployment.thy ===== *)
theory Prompt_Deployment
  imports Prompts
begin

text \<open>
  What managed prompts guarantee: the invariant of the three tables, that every operation keeps
  it, and the properties of reachable states. The lemmas go from lists of versions over the
  tables to the operations; \<open>prompts_reachable\<close> collects the states the operations lead to.
\<close>

section \<open>Lists of versions: what the updates keep\<close>

definition numbers :: "prompt_version list \<Rightarrow> int list" where
  "numbers vs = map pv_version vs"

definition active_versions :: "prompt_version list \<Rightarrow> int list" where
  "active_versions vs = map pv_version (filter (has_status ''active'') vs)"

definition scheduled_versions :: "prompt_version list \<Rightarrow> int list" where
  "scheduled_versions vs = map pv_version (filter (has_status ''scheduled'') vs)"

definition versions_ok :: "(string \<Rightarrow> string) \<Rightarrow> prompt_version list \<Rightarrow> bool" where
  "versions_ok sha vs \<longleftrightarrow> vs \<noteq> [] \<and> distinct (numbers vs) \<and> length (scheduled_versions vs) \<le> 1 \<and>
     list_all (\<lambda>v. sha (pv_content v) = pv_content_sha256 v) vs"

lemma has_status_simps [simp]:
  "has_status st (v\<lparr>pv_status := st', pv_scheduled_by := x, pv_scheduled_at := y\<rparr>) = (st' = st)"
  "has_status st (v\<lparr>pv_status := st', pv_activated_at := y\<rparr>) = (st' = st)"
  "has_status st (v\<lparr>pv_status := st'\<rparr>) = (st' = st)"
  "has_status st (to_draft v) = (st = ''draft'')"
  "has_status st (activate_version x v) = (st = ''active'')"
  "has_status st (scheduled_as a b v) = (st = ''scheduled'')"
  by (auto simp: has_status_def to_draft_def activate_version_def scheduled_as_def)

lemma kept_simps [simp]:
  "pv_version (to_draft v) = pv_version v" "pv_version (activate_version x v) = pv_version v"
  "pv_version (scheduled_as a b v) = pv_version v"
  "pv_content (to_draft v) = pv_content v" "pv_content (activate_version x v) = pv_content v"
  "pv_content (scheduled_as a b v) = pv_content v"
  "pv_content_sha256 (to_draft v) = pv_content_sha256 v"
  "pv_content_sha256 (activate_version x v) = pv_content_sha256 v"
  "pv_content_sha256 (scheduled_as a b v) = pv_content_sha256 v"
  by (simp_all add: to_draft_def activate_version_def scheduled_as_def)

lemma status_unique: "has_status a v \<Longrightarrow> has_status b v \<longleftrightarrow> a = b"
  by (auto simp: has_status_def)

lemma versions_Nil [simp]: "numbers [] = []" "active_versions [] = []" "scheduled_versions [] = []"
  by (simp_all add: numbers_def active_versions_def scheduled_versions_def)

lemma versions_Cons [simp]:
  "numbers (v # vs) = pv_version v # numbers vs"
  "active_versions (v # vs) = (if has_status ''active'' v then [pv_version v] else []) @ active_versions vs"
  "scheduled_versions (v # vs) =
     (if has_status ''scheduled'' v then [pv_version v] else []) @ scheduled_versions vs"
  by (simp_all add: numbers_def active_versions_def scheduled_versions_def)

lemma versions_append [simp]:
  "numbers (vs @ ws) = numbers vs @ numbers ws"
  "active_versions (vs @ ws) = active_versions vs @ active_versions ws"
  "scheduled_versions (vs @ ws) = scheduled_versions vs @ scheduled_versions ws"
  by (simp_all add: numbers_def active_versions_def scheduled_versions_def)

lemma numbers_empty [simp]: "numbers vs = [] \<longleftrightarrow> vs = []"
  by (simp add: numbers_def)

lemma demote_scheduled [simp]:
  "numbers (demote_scheduled vs) = numbers vs"
  "active_versions (demote_scheduled vs) = active_versions vs"
  "scheduled_versions (demote_scheduled vs) = []"
  by (induction vs) (auto simp: demote_scheduled_def has_status_def to_draft_def)

lemma supersede_active [simp]:
  "numbers (supersede_active vs) = numbers vs"
  "active_versions (supersede_active vs) = []"
  "scheduled_versions (supersede_active vs) = scheduled_versions vs"
  by (induction vs) (auto simp: supersede_active_def has_status_def)

lemma update_first_map:
  "distinct (numbers vs) \<Longrightarrow>
     update_first (has_version n) f vs = map (\<lambda>v. if has_version n v then f v else v) vs"
proof (induction vs)
  case (Cons v vs)
  have "\<not> has_version n w" if "has_version n v" "w \<in> set vs" for w
    using that Cons.prems by (metis distinct.simps(2) has_version_def image_eqI list.set_map numbers_def versions_Cons(1))
  then have "map (\<lambda>w. if has_version n w then f w else w) vs = vs" if "has_version n v"
    using that by (intro map_idI) auto
  with Cons show ?case by auto
qed simp

lemma activate_numbers [simp]:
  "numbers (map (\<lambda>v. if has_version n v then activate_version at v else v) vs) = numbers vs"
  by (induction vs) simp_all

lemma activate_scheduled:
  "length (scheduled_versions (map (\<lambda>v. if has_version n v then activate_version at v else v) vs))
     \<le> length (scheduled_versions vs)"
  by (induction vs) auto

lemma activate_active:
  "distinct (numbers vs) \<Longrightarrow> active_versions vs = [] \<Longrightarrow>
     active_versions (map (\<lambda>v. if has_version n v then activate_version at v else v) vs) =
       (if n \<in> set (numbers vs) then [n] else [])"
proof (induction vs)
  case (Cons v vs)
  then show ?case by (auto simp: has_version_def split: if_splits)
qed simp

lemma hashes_kept:
  assumes "list_all (\<lambda>v. sha (pv_content v) = pv_content_sha256 v) vs"
    and "\<And>v. pv_content (f v) = pv_content v" "\<And>v. pv_content_sha256 (f v) = pv_content_sha256 v"
  shows "list_all (\<lambda>v. sha (pv_content v) = pv_content_sha256 v) (map (\<lambda>v. if P v then f v else v) vs)"
  using assms by (auto simp: list_all_iff)

abbreviation hashes_ok :: "(string \<Rightarrow> string) \<Rightarrow> prompt_version list \<Rightarrow> bool" where
  "hashes_ok sha vs \<equiv> list_all (\<lambda>v. sha (pv_content v) = pv_content_sha256 v) vs"

lemma hashes_updates [simp]:
  "hashes_ok sha vs \<Longrightarrow> hashes_ok sha (demote_scheduled vs)"
  "hashes_ok sha vs \<Longrightarrow> hashes_ok sha (supersede_active vs)"
  by (simp_all add: demote_scheduled_def supersede_active_def hashes_kept)

lemma updates_Nil [simp]:
  "demote_scheduled vs = [] \<longleftrightarrow> vs = []" "supersede_active vs = [] \<longleftrightarrow> vs = []"
  by (simp_all add: demote_scheduled_def supersede_active_def)

lemma versions_ok_updates [intro]:
  "versions_ok sha vs \<Longrightarrow> versions_ok sha (demote_scheduled vs)"
  "versions_ok sha vs \<Longrightarrow> versions_ok sha (supersede_active vs)"
  by (simp_all add: versions_ok_def)

lemma versions_ok_activate [intro]:
  "versions_ok sha vs \<Longrightarrow>
     versions_ok sha (map (\<lambda>v. if has_version n v then activate_version at v else v) vs)"
  using activate_scheduled [of n at vs] by (simp add: versions_ok_def hashes_kept)

lemma versions_ok_append:
  "versions_ok sha vs \<Longrightarrow> pv_version v \<notin> set (numbers vs) \<Longrightarrow>
     (has_status ''scheduled'' v \<Longrightarrow> scheduled_versions vs = []) \<Longrightarrow>
     sha (pv_content v) = pv_content_sha256 v \<Longrightarrow> versions_ok sha (vs @ [v])"
  by (auto simp: versions_ok_def)

lemma fresh_max: "max_version vs = Inr n \<Longrightarrow> n + 1 \<notin> set (numbers vs)"
  by (auto simp: max_version_def numbers_def split: if_splits)
     (metis List.finite_set Max_ge finite_imageI imageI zle_add1_eq_le less_irrefl)

lemma find_version:
  "find (has_version n) vs = Some v \<Longrightarrow> v \<in> set vs \<and> pv_version v = n"
  "find (has_version n) vs = None \<longleftrightarrow> n \<notin> set (numbers vs)"
  by (auto simp: find_Some_iff find_None_iff has_version_def numbers_def)

lemma find_status_None: 
  "find (has_status ''scheduled'') vs = None \<longleftrightarrow> scheduled_versions vs = []"
  by (auto simp: find_None_iff scheduled_versions_def filter_empty_conv)

lemma found_unique:
  "distinct (numbers vs) \<Longrightarrow> find (has_version n) vs = Some v \<Longrightarrow> w \<in> set vs \<Longrightarrow> has_version n w \<Longrightarrow> w = v"
  using find_version(1) [of n vs v] by (metis distinct_map has_version_def inj_onD numbers_def)

lemma filter_single: "distinct xs \<Longrightarrow> n \<in> set xs \<Longrightarrow> filter (\<lambda>i. i = n) xs = [n]"
  by (induction xs) (auto simp: filter_empty_conv)

text \<open>A change to the version with one number.\<close>

abbreviation change :: "int \<Rightarrow> (prompt_version \<Rightarrow> prompt_version) \<Rightarrow> prompt_version list \<Rightarrow> prompt_version list" where
  "change n f vs \<equiv> map (\<lambda>v. if has_version n v then f v else v) vs"

lemma change_numbers: "(\<And>v. pv_version (f v) = pv_version v) \<Longrightarrow> numbers (change n f vs) = numbers vs"
  by (induction vs) simp_all

lemma change_active:
  "(\<And>v. v \<in> set vs \<Longrightarrow> has_version n v \<Longrightarrow> \<not> has_status ''active'' v \<and> \<not> has_status ''active'' (f v)) \<Longrightarrow>
     active_versions (change n f vs) = active_versions vs"
  by (induction vs) auto

lemma change_to_scheduled:
  "scheduled_versions vs = [] \<Longrightarrow>
     scheduled_versions (change n (scheduled_as a b) vs) = filter (\<lambda>i. i = n) (numbers vs)"
  by (induction vs) (auto simp: has_version_def split: if_splits)

lemma change_to_draft:
  "length (scheduled_versions (change n to_draft vs)) \<le> length (scheduled_versions vs)"
  by (induction vs) auto

lemma in_demote:
  "w \<in> set (demote_scheduled vs) \<Longrightarrow> has_status ''active'' w \<Longrightarrow> w \<in> set vs"
  by (auto simp: demote_scheduled_def split: if_splits)

text \<open>The two updates of a single version, on lists with distinct numbers.\<close>

lemma scheduled_update:
  fixes a b :: string
  assumes "versions_ok sha vs" "find (has_version n) vs = Some v" "pv_status v = ''draft''"
  defines "ws \<equiv> update_first (has_version n) (scheduled_as a b) (demote_scheduled vs)"
  shows "versions_ok sha ws" "active_versions ws = active_versions vs" "numbers ws = numbers vs"
    "scheduled_versions ws = [n]"
proof -
  have d: "distinct (numbers vs)" "hashes_ok sha vs" "vs \<noteq> []" using assms(1) by (auto simp: versions_ok_def)
  have ws: "ws = change n (scheduled_as a b) (demote_scheduled vs)"
    using d by (simp add: ws_def update_first_map)
  have "\<not> has_status ''active'' w" if "w \<in> set (demote_scheduled vs)" "has_version n w" for w
    using in_demote [OF that(1)] found_unique [OF d(1) assms(2) _ that(2)] assms(3)
    by (auto simp: has_status_def)
  then show a: "active_versions ws = active_versions vs" by (simp add: ws change_active)
  show n: "numbers ws = numbers vs" by (simp add: ws change_numbers)
  have "n \<in> set (numbers vs)" using find_version(1) [OF assms(2)] by (auto simp: numbers_def)
  with d(1) show s: "scheduled_versions ws = [n]" by (simp add: ws change_to_scheduled filter_single)
  from d n s show "versions_ok sha ws" by (simp add: versions_ok_def ws hashes_kept)
qed

lemma drafted_update:
  assumes "versions_ok sha vs" "find (has_version n) vs = Some v" "pv_status v = ''scheduled''"
  defines "ws \<equiv> update_first (has_version n) to_draft vs"
  shows "versions_ok sha ws" "active_versions ws = active_versions vs" "numbers ws = numbers vs"
proof -
  have d: "distinct (numbers vs)" "hashes_ok sha vs" "vs \<noteq> []" "length (scheduled_versions vs) \<le> 1"
    using assms(1) by (auto simp: versions_ok_def)
  have ws: "ws = change n to_draft vs" using d by (simp add: ws_def update_first_map)
  have "\<not> has_status ''active'' w" if "w \<in> set vs" "has_version n w" for w
    using found_unique [OF d(1) assms(2) that] assms(3) by (auto simp: has_status_def)
  then show "active_versions ws = active_versions vs" by (simp add: ws change_active)
  show n: "numbers ws = numbers vs" by (simp add: ws change_numbers)
  from d n change_to_draft [of n vs] show "versions_ok sha ws"
    by (simp add: versions_ok_def ws hashes_kept)
qed

section \<open>The invariant\<close>

definition item_of :: "(string, int) dict \<Rightarrow> string \<Rightarrow> int list" where
  "item_of items k = (case dget items k of None \<Rightarrow> [] | Some n \<Rightarrow> [n])"

definition items_stored :: "(string, prompt_version list) dict \<Rightarrow> (string, int) dict \<Rightarrow> bool" where
  "items_stored versions items \<longleftrightarrow> wf_dict items \<and>
     (\<forall>k n. dget items k = Some n \<longrightarrow> (\<exists>vs. dget versions k = Some vs \<and> n \<in> set (numbers vs)))"

definition one_active :: "(string, prompt_release) dict \<Rightarrow> bool" where
  "one_active rs \<longleftrightarrow>
     (\<forall>i j r q. dget rs i = Some r \<longrightarrow> dget rs j = Some q \<longrightarrow>
        is_active_release r \<longrightarrow> is_active_release q \<longrightarrow> i = j)"

definition versions_match :: "(string \<Rightarrow> int list) \<Rightarrow> prompts \<Rightarrow> bool" where
  "versions_match f s \<longleftrightarrow>
     (\<forall>k vs. dget (pm_versions s) k = Some vs \<longrightarrow> active_versions vs = f k)"

definition tables_ok :: "(string \<Rightarrow> string) \<Rightarrow> prompts \<Rightarrow> bool" where
  "tables_ok sha s \<longleftrightarrow>
     wf_dict (pm_definitions s) \<and> wf_dict (pm_versions s) \<and> wf_dict (pm_releases s) \<and>
     fst ` set (pm_versions s) = fst ` set (pm_definitions s) \<and>
     (\<forall>k vs. dget (pm_versions s) k = Some vs \<longrightarrow> versions_ok sha vs) \<and>
     (\<forall>i r. dget (pm_releases s) i = Some r \<longrightarrow> items_stored (pm_versions s) (pr_items r)) \<and>
     one_active (pm_releases s)"

text \<open>
  The deployment is consistent: the versions marked active are the ones the active release names;
  before the first release there are no prompts.
\<close>

definition deployment_ok :: "prompts \<Rightarrow> bool" where
  "deployment_ok s \<longleftrightarrow>
     (case get_active_prompt_release s of
        None \<Rightarrow> pm_definitions s = []
      | Some r \<Rightarrow> versions_match (item_of (pr_items r)) s)"

text \<open>Keys with versions and prompts with a definition are the same.\<close>

lemma dget_None_iff: "dget d k = None \<longleftrightarrow> k \<notin> fst ` set d"
  by (rule map_of_eq_None_iff)

lemma versions_iff: "tables_ok sha s \<Longrightarrow> dget (pm_versions s) k = None \<longleftrightarrow> dget (pm_definitions s) k = None"
  by (simp add: tables_ok_def dget_None_iff)

lemma one_active_length: "wf_dict rs \<Longrightarrow> one_active rs \<Longrightarrow> length (filter is_active_release (dvalues rs)) \<le> 1"
  by (rule unique_length) (auto simp: one_active_def)

lemma get_active_Some:
  assumes "wf_dict (pm_releases s)" "one_active (pm_releases s)"
  shows "get_active_prompt_release s = Some r \<longleftrightarrow>
    (\<exists>i. dget (pm_releases s) i = Some r \<and> is_active_release r)" (is "?l \<longleftrightarrow> ?r")
proof
  assume ?l
  then obtain i where "dfind is_active_release (pm_releases s) = Some (i, r)"
    by (auto simp: get_active_prompt_release_def find_dvalues)
  with assms show ?r using dfind_dget dfind_SomeD by metis
next
  assume ?r
  then obtain i where i: "dget (pm_releases s) i = Some r" "is_active_release r" by blast
  then have "r \<in> set (dvalues (pm_releases s))"
    by (metis image_eqI map_of_SomeD set_map snd_conv)
  with i(2) have "dfind is_active_release (pm_releases s) \<noteq> None" unfolding dfind_None by blast
  then obtain j q where q: "dfind is_active_release (pm_releases s) = Some (j, q)" by auto
  then have "dget (pm_releases s) j = Some q" "is_active_release q"
    using assms dfind_dget dfind_SomeD by metis+
  with i assms(2) have "r = q" unfolding one_active_def by (metis option.inject)
  with q show ?l by (simp add: get_active_prompt_release_def find_dvalues)
qed

lemma get_active_None:
  "get_active_prompt_release s = None \<longleftrightarrow>
     (\<forall>i r. dget (pm_releases s) i = Some r \<longrightarrow> \<not> is_active_release r)"
  if "wf_dict (pm_releases s)"
proof -
  have "get_active_prompt_release s = None \<longleftrightarrow> (\<forall>r \<in> set (dvalues (pm_releases s)). \<not> is_active_release r)"
    by (simp add: get_active_prompt_release_def find_dvalues dfind_None)
  also have "\<dots> \<longleftrightarrow> (\<forall>i r. (i, r) \<in> set (pm_releases s) \<longrightarrow> \<not> is_active_release r)" by auto
  finally show ?thesis using that by simp
qed

text \<open>A prompt whose versions no release names is not deployed.\<close>

lemma item_of_undefined:
  assumes "tables_ok sha s" "get_active_prompt_release s = Some r" "dget (pm_versions s) k = None"
  shows "item_of (pr_items r) k = []"
proof -
  from assms(1,2) obtain i where "dget (pm_releases s) i = Some r"
    using get_active_Some [of s r] by (auto simp: tables_ok_def)
  with assms(1) have "items_stored (pm_versions s) (pr_items r)" by (auto simp: tables_ok_def)
  with assms(3) have "dget (pr_items r) k = None"
    unfolding items_stored_def by (metis not_None_eq option.distinct(1))
  then show ?thesis by (simp add: item_of_def)
qed

text \<open>Replacing the versions of a prompt by a list that still has the old numbers.\<close>

lemma items_stored_put:
  assumes "items_stored versions items"
    and "\<And>vs. dget versions key = Some vs \<Longrightarrow> set (numbers vs) \<subseteq> set (numbers ws)"
  shows "items_stored (dset key ws versions) items"
  unfolding items_stored_def
proof (intro conjI allI impI)
  show "wf_dict items" using assms(1) by (simp add: items_stored_def)
  fix k n
  assume "dget items k = Some n"
  with assms(1) obtain vs where "dget versions k = Some vs" "n \<in> set (numbers vs)"
    unfolding items_stored_def by blast
  with assms(2) show "\<exists>vs. dget (dset key ws versions) k = Some vs \<and> n \<in> set (numbers vs)"
    by (cases "k = key") (auto simp: dget_dset)
qed

lemma keys_dset: "fst ` set (dset k v d) = insert k (fst ` set d)"
  by (induction d) auto

lemma tables_put:
  assumes "tables_ok sha s" "dget (pm_versions s) key = Some vs" "versions_ok sha ws"
    "set (numbers vs) \<subseteq> set (numbers ws)"
  shows "tables_ok sha (put_versions key ws s)"
proof -
  have "key \<in> fst ` set (pm_versions s)" using assms(2) by (metis dget_None_iff option.distinct(1))
  moreover have "items_stored (dset key ws (pm_versions s)) items"
    if "items_stored (pm_versions s) items" for items
    using that assms(2,4) by (intro items_stored_put) auto
  ultimately show ?thesis
    using assms(1,3) unfolding tables_ok_def put_versions_def
    by (simp add: dget_dset keys_dset insert_absorb)
qed

lemma match_put:
  "versions_match f s \<Longrightarrow> active_versions ws = f key \<Longrightarrow> versions_match f (put_versions key ws s)"
  by (simp add: versions_match_def put_versions_def dget_dset)

lemma active_put [simp]:
  "get_active_prompt_release (put_versions key ws s) = get_active_prompt_release s"
  by (simp add: get_active_prompt_release_def put_versions_def)

text \<open>The two together: the change of one version list that keeps what is deployed.\<close>

definition prompts_ok :: "(string \<Rightarrow> string) \<Rightarrow> prompts \<Rightarrow> bool" where
  "prompts_ok sha s \<longleftrightarrow> tables_ok sha s \<and> deployment_ok s"

lemma prompts_put:
  assumes "prompts_ok sha s" "dget (pm_versions s) key = Some vs" "versions_ok sha ws"
    "set (numbers vs) \<subseteq> set (numbers ws)" "active_versions ws = active_versions vs"
  shows "prompts_ok sha (put_versions key ws s)"
  using assms tables_put [OF _ assms(2-4)]
  by (auto simp: prompts_ok_def deployment_ok_def versions_match_def put_versions_def dget_dset
      get_active_prompt_release_def split: option.splits)

lemma prompt_versions_Some:
  "prompts_ok sha s \<Longrightarrow> find P (prompt_versions s key) = Some v \<Longrightarrow>
     dget (pm_versions s) key = Some (prompt_versions s key) \<and> versions_ok sha (prompt_versions s key)"
  by (auto simp: prompts_ok_def tables_ok_def prompt_versions_def split: option.splits)

lemma append_keeps:
  assumes "versions_ok sha vs" "max_version vs = Inr m" "pv_version v = m + 1"
    "has_status ''draft'' v \<or> has_status ''scheduled'' v \<and> scheduled_versions vs = []"
    "sha (pv_content v) = pv_content_sha256 v"
  shows "versions_ok sha (vs @ [v])" "active_versions (vs @ [v]) = active_versions vs"
proof -
  show "versions_ok sha (vs @ [v])"
    using assms fresh_max [OF assms(2)] by (intro versions_ok_append) (auto simp: status_unique)
  show "active_versions (vs @ [v]) = active_versions vs"
    using assms(4) by (auto simp: status_unique)
qed

lemma prompts_append:
  assumes "prompts_ok sha s" "dget (pm_versions s) key = Some vs" "max_version vs = Inr m"
    "pv_version v = m + 1" "has_status ''draft'' v \<or> has_status ''scheduled'' v \<and> scheduled_versions vs = []"
    "sha (pv_content v) = pv_content_sha256 v"
  shows "prompts_ok sha (put_versions key (vs @ [v]) s)"
proof -
  have "versions_ok sha vs" using assms(1,2) by (simp add: prompts_ok_def tables_ok_def)
  from append_keeps [OF this assms(3-6)] show ?thesis
    by (intro prompts_put [OF assms(1,2)]) auto
qed

lemma draft_version_simps [simp]:
  "has_status ''draft'' (draft_version sha c n b m a at)"
  "pv_version (draft_version sha c n b m a at) = m"
  "sha (pv_content (draft_version sha c n b m a at)) = pv_content_sha256 (draft_version sha c n b m a at)"
  by (simp_all add: draft_version_def has_status_def)

text \<open>Every operation on one prompt keeps the invariant, whether it succeeds or raises.\<close>

lemma draft_ok:
  "prompts_ok sha s \<Longrightarrow> prompts_ok sha (snd (create_prompt_draft sha key content note based actor at s))"
  by (auto simp: create_prompt_draft_def Let_def split: option.split sum.split intro: prompts_append)

lemma restore_ok:
  "prompts_ok sha s \<Longrightarrow> prompts_ok sha (snd (restore_prompt_version sha key n actor at s))"
  by (auto simp: restore_prompt_version_def draft_ok split: option.split)

lemma schedule_ok:
  assumes "prompts_ok sha s"
  shows "prompts_ok sha (snd (schedule_prompt_version key n actor at s))"
proof (cases "find (has_version n) (prompt_versions s (strip key))")
  case (Some v)
  note vs = prompt_versions_Some [OF assms Some]
  show ?thesis
    using scheduled_update [OF conjunct2 [OF vs] Some] assms prompts_put [OF assms conjunct1 [OF vs]]
    by (auto simp: schedule_prompt_version_def Let_def Some)
qed (simp add: schedule_prompt_version_def Let_def assms)

lemma unschedule_ok:
  assumes "prompts_ok sha s"
  shows "prompts_ok sha (snd (unschedule_prompt_version key n s))"
proof (cases "find (has_version n) (prompt_versions s (strip key))")
  case (Some v)
  note vs = prompt_versions_Some [OF assms Some]
  show ?thesis
    using drafted_update [OF conjunct2 [OF vs] Some] assms prompts_put [OF assms conjunct1 [OF vs]]
    by (auto simp: unschedule_prompt_version_def Let_def Some)
qed (simp add: unschedule_prompt_version_def Let_def assms)

text \<open>Changing the definitions but not their keys.\<close>

lemma key_in: "dget d k = Some v \<Longrightarrow> k \<in> fst ` set d"
  by (metis dget_None_iff option.distinct(1))

lemma tables_definition:
  "tables_ok sha s \<Longrightarrow> dget (pm_definitions s) key = Some d \<Longrightarrow>
     tables_ok sha (s\<lparr>pm_definitions := dset key d' (pm_definitions s)\<rparr>)"
  using key_in [of "pm_definitions s" key d]
  by (simp add: tables_ok_def keys_dset insert_absorb)

lemma active_definitions [simp]:
  "get_active_prompt_release (s\<lparr>pm_definitions := ds\<rparr>) = get_active_prompt_release s"
  "get_active_prompt_release (s\<lparr>pm_versions := ws\<rparr>) = get_active_prompt_release s"
  by (simp_all add: get_active_prompt_release_def)

text \<open>One entry of the catalog; \<open>f\<close> says which versions are to be active.\<close>

lemma max_version_Inr: "vs \<noteq> [] \<Longrightarrow> \<exists>n. max_version vs = Inr n"
  by (simp add: max_version_def)

lemma restored_simps [simp]:
  "pv_version (restored_version sha c m actor at vs) = m"
  "has_status ''scheduled'' (restored_version sha c m actor at vs)"
  "sha (pv_content (restored_version sha c m actor at vs)) =
     pv_content_sha256 (restored_version sha c m actor at vs)"
  by (simp_all add: restored_version_def has_status_def Let_def)

lemma seed_simps [simp]:
  "versions_ok sha [seed_version sha has_active c actor at]"
  "has_status st (seed_version sha has_active c actor at) =
     (st = (if has_active then ''scheduled'' else ''active''))"
  "pv_version (seed_version sha has_active c actor at) = 1"
  by (auto simp: seed_version_def versions_ok_def has_status_def)

lemma entry_ok:
  assumes "tables_ok sha s" "versions_match f s"
    and "dget (pm_definitions s) key = None \<Longrightarrow> f key = (if has_active then [] else [1])"
  obtains p s' where "sync_entry sha has_active ks actor at key e s = (Inr p, s')"
    "tables_ok sha s'" "versions_match f s'" "pm_releases s' = pm_releases s"
    "fst ` set (pm_definitions s') = insert key (fst ` set (pm_definitions s))"
proof (cases "dget (pm_definitions s) key")
  case None
  let ?v = "seed_version sha has_active (ostr (ct_content e)) actor at"
  let ?s = "s\<lparr> pm_definitions := dset key (new_definition key e at) (pm_definitions s),
    pm_versions := dset key [?v] (pm_versions s) \<rparr>"
  have "dget (pm_versions s) key = None" using versions_iff [OF assms(1)] None by simp
  then have "items_stored (dset key [?v] (pm_versions s)) items"
    if "items_stored (pm_versions s) items" for items
    using that by (intro items_stored_put) simp_all
  with assms(1) have "tables_ok sha ?s"
    by (simp add: tables_ok_def keys_dset dget_dset)
  moreover have "versions_match f ?s"
    using assms(2,3) None by (simp add: versions_match_def dget_dset)
  ultimately show thesis
    by (intro that [of "([key], [])" ?s]) (simp_all add: sync_entry_def None keys_dset Let_def)
next
  case (Some d)
  let ?s = "s\<lparr>pm_definitions := dset key (described key e at d) (pm_definitions s)\<rparr>"
  have keys: "fst ` set (pm_definitions ?s) = insert key (fst ` set (pm_definitions s))"
    by (simp add: keys_dset)
  have t: "tables_ok sha ?s" using tables_definition [OF assms(1) Some] .
  have m: "versions_match f ?s" using assms(2) by (simp add: versions_match_def)
  obtain vs where vs: "dget (pm_versions s) key = Some vs"
    using versions_iff [OF assms(1)] Some by fastforce
  then have ok: "versions_ok sha vs" using assms(1) by (simp add: tables_ok_def)
  then obtain n where n: "max_version vs = Inr n" using max_version_Inr by (auto simp: versions_ok_def)
  let ?v = "restored_version sha (ostr (ct_content e)) (n + 1) actor at vs"
  let ?w = "put_versions key (vs @ [?v]) ?s"
  have r: "tables_ok sha ?w" "versions_match f ?w" if "scheduled_versions vs = []"
  proof -
    have a: "versions_ok sha (vs @ [?v])" "active_versions (vs @ [?v]) = active_versions vs"
      using append_keeps [OF ok n] that by simp_all
    then show "tables_ok sha ?w" using t vs by (intro tables_put) auto
    have "active_versions vs = f key" using assms(2) vs by (simp add: versions_match_def)
    with m a show "versions_match f ?w" by (intro match_put) auto
  qed
  show thesis
  proof (cases "is_current d \<or> key \<in> ks \<or> scheduled_versions vs \<noteq> []")
    case True
    then show thesis
      using t m keys vs Some
      by (intro that [of "([], if is_current d then [] else [key])" ?s])
        (auto simp: sync_entry_def Let_def find_status_None [symmetric])
  next
    case False
    then show thesis
      using r keys vs Some n
      by (intro that [of "([], [key])" ?w])
        (auto simp: sync_entry_def Let_def put_versions_def find_status_None)
  qed
qed

lemma entries_ok:
  assumes "tables_ok sha s" "versions_match f s"
    and "\<And>k s'. tables_ok sha s' \<Longrightarrow> pm_releases s' = pm_releases s \<Longrightarrow> dget (pm_definitions s') k = None \<Longrightarrow>
           f k = (if has_active then [] else [1])"
  shows "\<exists>p s'. sync_entries sha has_active ks actor at es s = (Inr p, s') \<and>
    tables_ok sha s' \<and> versions_match f s' \<and> pm_releases s' = pm_releases s \<and>
    fst ` set (pm_definitions s') = fst ` set es \<union> fst ` set (pm_definitions s)"
  using assms
proof (induction es arbitrary: s)
  case (Cons x es)
  obtain key e where x: "x = (key, e)" by (cases x)
  obtain p s' where s': "sync_entry sha has_active ks actor at key e s = (Inr p, s')"
    "tables_ok sha s'" "versions_match f s'" "pm_releases s' = pm_releases s"
    "fst ` set (pm_definitions s') = insert key (fst ` set (pm_definitions s))"
    using entry_ok [OF Cons.prems(1,2)] Cons.prems(3) [OF Cons.prems(1) refl] by metis
  obtain q s'' where "sync_entries sha has_active ks actor at es s' = (Inr q, s'')"
    "tables_ok sha s''" "versions_match f s''" "pm_releases s'' = pm_releases s'"
    "fst ` set (pm_definitions s'') = fst ` set es \<union> fst ` set (pm_definitions s')"
    using Cons.IH [OF s'(2,3)] Cons.prems(3) s'(4) by metis
  with s' show ?case by (cases p; cases q) (auto simp: x)
qed simp

lemma releases_put [simp]: "pm_releases (put_versions key ws s) = pm_releases s"
  by (simp add: put_versions_def)

lemma retire_keeps:
  assumes "tables_ok sha s" "versions_match f s"
  shows "tables_ok sha (retire_prompt at key s) \<and> versions_match f (retire_prompt at key s) \<and>
    pm_releases (retire_prompt at key s) = pm_releases s"
proof (cases "dget (pm_definitions s) key")
  case None
  with versions_iff [OF assms(1)] have "dget (pm_versions s) key = None" by simp
  with None assms show ?thesis by (simp add: retire_prompt_def)
next
  case (Some d)
  define s1 where "s1 = s\<lparr>pm_definitions := dset key (d\<lparr>pd_retired_at := Some at, pd_updated_at := at\<rparr>) (pm_definitions s)\<rparr>"
  obtain vs where vs: "dget (pm_versions s) key = Some vs"
    using versions_iff [OF assms(1)] Some by fastforce
  then have *: "retire_prompt at key s = put_versions key (demote_scheduled vs) s1"
    by (simp add: retire_prompt_def put_versions_def Some s1_def)
  have "versions_ok sha vs" "active_versions vs = f key"
    using assms vs by (simp_all add: tables_ok_def versions_match_def)
  moreover have "tables_ok sha s1" unfolding s1_def using tables_definition [OF assms(1) Some] .
  moreover have "versions_match f s1" using assms(2) by (simp add: versions_match_def s1_def)
  moreover have "dget (pm_versions s1) key = Some vs" "pm_releases s1 = pm_releases s"
    using vs by (simp_all add: s1_def)
  ultimately show ?thesis unfolding * by (auto intro: tables_put match_put)
qed

lemma retire_all:
  "tables_ok sha s \<Longrightarrow> versions_match f s \<Longrightarrow>
     tables_ok sha (fold (retire_prompt at) ks s) \<and> versions_match f (fold (retire_prompt at) ks s) \<and>
     pm_releases (fold (retire_prompt at) ks s) = pm_releases s"
proof (induction ks arbitrary: s)
  case (Cons k ks)
  from retire_keeps [OF Cons.prems] Cons.IH [of "retire_prompt at k s"] show ?case by simp
qed simp

lemma normalize_wf: "normalize_catalog es acc = Inr c \<Longrightarrow> wf_dict acc \<Longrightarrow> wf_dict c"
  by (induction es acc rule: normalize_catalog.induct) (auto simp: Let_def split: if_splits)

lemma active_releases:
  "pm_releases s' = pm_releases s \<Longrightarrow> get_active_prompt_release s' = get_active_prompt_release s"
  by (simp add: get_active_prompt_release_def)

lemma dget_pairs: "dget (map (\<lambda>k. (k, v)) ks) k = (if k \<in> set ks then Some v else None)"
  by (induction ks) auto

text \<open>A catalog on an empty table deploys version 1 of everything.\<close>

lemma initial_ok:
  assumes "tables_ok sha s" "versions_match (\<lambda>_. [1]) s" "get_active_prompt_release s = None"
    "fst ` set (pm_definitions s) = set keys" "distinct keys"
  shows "prompts_ok sha (s\<lparr>pm_releases := dset i (initial_release j keys at) (pm_releases s)\<rparr>)"
    (is "prompts_ok sha ?s")
proof -
  have wf: "wf_dict (pm_releases s)" using assms(1) by (simp add: tables_ok_def)
  have none: "\<not> is_active_release r" if "dget (pm_releases s) k = Some r" for k r
    using assms(3) that unfolding get_active_None [OF wf] by blast
  have stored: "items_stored (pm_versions s) (map (\<lambda>k. (k, 1)) (sort keys))"
    unfolding items_stored_def
  proof (intro conjI allI impI)
    show "wf_dict (map (\<lambda>k. (k, 1)) (sort keys))" using assms(5) by (simp add: comp_def)
    fix k n
    assume "dget (map (\<lambda>k. (k, 1 :: int)) (sort keys)) k = Some n"
    then have k: "k \<in> set keys" "n = 1" by (auto simp: dget_pairs split: if_splits)
    then have "dget (pm_versions s) k \<noteq> None"
      using versions_iff [OF assms(1)] assms(4) dget_None_iff by metis
    then obtain vs where vs: "dget (pm_versions s) k = Some vs" by auto
    with assms(2) have "active_versions vs = [1]" by (simp add: versions_match_def)
    then have "1 \<in> set (active_versions vs)" by simp
    then have "1 \<in> set (numbers vs)" by (auto simp: active_versions_def numbers_def)
    with vs k show "\<exists>vs. dget (pm_versions s) k = Some vs \<and> n \<in> set (numbers vs)" by blast
  qed
  have "one_active (dset i (initial_release j keys at) (pm_releases s))"
    using none unfolding one_active_def dget_dset by (metis option.inject)
  moreover have "items_stored (pm_versions s) (pr_items r)"
    if "dget (dset i (initial_release j keys at) (pm_releases s)) k = Some r" for k r
    using that stored assms(1)
    by (cases "k = i") (auto simp: dget_dset initial_release_def tables_ok_def)
  ultimately have tables: "tables_ok sha ?s" using assms(1) unfolding tables_ok_def by simp
  then have "get_active_prompt_release ?s = Some (initial_release j keys at)"
    by (subst get_active_Some) (auto simp: tables_ok_def dget_dset is_active_release_def initial_release_def)
  moreover have "versions_match (item_of (map (\<lambda>k. (k, 1)) (sort keys))) ?s"
    unfolding versions_match_def
  proof (intro allI impI)
    fix k vs
    assume "dget (pm_versions ?s) k = Some vs"
    then have vs: "dget (pm_versions s) k = Some vs" by simp
    then have "k \<in> set keys" using versions_iff [OF assms(1)] assms(4) dget_None_iff by (metis option.distinct(1))
    with vs assms(2) show "active_versions vs = item_of (map (\<lambda>k. (k, 1)) (sort keys)) k"
      by (simp add: versions_match_def item_of_def dget_pairs)
  qed
  ultimately show ?thesis using tables
    by (simp add: prompts_ok_def deployment_ok_def initial_release_def)
qed

lemma catalog_ok:
  assumes "prompts_ok sha s"
  shows "prompts_ok sha (snd (sync_prompt_catalog sha uuid es actor at s))"
proof (cases "normalize_catalog es []")
  case (Inl e)
  with assms show ?thesis by (simp add: sync_prompt_catalog_def)
next
  case (Inr c)
  have t: "tables_ok sha s" using assms by (simp add: prompts_ok_def)
  have c: "wf_dict c" using normalize_wf [OF Inr] by simp
  show ?thesis
  proof (cases "get_active_prompt_release s")
    case (Some r)
    then have m: "versions_match (item_of (pr_items r)) s"
      using assms by (simp add: prompts_ok_def deployment_ok_def)
    have "item_of (pr_items r) k = []"
      if "tables_ok sha s'" "pm_releases s' = pm_releases s" "dget (pm_definitions s') k = None" for k s'
      using item_of_undefined [OF that(1)] active_releases [OF that(2)] Some
        versions_iff [OF that(1)] that(3) by metis
    then obtain p s1 where s1: "sync_entries sha True (set (map fst (active_items s))) actor at c s = (Inr p, s1)"
      "tables_ok sha s1" "versions_match (item_of (pr_items r)) s1" "pm_releases s1 = pm_releases s"
      using entries_ok [OF t m, of True "set (map fst (active_items s))" actor at c] by auto
    define ks where "ks = sort (map fst (filter (\<lambda>(k, d). k \<notin> set (map fst c) \<and> is_current d) (pm_definitions s1)))"
    have "snd (sync_prompt_catalog sha uuid es actor at s) = fold (retire_prompt at) ks s1"
      using s1(1) by (cases p) (simp add: sync_prompt_catalog_def Inr Some Let_def ks_def)
    with retire_all [OF s1(2,3), of at ks] active_releases [of "fold (retire_prompt at) ks s1" s] s1(4) Some
    show ?thesis by (simp add: prompts_ok_def deployment_ok_def)
  next
    case None
    then have d: "pm_definitions s = []" using assms by (simp add: prompts_ok_def deployment_ok_def)
    then have "versions_match (\<lambda>_. [1]) s"
      using t by (auto simp: versions_match_def tables_ok_def)
    from entries_ok [OF t this, of False "set (map fst (active_items s))" actor at c]
    obtain p s1 where s1: "sync_entries sha False (set (map fst (active_items s))) actor at c s = (Inr p, s1)"
      "tables_ok sha s1" "versions_match (\<lambda>_. [1]) s1" "pm_releases s1 = pm_releases s"
      "fst ` set (pm_definitions s1) = fst ` set c"
      using d by auto
    have "filter (\<lambda>(k, d). k \<notin> set (map fst c) \<and> is_current d) (pm_definitions s1) = []"
      using s1(5) by (force simp: filter_empty_conv)
    then have *: "snd (sync_prompt_catalog sha uuid es actor at s) =
        (if c = [] then s1
         else s1\<lparr>pm_releases := dset (''pr-'' @ uuid) (initial_release (''pr-'' @ uuid) (map fst c) at)
                                (pm_releases s1)\<rparr>)"
      using s1(1) by (cases p; cases "c = []") (simp_all add: sync_prompt_catalog_def Inr None Let_def)
    have none: "get_active_prompt_release s1 = None" using active_releases [OF s1(4)] None by simp
    show ?thesis
    proof (cases "c = []")
      case True
      then have "pm_definitions s1 = []" using s1(5) by auto
      with * True none s1(2) show ?thesis by (simp add: prompts_ok_def deployment_ok_def)
    next
      case False
      with * initial_ok [OF s1(2,3) none, of "map fst c"] s1(5) c show ?thesis by simp
    qed
  qed
qed

subsection \<open>Releases\<close>

text \<open>Two tables with the same active rows have the same active release.\<close>

lemma get_active_cong:
  assumes "wf_dict (pm_releases s)" "one_active (pm_releases s)"
    "wf_dict (pm_releases s')" "one_active (pm_releases s')"
    and "\<And>r. (\<exists>i. dget (pm_releases s') i = Some r \<and> is_active_release r) \<longleftrightarrow>
             (\<exists>i. dget (pm_releases s) i = Some r \<and> is_active_release r)"
  shows "get_active_prompt_release s' = get_active_prompt_release s"
proof -
  have "get_active_prompt_release s' = Some r \<longleftrightarrow> get_active_prompt_release s = Some r" for r
    using get_active_Some [OF assms(1,2)] get_active_Some [OF assms(3,4)] assms(5) by metis
  then show ?thesis by (metis not_None_eq)
qed

text \<open>A release stored without becoming active, over one that is not active.\<close>

lemma release_put:
  assumes "prompts_ok sha s" "\<not> is_active_release r" "items_stored (pm_versions s) (pr_items r)"
    "\<And>q. dget (pm_releases s) i = Some q \<Longrightarrow> \<not> is_active_release q"
  shows "prompts_ok sha (s\<lparr>pm_releases := dset i r (pm_releases s)\<rparr>)" (is "prompts_ok sha ?s")
proof -
  have t: "tables_ok sha s" using assms(1) by (simp add: prompts_ok_def)
  have rows: "(dget (dset i r (pm_releases s)) j = Some q \<and> is_active_release q) \<longleftrightarrow>
      (dget (pm_releases s) j = Some q \<and> is_active_release q)" for j q
    using assms(2,4) by (auto simp: dget_dset)
  have "one_active (dset i r (pm_releases s))"
    using t rows unfolding tables_ok_def one_active_def by blast
  moreover have "items_stored (pm_versions s) (pr_items q)"
    if "dget (dset i r (pm_releases s)) j = Some q" for j q
    using that t assms(3) by (cases "j = i") (auto simp: dget_dset tables_ok_def)
  ultimately have t': "tables_ok sha ?s" using t unfolding tables_ok_def by simp
  have "get_active_prompt_release ?s = get_active_prompt_release s"
    using t t' rows by (intro get_active_cong) (auto simp: tables_ok_def)
  with t' assms(1) show ?thesis
    by (simp add: prompts_ok_def deployment_ok_def versions_match_def split: option.splits)
qed

lemma fail_ok:
  assumes "prompts_ok sha s"
  shows "prompts_ok sha (snd (fail_prompt_release i reason s))"
proof (cases "dget (pm_releases s) (strip i)")
  case (Some r)
  then have "items_stored (pm_versions s) (pr_items r)"
    using assms by (simp add: prompts_ok_def tables_ok_def)
  with Some assms show ?thesis
    by (auto simp: fail_prompt_release_def Let_def is_active_release_def intro!: release_put)
qed (simp add: fail_prompt_release_def assms)

lemma candidates_failed:
  assumes "prompts_ok sha s"
  shows "prompts_ok sha (s\<lparr>pm_releases := supersede_candidates (pm_releases s)\<rparr>)" (is "prompts_ok sha ?s")
proof -
  have t: "tables_ok sha s" using assms by (simp add: prompts_ok_def)
  define f where "f r = (if pr_status r = ''candidate'' then r\<lparr>pr_status := ''failed'',
    pr_failure_reason := Some ''Superseded by a newer deployment candidate''\<rparr> else r)" for r :: prompt_release
  have f: "pr_items (f r) = pr_items r" "is_active_release (f r) = is_active_release r"
    "is_active_release (f r) \<Longrightarrow> f r = r" for r
    by (auto simp: is_active_release_def f_def)
  have rows: "dget (supersede_candidates (pm_releases s)) j = map_option f (dget (pm_releases s) j)" for j
    by (simp add: supersede_candidates_def dget_dupdate_where f_def [abs_def])
  have old: "\<exists>p. dget (pm_releases s) j = Some p \<and> q = f p"
    if "dget (supersede_candidates (pm_releases s)) j = Some q" for j q
    using that unfolding rows by auto
  have new: "dget (supersede_candidates (pm_releases s)) j = Some p"
    if "dget (pm_releases s) j = Some p" "is_active_release p" for j p
    using that f(2,3) [of p] by (simp add: rows)
  have one: "one_active (supersede_candidates (pm_releases s))"
    unfolding one_active_def
  proof (intro allI impI)
    fix i j r q
    assume a: "dget (supersede_candidates (pm_releases s)) i = Some r"
      "dget (supersede_candidates (pm_releases s)) j = Some q" "is_active_release r" "is_active_release q"
    obtain p p' where "dget (pm_releases s) i = Some p" "r = f p" "dget (pm_releases s) j = Some p'" "q = f p'"
      using old [OF a(1)] old [OF a(2)] by blast
    with a(3,4) f(2) t show "i = j" unfolding tables_ok_def one_active_def by metis
  qed
  have "items_stored (pm_versions s) (pr_items q)"
    if q: "dget (supersede_candidates (pm_releases s)) j = Some q" for j q
    using old [OF q] t f(1) unfolding tables_ok_def by auto
  with one t have t': "tables_ok sha ?s"
    unfolding tables_ok_def by (simp add: supersede_candidates_def)
  have "get_active_prompt_release ?s = get_active_prompt_release s"
  proof (rule get_active_cong)
    show "(\<exists>i. dget (pm_releases ?s) i = Some r \<and> is_active_release r) \<longleftrightarrow>
        (\<exists>i. dget (pm_releases s) i = Some r \<and> is_active_release r)" for r
      using old new f(2,3) by fastforce
  qed (use t t' in \<open>auto simp: tables_ok_def\<close>)
  with t' assms show ?thesis
    by (simp add: prompts_ok_def deployment_ok_def versions_match_def split: option.splits)
qed

lemma release_items_spec:
  assumes "release_items scheduled deployed ks = Inr items" "distinct ks"
    "\<And>k v. scheduled k = Some v \<Longrightarrow> \<exists>vs. dget versions k = Some vs \<and> pv_version v \<in> set (numbers vs)"
    "items_stored versions deployed"
  shows "items_stored versions items \<and> map fst items = ks"
  using assms(1,2)
proof (induction ks arbitrary: items)
  case (Cons k ks)
  then obtain n rest where r: "release_items scheduled deployed ks = Inr rest" "items = (k, n) # rest"
    "(case scheduled k of Some v \<Rightarrow> Some (pv_version v) | None \<Rightarrow> dget deployed k) = Some n"
    by (auto split: option.splits) (cases "release_items scheduled deployed ks"; force)+
  with Cons have "items_stored versions rest" "map fst rest = ks" by auto
  moreover have "\<exists>vs. dget versions k = Some vs \<and> n \<in> set (numbers vs)"
    using r(3) assms(3,4) by (cases "scheduled k") (auto simp: items_stored_def)
  ultimately show ?case using Cons.prems(2) by (auto simp: r(2) items_stored_def)
qed (simp add: items_stored_def)

lemma prepare_ok:
  assumes "prompts_ok sha s" "dget (pm_releases s) (''pr-'' @ uuid) = None"
  shows "prompts_ok sha (snd (prepare_prompt_release uuid build_ref at s))"
proof -
  let ?sched = "\<lambda>k. find (has_status ''scheduled'') (prompt_versions s k)"
  let ?s = "s\<lparr>pm_releases := supersede_candidates (pm_releases s)\<rparr>"
  have t: "tables_ok sha s" using assms(1) by (simp add: prompts_ok_def)
  have deployed: "items_stored (pm_versions s) (active_items s)"
  proof (cases "get_active_prompt_release s")
    case None
    then show ?thesis by (simp add: active_items_def items_stored_def)
  next
    case (Some r)
    then have "\<exists>i. dget (pm_releases s) i = Some r"
      using t get_active_Some [of s r] by (auto simp: tables_ok_def)
    with t Some show ?thesis by (auto simp: tables_ok_def active_items_def)
  qed
  have sched: "\<exists>vs. dget (pm_versions s) k = Some vs \<and> pv_version v \<in> set (numbers vs)"
    if "?sched k = Some v" for k v
    using that prompt_versions_Some [OF assms(1) that]
    by (auto simp: find_Some_iff numbers_def)
  show ?thesis
  proof (cases "release_items ?sched (active_items s) (sort (current_keys s))")
    case (Inl e)
    with assms(1) show ?thesis by (auto simp: prepare_prompt_release_def Let_def split: option.splits)
  next
    case (Inr items)
    have "distinct (current_keys s)"
      using t by (auto simp: current_keys_def tables_ok_def distinct_map intro: inj_on_subset)
    then have "items_stored (pm_versions s) items"
      using release_items_spec [OF Inr _ sched deployed] by simp
    moreover have "dget (pm_releases ?s) (''pr-'' @ uuid) = None"
      using assms(2) by (simp add: supersede_candidates_def dget_dupdate_where)
    moreover have "snd (prepare_prompt_release uuid build_ref at s) = s \<or>
        snd (prepare_prompt_release uuid build_ref at s) =
          ?s\<lparr>pm_releases := dset (''pr-'' @ uuid) (candidate_release (''pr-'' @ uuid) build_ref at items s)
                               (pm_releases ?s)\<rparr>"
      by (simp add: prepare_prompt_release_def Let_def Inr split: option.split)
    moreover have "\<not> is_active_release (candidate_release i build_ref at items s)"
      "pr_items (candidate_release i build_ref at items s) = items" for i
      by (simp_all add: candidate_release_def is_active_release_def)
    ultimately show ?thesis
      using release_put [OF candidates_failed [OF assms(1)]] assms(1) by force
  qed
qed


text \<open>
  Deploying: every version list is replaced by one with the same numbers in which the released
  version alone is active, and the release becomes the only active one.
\<close>

lemma deploy_ok:
  assumes "tables_ok sha s" "items_stored (pm_versions s) (pr_items r)" "is_active_release r"
    and versions: "wf_dict versions" "fst ` set versions = fst ` set (pm_versions s)"
      "\<And>k. dget versions k = map_option (g k) (dget (pm_versions s) k)"
    and g: "\<And>k vs. dget (pm_versions s) k = Some vs \<Longrightarrow> versions_ok sha (g k vs) \<and> numbers (g k vs) = numbers vs \<and>
      active_versions (g k vs) = item_of (pr_items r) k"
  shows "prompts_ok sha (s\<lparr>pm_releases := dset i r (supersede_releases (pm_releases s)), pm_versions := versions\<rparr>)"
    (is "prompts_ok sha ?s")
proof -
  have inactive: "\<not> is_active_release q" if "dget (supersede_releases (pm_releases s)) j = Some q" for j q
  proof -
    from that obtain p where p: "q = (if is_active_release p then p\<lparr>pr_status := ''superseded''\<rparr> else p)"
      by (auto simp: supersede_releases_def dget_dupdate_where)
    then show ?thesis by (cases "is_active_release p") (simp_all add: is_active_release_def)
  qed
  have stored: "items_stored versions items" if i: "items_stored (pm_versions s) items" for items
    unfolding items_stored_def
  proof (intro conjI allI impI)
    show "wf_dict items" using i by (simp add: items_stored_def)
    fix k n
    assume "dget items k = Some n"
    with i obtain vs where "dget (pm_versions s) k = Some vs" "n \<in> set (numbers vs)"
      unfolding items_stored_def by blast
    with g [of k vs] show "\<exists>ws. dget versions k = Some ws \<and> n \<in> set (numbers ws)"
      by (simp add: versions(3))
  qed
  have changed: "versions_ok sha vs \<and> active_versions vs = item_of (pr_items r) k"
    if v: "dget versions k = Some vs" for k vs
  proof -
    obtain us where "dget (pm_versions s) k = Some us" "vs = g k us" using v unfolding versions(3) by auto
    with g show ?thesis by auto
  qed
  have items: "\<exists>p. dget (pm_releases s) j = Some p \<and> pr_items p = pr_items q"
    if "dget (supersede_releases (pm_releases s)) j = Some q" for j q
    using that by (auto simp: supersede_releases_def dget_dupdate_where)
  have "one_active (dset i r (supersede_releases (pm_releases s)))"
    using inactive unfolding one_active_def dget_dset by (metis option.inject)
  moreover have "items_stored versions (pr_items q)"
    if "dget (dset i r (supersede_releases (pm_releases s))) j = Some q" for j q
  proof (cases "j = i")
    case True
    with that stored [OF assms(2)] show ?thesis by (simp add: dget_dset)
  next
    case False
    with that items obtain p where "dget (pm_releases s) j = Some p" "pr_items p = pr_items q"
      by (auto simp: dget_dset)
    with stored assms(1) show ?thesis unfolding tables_ok_def by metis
  qed
  ultimately have t: "tables_ok sha ?s"
    using assms(1) versions(1,2) changed unfolding tables_ok_def by (simp add: supersede_releases_def)
  have "get_active_prompt_release ?s = Some r"
    using t assms(3) by (subst get_active_Some) (auto simp: tables_ok_def dget_dset)
  then show ?thesis using t changed by (simp add: prompts_ok_def deployment_ok_def versions_match_def)
qed

text \<open>The two loops that mark the released versions do the same to every list.\<close>

definition mark :: "string option \<Rightarrow> (string, int) dict \<Rightarrow> string \<Rightarrow> prompt_version list \<Rightarrow> prompt_version list" where
  "mark at items k vs =
     (case dget items k of None \<Rightarrow> vs | Some n \<Rightarrow> change n (activate_version at) vs)"

lemma mark_simps:
  "k \<noteq> key \<Longrightarrow> mark at ((key, n) # items) k = mark at items k"
  "mark at ((key, n) # items) key = change n (activate_version at)"
  "dget items k = None \<Longrightarrow> mark at items k = (\<lambda>vs. vs)"
  by (simp_all add: mark_def fun_eq_iff)

lemma activate_items_spec:
  "wf_dict items \<Longrightarrow> wf_dict versions \<Longrightarrow> fst ` set items \<subseteq> fst ` set versions \<Longrightarrow>
     activate_items at items versions = (e, ws) \<Longrightarrow>
     e = None \<and> wf_dict ws \<and> fst ` set ws = fst ` set versions \<and>
     (\<forall>k. dget ws k = map_option (mark (Some at) items k) (dget versions k))"
proof (induction items arbitrary: versions)
  case Nil
  then show ?case by (simp add: mark_simps option.map_ident)
next
  case (Cons x items)
  obtain key n where x: "x = (key, n)" by (cases x)
  with Cons.prems(3) have in_keys: "key \<in> fst ` set versions" by auto
  then obtain vs where vs: "dget versions key = Some vs" by (metis dget_None_iff not_None_eq)
  have fresh: "dget items key = None" using Cons.prems(1) x by (simp add: dget_None_iff)
  define v where "v = dset key (change n (activate_version (Some at)) vs) versions"
  have keys: "fst ` set v = fst ` set versions" using in_keys by (simp add: v_def keys_dset insert_absorb)
  have "activate_items at items v = (e, ws)" using Cons.prems(4) by (simp add: x vs v_def)
  moreover have "fst ` set items \<subseteq> fst ` set v" using Cons.prems(3) keys by simp
  moreover have "wf_dict items" "wf_dict v" using Cons.prems(1,2) by (simp_all add: v_def)
  ultimately have IH: "e = None" "wf_dict ws" "fst ` set ws = fst ` set v"
    "\<And>k. dget ws k = map_option (mark (Some at) items k) (dget v k)"
    using Cons.IH [of v] by simp_all
  have "dget ws k = map_option (mark (Some at) (x # items) k) (dget versions k)" for k
    unfolding IH(4) v_def x using vs fresh by (cases "k = key") (simp_all add: mark_simps dget_dset)
  with IH(1-3) keys show ?case by simp
qed

lemma select_versions_spec:
  "wf_dict items \<Longrightarrow> wf_dict versions \<Longrightarrow>
     (\<And>k vs. dget versions k = Some vs \<Longrightarrow> distinct (numbers vs)) \<Longrightarrow>
     wf_dict (fold (select_version at) items versions) \<and>
     fst ` set (fold (select_version at) items versions) = fst ` set versions \<and>
     (\<forall>k. dget (fold (select_version at) items versions) k = map_option (mark at items k) (dget versions k))"
proof (induction items arbitrary: versions)
  case Nil
  then show ?case by (simp add: mark_simps option.map_ident)
next
  case (Cons x items)
  obtain key n where x: "x = (key, n)" by (cases x)
  have fresh: "dget items key = None" using Cons.prems(1) x by (simp add: dget_None_iff)
  define v where "v = select_version at x versions"
  have dv: "dget v k = (if k = key then map_option (change n (activate_version at)) (dget versions k)
      else dget versions k)" for k
    using Cons.prems(3) by (simp add: v_def select_version_def x dget_dset update_first_map split: option.split)
  have keys: "fst ` set v = fst ` set versions"
    by (simp add: v_def select_version_def x keys_dset insert_absorb key_in split: option.split)
  have wf: "wf_dict v" using Cons.prems(2) by (simp add: v_def select_version_def x split: option.split)
  have "distinct (numbers vs)" if "dget v k = Some vs" for k vs
    using that Cons.prems(3) by (auto simp: dv change_numbers split: if_splits)
  with Cons.IH [of v] wf Cons.prems(1)
  have IH: "wf_dict (fold (select_version at) items v)" "fst ` set (fold (select_version at) items v) = fst ` set v"
    "\<And>k. dget (fold (select_version at) items v) k = map_option (mark at items k) (dget v k)"
    by simp_all
  have "dget (fold (select_version at) items v) k = map_option (mark at (x # items) k) (dget versions k)" for k
    unfolding IH(3) dv x using fresh by (cases "k = key") (simp_all add: mark_simps option.map_ident)
  with IH(1,2) keys show ?case by (simp add: v_def)
qed

lemma dget_supersede_all: "dget (supersede_all versions) k = map_option supersede_active (dget versions k)"
  by (induction versions) (auto simp: supersede_all_def)

lemma keys_supersede_all [simp]: "map fst (supersede_all versions) = map fst versions"
  by (simp add: supersede_all_def comp_def split_def)

lemma marked:
  assumes "tables_ok sha s" "items_stored (pm_versions s) items" "dget (pm_versions s) k = Some vs"
  shows "versions_ok sha (mark at items k (supersede_active vs)) \<and>
    numbers (mark at items k (supersede_active vs)) = numbers vs \<and>
    active_versions (mark at items k (supersede_active vs)) = item_of items k"
proof -
  have ok: "versions_ok sha (supersede_active vs)" "distinct (numbers (supersede_active vs))"
    using assms(1,3) by (auto simp: tables_ok_def versions_ok_def)
  show ?thesis
  proof (cases "dget items k")
    case (Some n)
    with assms have "n \<in> set (numbers vs)" unfolding items_stored_def by (metis option.inject)
    with ok Some show ?thesis
      by (simp add: mark_def item_of_def versions_ok_activate activate_active change_numbers)
  qed (simp add: mark_def item_of_def ok)
qed

lemma stored_keys: "items_stored versions items \<Longrightarrow> fst ` set items \<subseteq> fst ` set versions"
  unfolding items_stored_def by (auto simp: key_in dest!: in_set_zipE) (metis key_in map_of_is_SomeI)

lemma swap_updates: "s\<lparr>pm_versions := v, pm_releases := r\<rparr> = s\<lparr>pm_releases := r, pm_versions := v\<rparr>"
  by simp

lemma activate_ok:
  assumes "prompts_ok sha s"
  shows "prompts_ok sha (snd (activate_prompt_release i at s))"
proof (cases "dget (pm_releases s) (strip i)")
  case (Some r)
  have t: "tables_ok sha s" using assms by (simp add: prompts_ok_def)
  with Some have stored: "items_stored (pm_versions s) (pr_items r)" by (simp add: tables_ok_def)
  then have wf: "wf_dict (pr_items r)" by (simp add: items_stored_def)
  obtain e ws where ws: "activate_items at (pr_items r) (supersede_all (pm_versions s)) = (e, ws)"
    by (cases "activate_items at (pr_items r) (supersede_all (pm_versions s))")
  have keys: "fst ` set (supersede_all (pm_versions s)) = fst ` set (pm_versions s)"
    by (metis keys_supersede_all list.set_map)
  have "wf_dict (supersede_all (pm_versions s))" using t by (simp add: tables_ok_def)
  from activate_items_spec [OF wf this _ ws] stored_keys [OF stored] keys
  have spec: "e = None" "\<And>k. dget ws k = map_option (mark (Some at) (pr_items r) k) (dget (supersede_all (pm_versions s)) k)"
    "fst ` set ws = fst ` set (pm_versions s)" "wf_dict ws"
    by simp_all
  let ?r = "r\<lparr>pr_status := ''active'', pr_activated_at := Some at\<rparr>"
  have "prompts_ok sha (s\<lparr>pm_releases := dset (strip i) ?r (supersede_releases (pm_releases s)), pm_versions := ws\<rparr>)"
    using t stored spec(4,3) marked [OF t stored, of _ _ "Some at"]
    by (intro deploy_ok [where g = "\<lambda>k vs. mark (Some at) (pr_items r) k (supersede_active vs)"])
      (auto simp: is_active_release_def spec(2) dget_supersede_all option.map_comp comp_def)
  then show ?thesis
    using assms by (simp add: activate_prompt_release_def Some ws spec(1) Let_def swap_updates)
qed (simp add: activate_prompt_release_def assms)

subsection \<open>Synchronisation\<close>

lemma sync_target_numbers:
  "sync_target row sha256 vs = (n, new) \<Longrightarrow> (n \<in> set (numbers vs)) \<longleftrightarrow> \<not> new"
  by (auto simp: sync_target_def find_None_iff find_Some_iff has_version_def numbers_def
      split: option.splits if_splits dest: nth_mem)
     (metis List.finite_set Max_ge finite_imageI imageI zle_add1_eq_le less_irrefl)

text \<open>The number of a version with the digest of its content.\<close>

definition pairs :: "prompt_version list \<Rightarrow> (int \<times> string) list" where
  "pairs vs = map (\<lambda>v. (pv_version v, pv_content_sha256 v)) vs"

lemma pairs_simps [simp]:
  "pairs [] = []" "pairs (vs @ ws) = pairs vs @ pairs ws" "pairs [v] = [(pv_version v, pv_content_sha256 v)]"
  "pairs (demote_scheduled vs) = pairs vs" "pairs (supersede_active vs) = pairs vs"
  "pairs (change n (activate_version at) vs) = pairs vs"
  by (simp_all add: pairs_def demote_scheduled_def supersede_active_def)

lemma pairs_numbers: "(n, h) \<in> set (pairs vs) \<Longrightarrow> n \<in> set (numbers vs)"
  by (auto simp: pairs_def numbers_def)

lemma find_pair:
  "distinct (numbers vs) \<Longrightarrow> (n, h) \<in> set (pairs vs) \<Longrightarrow>
     \<exists>v. find (has_version n) vs = Some v \<and> pv_content_sha256 v = h"
  by (induction vs) (auto simp: pairs_def has_version_def numbers_def)

lemma sync_target_pair: "sync_target row h vs = (n, False) \<Longrightarrow> (n, h) \<in> set (pairs vs)"
  by (auto simp: sync_target_def find_Some_iff has_version_def pairs_def in_set_conv_nth
      split: option.splits if_splits) (use nth_mem in blast)+

definition row_hashed :: "(string \<Rightarrow> string) \<Rightarrow> version_row \<Rightarrow> bool" where
  "row_hashed sha row \<longleftrightarrow> sha (ostr (vr_content row)) = ostrip (vr_content_sha256 row)"

lemma add_synced_ok:
  fixes st :: string
  assumes "versions_ok sha vs" "n \<notin> set (numbers vs)" "row_hashed sha row"
  defines "ws \<equiv> add_synced row n (ostrip (vr_content_sha256 row)) st vs"
  shows "versions_ok sha ws" "(n, ostrip (vr_content_sha256 row)) \<in> set (pairs ws)"
    "set (numbers vs) \<subseteq> set (numbers ws)" "set (pairs vs) \<subseteq> set (pairs ws)"
    "st = ''draft'' \<Longrightarrow> active_versions ws = active_versions vs"
proof -
  define us where "us = (if st = ''active'' then supersede_active vs
      else if st = ''scheduled'' then demote_scheduled vs else vs)"
  let ?v = "synced_version row n (ostrip (vr_content_sha256 row)) st"
  have ws: "ws = us @ [?v]" by (simp add: ws_def add_synced_def us_def)
  have us: "versions_ok sha us" "numbers us = numbers vs" "pairs us = pairs vs"
    using assms(1) by (auto simp: us_def)
  have v: "pv_version ?v = n" "has_status a ?v \<longleftrightarrow> a = st" for a
    by (auto simp: synced_version_def has_status_def)
  have h: "sha (pv_content ?v) = pv_content_sha256 ?v" "pv_content_sha256 ?v = ostrip (vr_content_sha256 row)"
    using assms(3) by (simp_all add: synced_version_def row_hashed_def)
  show "versions_ok sha ws"
    unfolding ws using us assms(2,3)
    by (intro versions_ok_append) (auto simp: v h(1) us_def)
  show "(n, ostrip (vr_content_sha256 row)) \<in> set (pairs ws)" "set (numbers vs) \<subseteq> set (numbers ws)"
    "set (pairs vs) \<subseteq> set (pairs ws)"
    by (auto simp: ws v h(2) us)
  show "active_versions ws = active_versions vs" if "st = ''draft''"
    using that v(2) [of "''active''"] by (simp add: ws us_def)
qed

definition stored_in :: "prompts \<Rightarrow> string \<Rightarrow> int \<Rightarrow> string \<Rightarrow> bool" where
  "stored_in s k n h \<longleftrightarrow> (n, h) \<in> set (pairs (prompt_versions s k))"

lemma sync_rows_ok:
  assumes "tables_ok sha s" "list_all (row_hashed sha) rows" "sync_rows status rows s = (res, s')"
  shows "tables_ok sha s' \<and> pm_releases s' = pm_releases s \<and> pm_definitions s' = pm_definitions s \<and>
    (status = ''candidate'' \<longrightarrow> versions_match f s \<longrightarrow> versions_match f s') \<and>
    (\<forall>k n h. stored_in s k n h \<longrightarrow> stored_in s' k n h) \<and>
    (\<forall>ts. res = Inr ts \<longrightarrow> map (\<lambda>t. (fst t, fst (snd t))) ts = map (\<lambda>row. (ostrip (vr_prompt_key row), row)) rows \<and>
       (\<forall>(k, row, n, new) \<in> set ts. stored_in s' k n (ostrip (vr_content_sha256 row))))"
  using assms
proof (induction rows arbitrary: s res)
  case (Cons row rows)
  let ?key = "ostrip (vr_prompt_key row)" and ?sha = "ostrip (vr_content_sha256 row)"
  show ?case
  proof (cases "current_definition s ?key")
    case None
    with Cons.prems show ?thesis by auto
  next
    case (Some d)
    then have "dget (pm_definitions s) ?key \<noteq> None" by (auto simp: current_definition_def split: option.splits)
    then obtain vs where vs: "dget (pm_versions s) ?key = Some vs"
      using versions_iff [OF Cons.prems(1)] by fastforce
    then have pv: "prompt_versions s ?key = vs" by (simp add: prompt_versions_def)
    have ok: "versions_ok sha vs" using Cons.prems(1) vs by (simp add: tables_ok_def)
    obtain n new where target: "sync_target row ?sha vs = (n, new)"
      by (cases "sync_target row ?sha vs")
    define st where "st = (if status = ''candidate'' then ''draft'' else or_else (ostr (vr_status row)) ''draft'')"
    define s1 where "s1 = (if new then put_versions ?key (add_synced row n ?sha st vs) s else s)"
    obtain r2 where rest: "sync_rows status rows s1 = (r2, s')" "r2 = map_sum id tl res"
        "\<forall>ts. res = Inr ts \<longrightarrow> ts \<noteq> [] \<and> hd ts = (?key, row, n, new)"
      using Cons.prems(3) Some target
      by (auto simp: pv Let_def st_def [symmetric] s1_def [symmetric] split: prod.splits sum.splits)
    have hashed: "row_hashed sha row" "list_all (row_hashed sha) rows" using Cons.prems(2) by simp_all
    have s1: "tables_ok sha s1 \<and> pm_releases s1 = pm_releases s \<and> pm_definitions s1 = pm_definitions s \<and>
        (status = ''candidate'' \<longrightarrow> versions_match f s \<longrightarrow> versions_match f s1) \<and>
        (\<forall>k n h. stored_in s k n h \<longrightarrow> stored_in s1 k n h) \<and> stored_in s1 ?key n ?sha"
    proof (cases new)
      case False
      with target sync_target_pair [of row ?sha vs n] have "(n, ?sha) \<in> set (pairs vs)" by simp
      with False Cons.prems(1) pv show ?thesis by (simp add: s1_def stored_in_def)
    next
      case True
      with target sync_target_numbers have "n \<notin> set (numbers vs)" by blast
      note a = add_synced_ok [OF ok this hashed(1), of st]
      have "versions_match f s \<Longrightarrow> active_versions vs = f ?key" using vs by (simp add: versions_match_def)
      with True a tables_put [OF Cons.prems(1) vs a(1,3)] pv show ?thesis
        by (auto simp: s1_def st_def stored_in_def put_versions_def prompt_versions_def dget_dset versions_match_def
            split: option.splits)
    qed
    note IH = Cons.IH [OF conjunct1 [OF s1] hashed(2) rest(1)]
    have "map (\<lambda>t. (fst t, fst (snd t))) ts = map (\<lambda>row. (ostrip (vr_prompt_key row), row)) (row # rows) \<and>
        (\<forall>(k, row, n, new) \<in> set ts. stored_in s' k n (ostrip (vr_content_sha256 row)))" if "res = Inr ts" for ts
    proof -
      from that rest(3) obtain us where ts: "ts = (?key, row, n, new) # us" by (cases ts) auto
      with that rest(2) have "r2 = Inr us" by simp
      with IH s1 show ?thesis by (simp add: ts)
    qed
    with IH s1 show ?thesis by simp
  qed
qed simp


lemma payload_rows:
  "payload_hashes sha items rows hashes = Inr hs \<Longrightarrow>
     list_all (row_hashed sha) rows \<and> distinct (map (\<lambda>row. ostrip (vr_prompt_key row)) rows) \<and>
     (\<forall>row \<in> set rows. dget hashes (ostrip (vr_prompt_key row)) = None \<and>
        dget hs (ostrip (vr_prompt_key row)) = Some (ostrip (vr_content_sha256 row))) \<and>
     (\<forall>k h. dget hashes k = Some h \<longrightarrow> dget hs k = Some h) \<and>
     fst ` set hs = fst ` set hashes \<union> (\<lambda>row. ostrip (vr_prompt_key row)) ` set rows"
proof (induction rows arbitrary: hashes)
  case (Cons row rows)
  let ?key = "ostrip (vr_prompt_key row)"
  have step: "sha (ostr (vr_content row)) = ostrip (vr_content_sha256 row)" "dget hashes ?key = None"
      "payload_hashes sha items rows (dset ?key (ostrip (vr_content_sha256 row)) hashes) = Inr hs"
    using Cons.prems by (simp_all add: Let_def split: if_splits)
  from Cons.IH [OF step(3)] step(1,2) show ?case
    by (auto simp: row_hashed_def dget_dset keys_dset split: if_splits) (metis option.distinct(1))
qed simp

lemma validated_rows:
  assumes "validate_prompt_release_sync_payload sha release rows = Inr (i, status, hs)"
  shows "list_all (row_hashed sha) rows" "distinct (map (\<lambda>row. ostrip (vr_prompt_key row)) rows)"
    "status = ''candidate'' \<or> status = ''active''" "status = ostrip (rp_status release)"
    "\<And>row. row \<in> set rows \<Longrightarrow> dget hs (ostrip (vr_prompt_key row)) = Some (ostrip (vr_content_sha256 row))"
    "(\<lambda>row. ostrip (vr_prompt_key row)) ` set rows = fst ` set (rp_items release)"
proof -
  have h: "payload_hashes sha (rp_items release) rows [] = Inr hs" "fst ` set hs = fst ` set (rp_items release)"
    and st: "status = ostrip (rp_status release)" "status \<in> {''candidate'', ''active''}"
    using assms by (auto simp: validate_prompt_release_sync_payload_def Let_def split: if_splits sum.splits)
  note r = payload_rows [OF h(1)]
  from r show "list_all (row_hashed sha) rows" "distinct (map (\<lambda>row. ostrip (vr_prompt_key row)) rows)" by blast+
  from st show "status = ''candidate'' \<or> status = ''active''" "status = ostrip (rp_status release)" by auto
  from r show "row \<in> set rows \<Longrightarrow> dget hs (ostrip (vr_prompt_key row)) = Some (ostrip (vr_content_sha256 row))"
    for row by blast
  from r h(2) show "(\<lambda>row. ostrip (vr_prompt_key row)) ` set rows = fst ` set (rp_items release)" by simp
qed

text \<open>A synchronisation keeps the invariant, unless it is of an active release and raises.\<close>

lemma sync_ok:
  assumes "prompts_ok sha s" "sync_prompt_release sha release rows s = (res, s')"
    "ostrip (rp_status release) = ''active'' \<longrightarrow> \<not> isl res"
  shows "prompts_ok sha s'"
proof (cases "validate_prompt_release_sync_payload sha release rows")
  case (Inl e)
  with assms show ?thesis by (simp add: sync_prompt_release_def)
next
  case (Inr v)
  obtain i status hs where v: "v = (i, status, hs)" by (cases v)
  note rows = validated_rows [OF Inr [unfolded v]]
  have t: "tables_ok sha s" using assms(1) by (simp add: prompts_ok_def)
  show ?thesis
  proof (cases "dget (pm_releases s) i")
    case (Some existing)
    with assms(1,2) Inr v show ?thesis by (simp add: sync_prompt_release_def)
  next
    case None
    obtain r1 s1 where r1: "sync_rows status rows s = (r1, s1)" by (cases "sync_rows status rows s")
    note ok = sync_rows_ok [OF t rows(1) r1]
    then have t1: "tables_ok sha s1" and rel: "pm_releases s1 = pm_releases s"
      and defs: "pm_definitions s1 = pm_definitions s"
      and keep: "status = ''candidate'' \<Longrightarrow> versions_match f s \<Longrightarrow> versions_match f s1" for f
      by blast+
    have p1: "prompts_ok sha s1" if "status = ''candidate''"
      using assms(1) keep [OF that] t1 defs active_releases [OF rel]
      by (auto simp: prompts_ok_def deployment_ok_def split: option.splits)
    show ?thesis
    proof (cases r1)
      case (Inl e)
      with assms(2,3) Inr v None r1 rows(3,4) p1 show ?thesis
        by (auto simp: sync_prompt_release_def)
    next
      case ts: (Inr ts)
      let ?items = "map (\<lambda>(key, row, target, new). (key, target)) ts"
      let ?rels = "if status = ''active'' then supersede_releases (pm_releases s1) else pm_releases s1"
      let ?r = "synced_release release i status ?items ?rels"
      have keys: "map fst ?items = map fst ts" by auto
      have rowset: "map (\<lambda>t. (fst t, fst (snd t))) ts = map (\<lambda>row. (ostrip (vr_prompt_key row), row)) rows"
        using ok ts by simp
      have sel: "map fst ts = map (\<lambda>row. ostrip (vr_prompt_key row)) rows"
        "\<forall>(k, row, n, new) \<in> set ts. stored_in s1 k n (ostrip (vr_content_sha256 row))"
      proof -
        have "map fst ts = map fst (map (\<lambda>t. (fst t, fst (snd t))) ts)" by simp
        also have "\<dots> = map (\<lambda>row. ostrip (vr_prompt_key row)) rows" unfolding rowset by simp
        finally show "map fst ts = map (\<lambda>row. ostrip (vr_prompt_key row)) rows" .
        show "\<forall>(k, row, n, new) \<in> set ts. stored_in s1 k n (ostrip (vr_content_sha256 row))"
          using ok ts by simp
      qed
      have stored: "items_stored (pm_versions s1) ?items"
        unfolding items_stored_def
      proof (intro conjI allI impI)
        show wf: "wf_dict ?items" unfolding keys sel(1) by (rule rows(2))
        fix k n
        assume "dget ?items k = Some n"
        then have "(k, n) \<in> set ?items" by (rule map_of_SomeD)
        then obtain h where "stored_in s1 k n h" using sel(2) by auto
        then show "\<exists>vs. dget (pm_versions s1) k = Some vs \<and> n \<in> set (numbers vs)"
          by (auto simp: stored_in_def prompt_versions_def dest: pairs_numbers split: option.splits)
      qed
      have pr: "pr_items ?r = ?items" "pr_status ?r = status" by (simp_all add: synced_release_def Let_def)
      from rows(3) show ?thesis
      proof
        assume st: "status = ''candidate''"
        have "s' = s1\<lparr>pm_releases := dset i ?r (pm_releases s1)\<rparr>"
          using assms(2) Inr v None r1 ts st by (simp add: sync_prompt_release_def Let_def)
        with release_put [OF p1 [OF st], of ?r i] st pr stored None rel show ?thesis
          by (simp add: is_active_release_def)
      next
        assume st: "status = ''active''"
        let ?v = "fold (select_version (rp_activated_at release)) ?items (supersede_all (pm_versions s1))"
        have s': "s' = s1\<lparr>pm_releases := dset i ?r (supersede_releases (pm_releases s1)), pm_versions := ?v\<rparr>"
          using assms(2) Inr v None r1 ts st by (simp add: sync_prompt_release_def Let_def swap_updates)
        have wf: "wf_dict ?items" "wf_dict (supersede_all (pm_versions s1))"
          using stored t1 by (simp_all add: items_stored_def tables_ok_def)
        have "distinct (numbers vs)" if "dget (supersede_all (pm_versions s1)) k = Some vs" for k vs
          using that t1 by (auto simp: dget_supersede_all tables_ok_def versions_ok_def)
        note spec = select_versions_spec [OF wf this, where at = "rp_activated_at release"]
        have "fst ` set (supersede_all (pm_versions s1)) = fst ` set (pm_versions s1)"
          by (metis keys_supersede_all list.set_map)
        with spec marked [OF t1 stored, where at = "rp_activated_at release"] show ?thesis
          unfolding s' using t1 stored pr st
          by (intro deploy_ok [where g = "\<lambda>k vs. mark (rp_activated_at release) ?items k (supersede_active vs)"])
            (auto simp: is_active_release_def dget_supersede_all option.map_comp comp_def)
      qed
    qed
  qed
qed


text \<open>What a synchronisation that stores the release leaves behind.\<close>

lemma sync_created:
  assumes "tables_ok sha s" "sync_prompt_release sha release rows s = (Inr rep, s')" "sr_created rep"
  shows "\<exists>i status hs r. validate_prompt_release_sync_payload sha release rows = Inr (i, status, hs) \<and>
    dget (pm_releases s') i = Some r \<and> pr_status r = status \<and>
    pr_build_ref r = or_else (ostr (rp_build_ref release)) ''unknown'' \<and>
    fst ` set (pr_items r) = fst ` set (rp_items release) \<and>
    (\<forall>(k, n) \<in> set (pr_items r). \<exists>h. dget hs k = Some h \<and> stored_in s' k n h)"
proof -
  obtain i status hs where val: "validate_prompt_release_sync_payload sha release rows = Inr (i, status, hs)"
    using assms(2) by (auto simp: sync_prompt_release_def split: sum.splits)
  have none: "dget (pm_releases s) i = None"
    using assms(2,3) val by (auto simp: sync_prompt_release_def resync_def Let_def split: option.splits if_splits)
  obtain ts s1 where r1: "sync_rows status rows s = (Inr ts, s1)"
    using assms(2) val none
    by (cases "sync_rows status rows s"; cases "fst (sync_rows status rows s)")
      (auto simp: sync_prompt_release_def)
  note rows = validated_rows [OF val]
  note ok = sync_rows_ok [OF assms(1) rows(1) r1]
  have rowset: "map (\<lambda>t. (fst t, fst (snd t))) ts = map (\<lambda>row. (ostrip (vr_prompt_key row), row)) rows"
    using ok by simp
  let ?items = "map (\<lambda>(key, row, target, new). (key, target)) ts"
  let ?rels = "if status = ''active'' then supersede_releases (pm_releases s1) else pm_releases s1"
  let ?r = "synced_release release i status ?items ?rels"
  have s': "s' = s1\<lparr> pm_releases := dset i ?r ?rels,
      pm_versions := (if status = ''active''
        then fold (select_version (rp_activated_at release)) ?items (supersede_all (pm_versions s1))
        else pm_versions s1) \<rparr>"
    using assms(2) val none r1 by (simp add: sync_prompt_release_def Let_def)
  have "fst ` set ?items = fst ` set (map (\<lambda>t. (fst t, fst (snd t))) ts)" by force
  also have "\<dots> = fst ` set (rp_items release)" unfolding rowset rows(6) [symmetric] by force
  finally have keys: "fst ` set ?items = fst ` set (rp_items release)" .
  have kept: "stored_in s' k n h" if "stored_in s1 k n h" for k n h
  proof (cases "status = ''active''")
    case True
    have dist: "distinct (numbers vs)" if "dget (supersede_all (pm_versions s1)) k = Some vs" for k vs
      using that ok by (auto simp: dget_supersede_all tables_ok_def versions_ok_def)
    have wf: "wf_dict ?items"
    proof -
      have "map fst ?items = map fst (map (\<lambda>t. (fst t, fst (snd t))) ts)" by auto
      also have "\<dots> = map (\<lambda>row. ostrip (vr_prompt_key row)) rows" unfolding rowset by simp
      finally show ?thesis using rows(2) by simp
    qed
    have "wf_dict (supersede_all (pm_versions s1))" using ok by (simp add: tables_ok_def)
    from select_versions_spec [OF wf this dist, where at = "rp_activated_at release"] True that
    show ?thesis
      by (auto simp: s' stored_in_def prompt_versions_def dget_supersede_all mark_def split: option.splits)
  next
    case False
    with that show ?thesis by (simp add: s' stored_in_def prompt_versions_def)
  qed
  have "\<exists>h. dget hs k = Some h \<and> stored_in s' k n h" if "(k, n) \<in> set ?items" for k n
  proof -
    from that obtain row new where t: "(k, row, n, new) \<in> set ts" by auto
    then have "(k, row) \<in> set (map (\<lambda>t. (fst t, fst (snd t))) ts)" by force
    then have "row \<in> set rows" "k = ostrip (vr_prompt_key row)" unfolding rowset by auto
    with rows(5) have "dget hs k = Some (ostrip (vr_content_sha256 row))" by simp
    moreover have "\<forall>(k, row, n, new) \<in> set ts. stored_in s1 k n (ostrip (vr_content_sha256 row))"
      using ok by simp
    from bspec [OF this t] have "stored_in s1 k n (ostrip (vr_content_sha256 row))" by simp
    with kept calculation show ?thesis by blast
  qed
  then have "\<forall>(k, n) \<in> set (pr_items ?r). \<exists>h. dget hs k = Some h \<and> stored_in s' k n h"
    by (simp add: synced_release_def Let_def) force
  moreover have "dget (pm_releases s') i = Some ?r" by (simp add: s' dget_dset)
  moreover have "fst ` set (pr_items ?r) = fst ` set (rp_items release)" "pr_status ?r = status"
    "pr_build_ref ?r = or_else (ostr (rp_build_ref release)) ''unknown''"
    using keys by (simp_all add: synced_release_def Let_def)
  ultimately show ?thesis using val by blast
qed

lemma sync_twice:
  assumes "tables_ok sha s'" "tables_ok sha s" "sync_prompt_release sha release rows s = (Inr rep, s')" "sr_created rep"
    "ostr (rp_build_ref release) \<noteq> []"
  shows "\<exists>again. sync_prompt_release sha release rows s' = (Inr again, s') \<and> \<not> sr_created again \<and>
    sr_versions_created again = 0"
proof -
  obtain i status hs r where val: "validate_prompt_release_sync_payload sha release rows = Inr (i, status, hs)"
    and r: "dget (pm_releases s') i = Some r" "pr_status r = status"
      "pr_build_ref r = or_else (ostr (rp_build_ref release)) ''unknown''"
      "fst ` set (pr_items r) = fst ` set (rp_items release)"
      "\<forall>(k, n) \<in> set (pr_items r). \<exists>h. dget hs k = Some h \<and> stored_in s' k n h"
    using sync_created [OF assms(2-4)] by blast
  note rows = validated_rows [OF val]
  have "\<exists>v. find (has_version n) (prompt_versions s' k) = Some v \<and> Some (pv_content_sha256 v) = dget hs k"
    if kn: "(k, n) \<in> set (pr_items r)" for k n
  proof -
    from r(5) kn obtain h where h: "dget hs k = Some h" "stored_in s' k n h" by auto
    have "distinct (numbers (prompt_versions s' k))"
      using assms(1) by (auto simp: tables_ok_def versions_ok_def prompt_versions_def split: option.split)
    with find_pair [of _ n h] h show ?thesis by (auto simp: stored_in_def)
  qed
  then have same: "list_all (\<lambda>(key, n). case find (has_version n) (prompt_versions s' key) of
             None \<Rightarrow> False | Some v \<Rightarrow> Some (pv_content_sha256 v) = dget hs key) (pr_items r)"
    by (force simp: list_all_iff)
  have "strip (pr_status r) \<in> {''candidate'', ''active''}" using rows(3,4) r(2) by auto
  moreover have "pr_build_ref r = ostr (rp_build_ref release)" using r(3) assms(5) by simp
  ultimately have "\<exists>again. resync r release i hs s' = Inr again \<and> \<not> sr_created again \<and> sr_versions_created again = 0"
    using r(4) same by (simp add: resync_def Let_def)
  with val r(1) show ?thesis by (auto simp: sync_prompt_release_def)
qed

section \<open>Reachable states\<close>

definition no_prompts :: prompts where
  "no_prompts = \<lparr> pm_definitions = [], pm_versions = [], pm_releases = [] \<rparr>"

text \<open>
  Every operation, whether it returns or raises. The random part of a new release id is fresh,
  and a synchronisation of an active release does not raise half-way (see below for one that does).
\<close>

inductive prompt_step :: "(string \<Rightarrow> string) \<Rightarrow> prompts \<Rightarrow> prompts \<Rightarrow> bool" for sha where
  catalog: "prompt_step sha s (snd (sync_prompt_catalog sha uuid entries actor at s))"
| draft: "prompt_step sha s (snd (create_prompt_draft sha key content note based_on actor at s))"
| restore: "prompt_step sha s (snd (restore_prompt_version sha key n actor at s))"
| schedule: "prompt_step sha s (snd (schedule_prompt_version key n actor at s))"
| unschedule: "prompt_step sha s (snd (unschedule_prompt_version key n s))"
| prepare: "dget (pm_releases s) (''pr-'' @ uuid) = None \<Longrightarrow>
    prompt_step sha s (snd (prepare_prompt_release uuid build_ref at s))"
| activate: "prompt_step sha s (snd (activate_prompt_release i at s))"
| fail: "prompt_step sha s (snd (fail_prompt_release i reason s))"
| sync: "sync_prompt_release sha release rows s = (res, s') \<Longrightarrow>
    (ostrip (rp_status release) = ''active'' \<longrightarrow> \<not> isl res) \<Longrightarrow> prompt_step sha s s'"

inductive prompts_reachable :: "(string \<Rightarrow> string) \<Rightarrow> prompts \<Rightarrow> bool" for sha where
  empty: "prompts_reachable sha no_prompts"
| step: "prompts_reachable sha s \<Longrightarrow> prompt_step sha s s' \<Longrightarrow> prompts_reachable sha s'"

lemma step_ok: "prompt_step sha s s' \<Longrightarrow> prompts_ok sha s \<Longrightarrow> prompts_ok sha s'"
  by (induction rule: prompt_step.induct)
    (auto intro: catalog_ok draft_ok restore_ok schedule_ok unschedule_ok prepare_ok activate_ok fail_ok sync_ok)

lemma reachable_ok: "prompts_reachable sha s \<Longrightarrow> prompts_ok sha s"
proof (induction rule: prompts_reachable.induct)
  case empty
  show ?case
    by (simp add: no_prompts_def prompts_ok_def tables_ok_def deployment_ok_def one_active_def
        get_active_prompt_release_def)
qed (rule step_ok)

lemma reachable_tables: "prompts_reachable sha s \<Longrightarrow> tables_ok sha s"
  using reachable_ok by (simp add: prompts_ok_def)

section \<open>Properties\<close>


text \<open>C30
  The versions of a prompt have distinct numbers, at most one of them is scheduled, and each
  carries the digest of its own content.
\<close>

theorem prompt_versions_wellformed:
  assumes "prompts_reachable sha s" "dget (pm_versions s) k = Some vs"
  shows "distinct (map pv_version vs) \<and> length (filter (has_status ''scheduled'') vs) \<le> 1 \<and>
    list_all (\<lambda>v. pv_content_sha256 v = sha (pv_content v)) vs"
  using reachable_tables [OF assms(1)] assms(2)
  by (auto simp: tables_ok_def versions_ok_def numbers_def scheduled_versions_def list_all_iff)

text \<open>C29
  Synchronising a release is idempotent: when the same payload, with a build reference, arrives
  again, it is recognised, no version is created and nothing changes.
\<close>

theorem prompt_sync_idempotent:
  assumes "prompts_reachable sha s" "sync_prompt_release sha release rows s = (Inr rep, s')"
    "sr_created rep" "ostr (rp_build_ref release) \<noteq> []"
  shows "\<exists>again. sync_prompt_release sha release rows s' = (Inr again, s') \<and>
    \<not> sr_created again \<and> sr_versions_created again = 0"
proof (rule sync_twice [OF _ _ assms(2-4)])
  show "tables_ok sha s" using reachable_tables [OF assms(1)] .
  have "prompt_step sha s s'" using assms(2) by (rule prompt_step.sync) simp
  with assms(1) show "tables_ok sha s'" by (blast intro: reachable_tables prompts_reachable.step)
qed

text \<open>
  A draft the service accepts has a content of 1 to 100000 characters and a note of 1 to 500,
  is stored as a draft of an editable current prompt under a number none of its versions had,
  and is based on the version that was active.
\<close>

theorem draft_within_limits:
  assumes "prompts_reachable sha s"
    and "create_draft sha key content note based_on actor at s = (Inr v, s')"
  shows "1 \<le> length (pv_content v) \<and> length (pv_content v) \<le> 100000 \<and>
    1 \<le> length (pv_change_note v) \<and> length (pv_change_note v) \<le> 500 \<and>
    pv_status v = ''draft'' \<and> prompt_versions s' (strip key) = prompt_versions s (strip key) @ [v] \<and>
    pv_version v \<notin> set (map pv_version (prompt_versions s (strip key))) \<and>
    (\<exists>d. current_definition s (strip key) = Some d \<and> pd_editable d) \<and>
    based_on \<in> set (map pv_version (filter (has_status ''active'') (prompt_versions s (strip key))))"
proof -
  have lim: "strip content \<noteq> []" "int (length (strip content)) \<le> 100000" "strip note \<noteq> []"
      "int (length (strip note)) \<le> 500"
    and ed: "\<exists>d. current_definition s (strip key) = Some d \<and> pd_editable d"
    and cr: "create_prompt_draft sha key (strip content) (strip note) based_on actor at s = (Inr v, s')"
    using assms(2)
    by (auto simp: create_draft_def Let_def max_prompt_content_chars_def max_change_note_chars_def
        get_managed_prompt_def managed_prompt_payload_def split: option.splits if_splits)
  obtain vs a n where vs: "dget (pm_versions s) (strip key) = Some vs" "find (has_status ''active'') vs = Some a"
      "pv_version a = based_on" "max_version vs = Inr n"
      "v = draft_version sha (strip content) (strip note) based_on (n + 1) actor at"
      "s' = put_versions (strip key) (vs @ [v]) s"
    using cr by (auto simp: create_prompt_draft_def Let_def split: option.splits if_splits sum.splits)
  have "a \<in> set (filter (has_status ''active'') vs)"
    using vs(2) by (auto simp: find_Some_iff)
  then have "based_on \<in> set (map pv_version (filter (has_status ''active'') vs))"
    using vs(3) by force
  with lim ed vs fresh_max [OF vs(4)] show ?thesis
    by (auto simp: draft_version_def prompt_versions_def put_versions_def dget_dset numbers_def
        Suc_le_eq)
qed

section \<open>Witnesses\<close>

definition sample_sha :: "string \<Rightarrow> string" where "sample_sha s = ''h'' @ s"

definition sample_catalog :: "catalog_entry list" where
  "sample_catalog = map (\<lambda>k. \<lparr> ct_prompt_key = Some k, ct_content = Some (''text of '' @ k), ct_name = None,
     ct_agent_key = None, ct_component_key = None, ct_editable = None \<rparr>) [''reply'', ''router'']"

definition sample_prompts :: prompts where
  "sample_prompts = snd (sync_prompt_catalog sample_sha ''1'' sample_catalog ''system'' ''t1'' no_prompts)"

lemma sample_reachable: "prompts_reachable sample_sha sample_prompts"
  unfolding sample_prompts_def
  by (rule prompts_reachable.step [OF prompts_reachable.empty prompt_step.catalog])

text \<open>A release of another deployment: a new version of the reply prompt and the router prompt as it is.\<close>

definition sample_row :: "string \<Rightarrow> int \<Rightarrow> string \<Rightarrow> version_row" where
  "sample_row k n c = \<lparr> vr_prompt_key = Some k, vr_version = n, vr_content = Some c,
     vr_content_sha256 = Some (sample_sha c), vr_status = Some ''active'', vr_based_on_version = None,
     vr_change_note = None, vr_created_by = None, vr_created_at = None, vr_scheduled_by = None,
     vr_scheduled_at = None, vr_activated_at = Some ''t2'' \<rparr>"

definition sample_release :: "(string, int) dict \<Rightarrow> release_payload" where
  "sample_release items = \<lparr> rp_release_id = Some ''pr-9'', rp_build_ref = Some ''b2'',
     rp_status = Some ''active'', rp_previous_release_id = None, rp_created_at = Some ''t2'',
     rp_activated_at = Some ''t2'', rp_items = items \<rparr>"


definition sample_versions :: "prompt_version list" where
  "sample_versions = the (dget (pm_versions sample_prompts) ''reply'')"

theorem prompt_versions_wellformed_witness:
  "distinct (map pv_version sample_versions) \<and> length (filter (has_status ''scheduled'') sample_versions) \<le> 1 \<and>
   list_all (\<lambda>v. pv_content_sha256 v = sample_sha (pv_content v)) sample_versions"
proof (rule prompt_versions_wellformed [OF sample_reachable])
  have "dget (pm_versions sample_prompts) ''reply'' \<noteq> None" by code_simp
  then show "dget (pm_versions sample_prompts) ''reply'' = Some sample_versions"
    by (auto simp: sample_versions_def)
qed

definition sample_sync :: "(py_error + sync_report) \<times> prompts" where
  "sample_sync = sync_prompt_release sample_sha (sample_release [(''reply'', 2), (''router'', 1)])
     [sample_row ''reply'' 2 ''new text'', sample_row ''router'' 1 ''text of router''] sample_prompts"

theorem prompt_sync_idempotent_witness:
  "\<exists>again. sync_prompt_release sample_sha (sample_release [(''reply'', 2), (''router'', 1)])
      [sample_row ''reply'' 2 ''new text'', sample_row ''router'' 1 ''text of router''] (snd sample_sync) =
        (Inr again, snd sample_sync) \<and> \<not> sr_created again \<and> sr_versions_created again = 0"
proof (rule prompt_sync_idempotent [OF sample_reachable])
  have "\<not> isl (fst sample_sync)" by code_simp
  then show "sync_prompt_release sample_sha (sample_release [(''reply'', 2), (''router'', 1)])
      [sample_row ''reply'' 2 ''new text'', sample_row ''router'' 1 ''text of router''] sample_prompts =
        (Inr (projr (fst sample_sync)), snd sample_sync)"
    by (simp add: sample_sync_def prod_eq_iff)
  show "sr_created (projr (fst sample_sync))" by code_simp
  show "ostr (rp_build_ref (sample_release [(''reply'', 2), (''router'', 1)])) \<noteq> []"
    by (simp add: sample_release_def)
qed

text \<open>
  A synchronisation that raises half-way is not undone: when an active release names a prompt
  the catalog here does not have, the versions of the prompts before it are created and marked
  active already, so the version marked active is not the one of the active release.
\<close>

theorem prompt_sync_failure_not_undone:
  "\<exists>s' r. prompts_reachable sample_sha sample_prompts \<and>
     sync_prompt_release sample_sha (sample_release [(''reply'', 2), (''triage'', 1)])
       [sample_row ''reply'' 2 ''new text'', sample_row ''triage'' 1 ''text''] sample_prompts =
       (Inl (ValueError ''prompt definition missing or retired for synced version: triage''), s') \<and>
     get_active_prompt_release s' = Some r \<and> dget (pr_items r) ''reply'' = Some 1 \<and>
     map pv_version (filter (has_status ''active'') (prompt_versions s' ''reply'')) = [2]"
proof -
  let ?run = "sync_prompt_release sample_sha (sample_release [(''reply'', 2), (''triage'', 1)])
     [sample_row ''reply'' 2 ''new text'', sample_row ''triage'' 1 ''text''] sample_prompts"
  have "fst ?run = Inl (ValueError ''prompt definition missing or retired for synced version: triage'')"
    by code_simp
  moreover have "map_option (\<lambda>r. dget (pr_items r) ''reply'') (get_active_prompt_release (snd ?run)) = Some (Some 1)"
    by code_simp
  moreover have "map pv_version (filter (has_status ''active'') (prompt_versions (snd ?run) ''reply'')) = [2]"
    by code_simp
  ultimately show ?thesis
    using sample_reachable by (intro exI [of _ "snd ?run"]) (auto simp: prod_eq_iff)
qed

definition sample_draft :: "(py_error + prompt_version) \<times> prompts" where
  "sample_draft = create_draft sample_sha ''reply'' ''shorter text'' ''shorten'' 1 ''ann'' ''t2'' sample_prompts"

theorem draft_within_limits_witness:
  "length (pv_content (projr (fst sample_draft))) \<le> 100000 \<and>
   prompt_versions (snd sample_draft) ''reply'' = prompt_versions sample_prompts ''reply'' @ [projr (fst sample_draft)]"
proof -
  have "\<not> isl (fst sample_draft)" by code_simp
  then have run: "create_draft sample_sha ''reply'' ''shorter text'' ''shorten'' 1 ''ann'' ''t2'' sample_prompts =
      (Inr (projr (fst sample_draft)), snd sample_draft)"
    by (simp add: sample_draft_def prod_eq_iff)
  have "strip ''reply'' = ''reply''" by code_simp
  with draft_within_limits [OF sample_reachable run] show ?thesis by simp
qed

end
