(* ===== verification/Assignments.thy ===== *)
theory Assignments
  imports Workspace Slack_Outbox
begin

text \<open>
  The assignment of engineer cases: the versioned update of \<open>InMemoryTicketRepository\<close> and the
  service that dispatches, reassigns and resolves cases (\<open>services/engineer_assignment.py\<close>), with
  the Slack thread bindings of a case.

  An engineer case is modelled by its assignment columns and the ones the service and the
  bindings read. Cases of legacy tickets are taken to be migrated already
  (\<open>_backfill_engineer_cases_from_legacy_ticket\<close> is not modelled).
\<close>

section \<open>Versioned writes\<close>

text \<open>
  Optimistic concurrency: a write names the version it read and is refused when the row has moved
  on. The client's lemma is that of several writers that read the same version at most one wins.
\<close>

fun versioned_run ::
  "('k \<Rightarrow> int option \<Rightarrow> 'a \<Rightarrow> 's \<Rightarrow> bool \<times> 's) \<Rightarrow> ('k \<times> int option \<times> 'a) list \<Rightarrow> 's
    \<Rightarrow> ('k \<times> int option) list \<times> 's" where
  "versioned_run wr [] s = ([], s)"
| "versioned_run wr ((k, e, a) # ops) s =
     (let (ok, s') = wr k e a s; (ws, s'') = versioned_run wr ops s'
      in (if ok then (k, e) # ws else ws, s''))"

locale versioned =
  fixes version :: "'s \<Rightarrow> 'r \<Rightarrow> int option"
    and key :: "'k \<Rightarrow> 'r"
    and put :: "'k \<Rightarrow> int option \<Rightarrow> 'a \<Rightarrow> 's \<Rightarrow> bool \<times> 's"
  assumes write_version:
      "fst (put k e a s) \<Longrightarrow> \<exists>v. version s (key k) = Some v \<and> (e = None \<or> e = Some v) \<and>
         version (snd (put k e a s)) (key k) = Some (v + 1)"
    and write_refused: "\<not> fst (put k e a s) \<Longrightarrow> version (snd (put k e a s)) j = version s j"
    and write_other: "j \<noteq> key k \<Longrightarrow> version (snd (put k e a s)) j = version s j"
begin

lemma step_version:
  "version (snd (put k e a s)) j =
     (if j = key k \<and> fst (put k e a s) then map_option ((+) 1) (version s j) else version s j)"
  using write_version [of k e a s] write_refused [of k e a s] write_other [of j k e a s] by auto

text \<open>The version counts the accepted writes.\<close>

lemma version_counts:
  "version s j = Some v \<Longrightarrow>
     version (snd (versioned_run put ops s)) j =
       Some (v + int (length (filter (\<lambda>w. key (fst w) = j) (fst (versioned_run put ops s)))))"
proof (induction ops arbitrary: s v)
  case (Cons p ops)
  obtain k e a where p: "p = (k, e, a)" by (cases p)
  let ?s = "snd (put k e a s)"
  let ?v = "if j = key k \<and> fst (put k e a s) then v + 1 else v"
  have "version ?s j = Some ?v" using Cons.prems by (auto simp: step_version)
  from Cons.IH [OF this] show ?case by (auto simp: p split_def Let_def)
qed simp

text \<open>No accepted write names a version older than the one at the start.\<close>

lemma accepted_not_older:
  "version s j = Some v \<Longrightarrow> (k, Some e) \<in> set (fst (versioned_run put ops s)) \<Longrightarrow> key k = j \<Longrightarrow> v \<le> e"
proof (induction ops arbitrary: s v)
  case (Cons p ops)
  obtain k' e' a where p: "p = (k', e', a)" by (cases p)
  let ?s = "snd (put k' e' a s)"
  let ?v = "if j = key k' \<and> fst (put k' e' a s) then v + 1 else v"
  have s: "version ?s j = Some ?v" using Cons.prems(1) by (auto simp: step_version)
  show ?case
  proof (cases "fst (put k' e' a s) \<and> (k, Some e) = (k', e')")
    case True
    with write_version [of k' e' a s] Cons.prems show ?thesis by auto
  next
    case False
    with Cons.prems(2) have "(k, Some e) \<in> set (fst (versioned_run put ops ?s))"
      by (auto simp: p split_def Let_def split: if_splits)
    from Cons.IH [OF s this Cons.prems(3)] show ?thesis by (simp split: if_splits)
  qed
qed simp

text \<open>At most one write per version is accepted.\<close>

lemma one_writer_per_version:
  "length (filter (\<lambda>w. key (fst w) = j \<and> snd w = Some e) (fst (versioned_run put ops s))) \<le> 1"
proof (induction ops arbitrary: s)
  case (Cons p ops)
  obtain k' e' a where p: "p = (k', e', a)" by (cases p)
  let ?s = "snd (put k' e' a s)"
  show ?case
  proof (cases "fst (put k' e' a s) \<and> key k' = j \<and> e' = Some e")
    case True
    with write_version [of k' e' a s] have "version ?s j = Some (e + 1)" by auto
    then have "filter (\<lambda>w. key (fst w) = j \<and> snd w = Some e) (fst (versioned_run put ops ?s)) = []"
      using accepted_not_older [of ?s j "e + 1" _ e ops] by (force simp: filter_empty_conv)
    with True show ?thesis by (simp add: p split_def Let_def)
  next
    case False
    with Cons.IH [of ?s] show ?thesis by (auto simp: p split_def Let_def)
  qed
qed simp

end

section \<open>Engineer cases\<close>

record engineer_case =
  ec_engineer_case_id :: string
  ec_status :: "string option"
  ec_investigation_state :: "string option"
  ec_closed_at :: "string option"
  ec_updated_at :: string
  ec_assignment_status :: "string option"
  ec_assigned_engineer_id :: "string option"
  ec_assigned_at :: "string option"
  ec_sla_due_at :: "string option"
  ec_attempt_count :: int
  ec_previous_assignees :: "string list"
  ec_last_reason :: "string option"
  ec_dispatch_status :: "string option"
  ec_assignment_updated_at :: "string option"
  ec_version :: int

record case_event =
  ce_case_id :: string
  ce_type :: string
  ce_event_payload :: jdict
  ce_at :: string

record desk =
  dk_cases :: "(string, engineer_case) dict"
  dk_events :: "case_event list"
  dk_workspace :: workspace

definition normalize_status :: "string option \<Rightarrow> string" where
  "normalize_status value =
     (let status = slower (or_else (ostr value) ''open'')
      in if status = ''waiting_for_engineer'' then ''investigating''
         else if status \<in> {''open'', ''communicating'', ''escalated'', ''investigating'', ''resolved''}
         then status else ''open'')"

definition normalize_assignment_status :: "string option \<Rightarrow> string option \<Rightarrow> string" where
  "normalize_assignment_status value assigned_engineer_id =
     (let status = olower value
      in if status \<in> {''pending'', ''assigned'', ''resolved''} then status
         else if ostrip assigned_engineer_id \<noteq> [] then ''assigned'' else ''pending'')"

definition normalize_dispatch_status :: "string option \<Rightarrow> string option \<Rightarrow> string" where
  "normalize_dispatch_status value assignment_status =
     (let status = olower value
      in if status \<in> {''pending'', ''assigned'', ''failed'', ''resolved''} then status
         else normalize_assignment_status assignment_status None)"

definition normalize_previous_assignees :: "string list \<Rightarrow> string list" where
  "normalize_previous_assignees xs =
     fold (\<lambda>x acc. let i = strip x in if i \<noteq> [] \<and> i \<notin> set acc then acc @ [i] else acc) xs []"

definition safe_non_negative :: "int \<Rightarrow> int" where
  "safe_non_negative n = (if 0 \<le> n then n else 0)"

definition normalize_investigation_state :: "string option \<Rightarrow> string" where
  "normalize_investigation_state value =
     (let state = slower (or_else (ostr value) ''active'')
      in if state \<in> {''active'', ''awaiting_confirmation'', ''awaiting_final_approval'', ''closed''}
         then state else ''active'')"

definition record_engineer_case_event ::
  "string \<Rightarrow> string \<Rightarrow> jdict \<Rightarrow> string \<Rightarrow> case_event list \<Rightarrow> case_event list" where
  "record_engineer_case_event engineer_case_id event_type payload now log =
     log @ [\<lparr> ce_case_id = engineer_case_id, ce_type = event_type, ce_event_payload = payload,
              ce_at = or_else (jstr (jget payload ''created_at'')) now \<rparr>]"

definition list_engineer_case_events :: "string \<Rightarrow> int \<Rightarrow> case_event list \<Rightarrow> case_event list" where
  "list_engineer_case_events engineer_case_id limit log =
     take (nat (if 0 < limit then limit else 100))
       (filter (\<lambda>e. strip (ce_case_id e) = strip engineer_case_id) (rev log))"

definition claim_engineer_case :: "string \<Rightarrow> string \<Rightarrow> string \<Rightarrow> (desk, bool) op" where
  "claim_engineer_case engineer_case_id engineer_id updated_at d =
     (let k = strip engineer_case_id; e = strip engineer_id
      in case dget (dk_cases d) k of
           None \<Rightarrow> (Inr False, d)
         | Some c \<Rightarrow>
             let current = ostrip (ec_assigned_engineer_id c)
             in if e = [] \<or> normalize_status (ec_status c) = ''resolved'' \<or>
                   (current \<noteq> [] \<and> current \<noteq> e)
                then (Inr False, d)
                else (Inr True, d\<lparr>dk_cases := dset k
                        (c\<lparr>ec_assigned_engineer_id := Some e, ec_updated_at := updated_at\<rparr>)
                        (dk_cases d)\<rparr>))"

text \<open>The keyword arguments of \<open>update_engineer_case_assignment\<close>.\<close>

record assignment_update =
  as_expected_version :: "int option"
  as_status :: string
  as_engineer_id :: "string option"
  as_assigned_at :: "string option"
  as_sla_due_at :: "string option"
  as_reason :: string
  as_updated_at :: string
  as_actor :: string
  as_event_type :: string
  as_dispatch_status :: "string option"

definition assigned_case :: "assignment_update \<Rightarrow> engineer_case \<Rightarrow> engineer_case" where
  "assigned_case a c =
     (let status = normalize_assignment_status (Some (as_status a)) None;
          engineer = or_none (ostrip (as_engineer_id a));
          previous = or_none (ostrip (ec_assigned_engineer_id c));
          assignees = normalize_previous_assignees (ec_previous_assignees c)
      in c\<lparr> ec_assignment_status := Some status,
            ec_assigned_engineer_id := engineer,
            ec_assigned_at := (if status = ''assigned'' then as_assigned_at a
                               else if status = ''resolved'' then ec_assigned_at c else None),
            ec_sla_due_at := (if status = ''assigned'' then as_sla_due_at a else None),
            ec_attempt_count :=
              safe_non_negative (ec_attempt_count c) + (if status = ''assigned'' then 1 else 0),
            ec_previous_assignees :=
              (case previous of None \<Rightarrow> assignees
               | Some p \<Rightarrow> if previous \<noteq> engineer \<and> p \<notin> set assignees then assignees @ [p]
                           else assignees),
            ec_last_reason := Some (or_else (strip (as_reason a)) ''assignment_update''),
            ec_dispatch_status := Some (normalize_dispatch_status (as_dispatch_status a) (Some status)),
            ec_assignment_updated_at := Some (as_updated_at a),
            ec_version := safe_non_negative (ec_version c) + 1,
            ec_updated_at := as_updated_at a \<rparr>)"

definition assignment_event :: "string \<Rightarrow> assignment_update \<Rightarrow> engineer_case \<Rightarrow> jdict" where
  "assignment_event k a c =
     (let status = normalize_assignment_status (Some (as_status a)) None;
          previous = or_none (ostrip (ec_assigned_engineer_id c))
      in [(''event'', JStr (or_else (as_event_type a) ''engineer_case_assignment_changed'')),
          (''engineer_case_id'', JStr k),
          (''actor'', JStr (or_else (strip (or_else (as_actor a) ''system'')) ''system'')),
          (''reason'', JStr (or_else (strip (as_reason a)) ''assignment_update'')),
          (''previous_assignment_status'',
             JStr (normalize_assignment_status (ec_assignment_status c) previous)),
          (''assignment_status'', JStr status),
          (''previous_assigned_engineer_id'', of_opt previous),
          (''assigned_engineer_id'', of_opt (or_none (ostrip (as_engineer_id a)))),
          (''assignment_version'', JInt (safe_non_negative (ec_version c) + 1)),
          (''created_at'', JStr (as_updated_at a))])"

text \<open>The case as the repository returns it: the assignment part of its header.\<close>

definition case_header :: "engineer_case \<Rightarrow> engineer_case" where
  "case_header c =
     (let status = normalize_assignment_status (ec_assignment_status c) (ec_assigned_engineer_id c)
      in c\<lparr> ec_engineer_case_id := strip (ec_engineer_case_id c),
            ec_status := Some (normalize_status (ec_status c)),
            ec_assignment_status := Some status,
            ec_assigned_engineer_id := or_none (ostrip (ec_assigned_engineer_id c)),
            ec_assigned_at := or_none (ostr (ec_assigned_at c)),
            ec_sla_due_at := or_none (ostr (ec_sla_due_at c)),
            ec_attempt_count := safe_non_negative (ec_attempt_count c),
            ec_previous_assignees := normalize_previous_assignees (ec_previous_assignees c),
            ec_last_reason := or_none (ostrip (ec_last_reason c)),
            ec_dispatch_status := Some (normalize_dispatch_status (ec_dispatch_status c) (Some status)),
            ec_assignment_updated_at := or_none (ostr (ec_assignment_updated_at c)),
            ec_version := safe_non_negative (ec_version c) \<rparr>)"

definition get_engineer_case :: "string \<Rightarrow> desk \<Rightarrow> engineer_case option" where
  "get_engineer_case engineer_case_id d =
     map_option case_header (dget (dk_cases d) (strip engineer_case_id))"

definition list_engineer_case_headers :: "desk \<Rightarrow> engineer_case list" where
  "list_engineer_case_headers d = map case_header (dvalues (dk_cases d))"

definition update_engineer_case_assignment ::
  "string \<Rightarrow> assignment_update \<Rightarrow> (desk, engineer_case option) op" where
  "update_engineer_case_assignment engineer_case_id a d =
     (let k = strip engineer_case_id;
          status = normalize_assignment_status (Some (as_status a)) None
      in if k = [] then (Inr None, d)
         else if status = ''assigned'' \<and> ostrip (as_engineer_id a) = []
         then (Inl (ValueError ''assigned_engineer_id is required for assigned cases''), d)
         else case dget (dk_cases d) k of
             None \<Rightarrow> (Inr None, d)
           | Some c \<Rightarrow>
               if as_expected_version a \<noteq> None \<and>
                  as_expected_version a \<noteq> Some (safe_non_negative (ec_version c))
               then (Inr None, d)
               else let d' = d\<lparr>dk_cases := dset k (assigned_case a c) (dk_cases d),
                              dk_events := record_engineer_case_event k
                                (or_else (as_event_type a) ''engineer_case_assignment_changed'')
                                (assignment_event k a c) (as_updated_at a) (dk_events d)\<rparr>
                    in (Inr (get_engineer_case k d'), d'))"

definition case_version :: "desk \<Rightarrow> string \<Rightarrow> int option" where
  "case_version d k = map_option (\<lambda>c. safe_non_negative (ec_version c)) (dget (dk_cases d) k)"

definition assignment_write :: "string \<Rightarrow> int option \<Rightarrow> assignment_update \<Rightarrow> desk \<Rightarrow> bool \<times> desk" where
  "assignment_write k e a d =
     (let res = update_engineer_case_assignment k (a\<lparr>as_expected_version := e\<rparr>) d
      in (case fst res of Inr (Some _) \<Rightarrow> True | _ \<Rightarrow> False, snd res))"

lemma assigned_version: "ec_version (assigned_case a c) = safe_non_negative (ec_version c) + 1"
  by (simp add: assigned_case_def Let_def)

lemma safe_non_negative_Suc [simp]:
  "safe_non_negative (safe_non_negative n + 1) = safe_non_negative n + 1"
  "safe_non_negative (safe_non_negative n) = safe_non_negative n"
  by (simp_all add: safe_non_negative_def)

interpretation assignments: versioned case_version strip assignment_write
proof (unfold_locales, goal_cases)
  case (1 k e a s)
  then show ?case
    by (auto simp: assignment_write_def update_engineer_case_assignment_def case_version_def
        dget_dset assigned_version Let_def split: option.splits if_splits)
next
  case (2 k e a s j)
  then show ?case
    by (auto simp: assignment_write_def update_engineer_case_assignment_def case_version_def
        get_engineer_case_def dget_dset Let_def split: option.splits if_splits)
next
  case (3 j k e a s)
  then show ?case
    by (auto simp: assignment_write_def update_engineer_case_assignment_def case_version_def
        dget_dset Let_def split: option.splits)
qed

section \<open>The assignment service\<close>

text \<open>\<open>_parse_datetime\<close>: the instant in UTC, \<open>None\<close> when empty or malformed.\<close>

definition parse_datetime :: "string option \<Rightarrow> int option" where
  "parse_datetime value =
     (let text = ostrip value in if text = [] then None else map_option utc_instant (parse_iso text))"

text \<open>The least recently assigned first; an account never assigned sorts as year 1.\<close>

definition candidate_key :: "account \<Rightarrow> int \<times> string" where
  "candidate_key a =
     (case parse_datetime (ac_last_assigned_at a) of None \<Rightarrow> 0 | Some t \<Rightarrow> t, ac_account_id a)"

definition eligible_accounts :: "zones \<Rightarrow> int \<Rightarrow> workspace \<Rightarrow> account list" where
  "eligible_accounts zone now w =
     (let on_schedule = on_schedule_engineer_ids zone (list_engineer_schedules w) now
      in filter (\<lambda>a. slower (ac_role a) = ''engineer'' \<and> ac_active a \<and>
                     strip (ac_account_id a) \<in> set on_schedule) (list_workspace_accounts w))"

definition dispatch_candidates :: "zones \<Rightarrow> int \<Rightarrow> string \<Rightarrow> workspace \<Rightarrow> account list" where
  "dispatch_candidates zone now current w =
     (let eligible = eligible_accounts zone now w;
          candidates = filter (\<lambda>a. strip (ac_account_id a) \<noteq> current) eligible
      in sort_key candidate_key (if candidates = [] \<and> current = [] then eligible else candidates))"

definition assignment_event_type :: "string \<Rightarrow> string \<Rightarrow> string" where
  "assignment_event_type reason current =
     (if reason = ''sla_expired'' then ''engineer_case_sla_reassigned''
      else if reason = ''engineer_off_schedule'' then ''engineer_case_schedule_reassigned''
      else if current = [] then ''engineer_case_assigned'' else ''engineer_case_reassigned'')"

text \<open>The account the service saves back: every key present, the assignment time renewed.\<close>

definition touched_account :: "account \<Rightarrow> string \<Rightarrow> account_input" where
  "touched_account a now_iso =
     \<lparr> ai_account_id = Some (ac_account_id a), ai_email = Some (ac_email a),
       ai_display_name = Some (ac_display_name a), ai_role = Some (ac_role a),
       ai_password_hash = Some (ac_password_hash a), ai_active = Some (ac_active a),
       ai_last_assigned_at = Some (Some now_iso), ai_created_at = Some (ac_created_at a),
       ai_updated_at = Some now_iso \<rparr>"

text \<open>The two updates a dispatch makes: back to pending, or to the selected engineer.\<close>

definition pending_update :: "int \<Rightarrow> string \<Rightarrow> string \<Rightarrow> string \<Rightarrow> assignment_update" where
  "pending_update expected_version reason actor now_iso =
     \<lparr> as_expected_version = Some expected_version, as_status = ''pending'',
       as_engineer_id = None, as_assigned_at = None, as_sla_due_at = None,
       as_reason = (if reason = ''engineer_off_schedule'' then ''engineer_off_schedule''
                    else ''no_on_schedule_engineer''),
       as_updated_at = now_iso, as_actor = actor,
       as_event_type =
         (if reason = ''engineer_off_schedule'' then ''engineer_case_schedule_reassigned''
          else ''engineer_case_dispatch_pending''),
       as_dispatch_status = Some ''pending'' \<rparr>"

definition selected_update ::
  "int \<Rightarrow> account \<Rightarrow> string \<Rightarrow> string \<Rightarrow> string \<Rightarrow> int \<Rightarrow> int \<Rightarrow> assignment_update" where
  "selected_update expected_version selected reason actor current now sla_hours =
     \<lparr> as_expected_version = Some expected_version, as_status = ''assigned'',
       as_engineer_id = Some (strip (ac_account_id selected)),
       as_assigned_at = Some (isoformat now),
       as_sla_due_at = Some (isoformat (now + max 1 sla_hours * 3600000000)),
       as_reason = reason, as_updated_at = isoformat now, as_actor = actor,
       as_event_type = assignment_event_type reason current,
       as_dispatch_status = Some ''assigned'' \<rparr>"

definition dispatch_case ::
  "zones \<Rightarrow> int \<Rightarrow> int \<Rightarrow> string \<Rightarrow> string \<Rightarrow> string \<Rightarrow> (desk, engineer_case option) op" where
  "dispatch_case zone sla_hours now engineer_case_id reason actor d =
     (case get_engineer_case engineer_case_id d of
        None \<Rightarrow> (Inr None, d)
      | Some c \<Rightarrow>
          if ostr (ec_assignment_status c) = ''resolved'' then (Inr (Some c), d)
          else
            let current = ostrip (ec_assigned_engineer_id c)
            in case dispatch_candidates zone now current (dk_workspace d) of
                 [] \<Rightarrow>
                   if ostr (ec_assignment_status c) = ''pending'' \<and> current = [] then (Inr (Some c), d)
                   else update_engineer_case_assignment engineer_case_id
                     (pending_update (ec_version c) reason actor (isoformat now)) d
               | selected # _ \<Rightarrow>
                   (case update_engineer_case_assignment engineer_case_id
                       (selected_update (ec_version c) selected reason actor current now sla_hours) d of
                      (Inl e, d') \<Rightarrow> (Inl e, d')
                    | (Inr None, d') \<Rightarrow> (Inr None, d')
                    | (Inr (Some updated), d') \<Rightarrow>
                        (case save_workspace_account (touched_account selected (isoformat now))
                            (isoformat now) (dk_workspace d') of
                           (Inl e, w) \<Rightarrow> (Inl e, d'\<lparr>dk_workspace := w\<rparr>)
                         | (Inr _, w) \<Rightarrow> (Inr (Some updated), d'\<lparr>dk_workspace := w\<rparr>))))"

definition resolve_case ::
  "int \<Rightarrow> string \<Rightarrow> string \<Rightarrow> string \<Rightarrow> (desk, engineer_case option) op" where
  "resolve_case now engineer_case_id actor reason d =
     (case get_engineer_case engineer_case_id d of
        None \<Rightarrow> (Inr None, d)
      | Some c \<Rightarrow>
          update_engineer_case_assignment engineer_case_id
            \<lparr> as_expected_version = Some (ec_version c), as_status = ''resolved'',
              as_engineer_id = or_none (ostrip (ec_assigned_engineer_id c)), as_assigned_at = None,
              as_sla_due_at = None, as_reason = reason, as_updated_at = isoformat now,
              as_actor = actor, as_event_type = ''engineer_case_assignment_resolved'',
              as_dispatch_status = Some ''resolved'' \<rparr> d)"

text \<open>
  A pass over a snapshot of the headers: the operation runs on each case that qualifies, and the
  first exception ends the pass.
\<close>

fun for_each_case ::
  "(engineer_case \<Rightarrow> bool) \<Rightarrow> (string \<Rightarrow> (desk, engineer_case option) op) \<Rightarrow> engineer_case list
    \<Rightarrow> (desk, engineer_case list) op" where
  "for_each_case P f [] d = (Inr [], d)"
| "for_each_case P f (c # cs) d =
     (if \<not> P c then for_each_case P f cs d
      else case f (ec_engineer_case_id c) d of
          (Inl e, d') \<Rightarrow> (Inl e, d')
        | (Inr r, d') \<Rightarrow>
            (case for_each_case P f cs d' of
               (Inl e, d'') \<Rightarrow> (Inl e, d'')
             | (Inr rs, d'') \<Rightarrow> (Inr (case r of None \<Rightarrow> rs | Some x \<Rightarrow> x # rs), d'')))"

definition dispatch_pending_cases :: "zones \<Rightarrow> int \<Rightarrow> int \<Rightarrow> (desk, engineer_case list) op" where
  "dispatch_pending_cases zone sla_hours now d =
     for_each_case (\<lambda>c. ostr (ec_assignment_status c) = ''pending'')
       (\<lambda>k. dispatch_case zone sla_hours now k ''round_robin'' ''assignment-service'')
       (list_engineer_case_headers d) d"

definition reassign_due_cases :: "zones \<Rightarrow> int \<Rightarrow> int \<Rightarrow> (desk, engineer_case list) op" where
  "reassign_due_cases zone sla_hours now d =
     for_each_case (\<lambda>c. ostr (ec_assignment_status c) = ''assigned'' \<and>
                       (case parse_datetime (ec_sla_due_at c) of None \<Rightarrow> False | Some t \<Rightarrow> t \<le> now))
       (\<lambda>k. dispatch_case zone sla_hours now k ''sla_expired'' ''assignment-service'')
       (list_engineer_case_headers d) d"

definition reassign_off_schedule_cases :: "zones \<Rightarrow> int \<Rightarrow> int \<Rightarrow> (desk, engineer_case list) op" where
  "reassign_off_schedule_cases zone sla_hours now d =
     (let w = dk_workspace d;
          on_schedule = on_schedule_engineer_ids zone (list_engineer_schedules w) now;
          on_duty = (\<lambda>i. \<exists>a \<in> set (list_workspace_accounts w).
            strip (ac_account_id a) \<noteq> [] \<and> strip (ac_account_id a) = i \<and> ac_active a \<and> i \<in> set on_schedule)
      in for_each_case (\<lambda>c. ostr (ec_assignment_status c) = ''assigned'' \<and>
                           \<not> on_duty (ostrip (ec_assigned_engineer_id c)))
           (\<lambda>k. dispatch_case zone sla_hours now k ''engineer_off_schedule'' ''assignment-service'')
           (list_engineer_case_headers d) d)"

definition resolve_closed_cases :: "int \<Rightarrow> (desk, engineer_case list) op" where
  "resolve_closed_cases now d =
     for_each_case (\<lambda>c. ostr (ec_assignment_status c) \<noteq> ''resolved'' \<and>
                       (olower (ec_status c) = ''resolved'' \<or> ec_closed_at c \<noteq> None))
       (\<lambda>k. resolve_case now k ''assignment-service'' ''case_closed_reconciliation'')
       (list_engineer_case_headers d) d"

section \<open>Slack thread bindings\<close>

definition case_active :: "(string, engineer_case) dict \<Rightarrow> string \<Rightarrow> bool" where
  "case_active cases k =
     (case dget cases k of None \<Rightarrow> False
      | Some c \<Rightarrow> normalize_investigation_state (ec_investigation_state c) \<noteq> ''closed'')"

text \<open>The channel and thread of the delivered opening event of a case, and whether it is open.\<close>

definition get_engineer_slack_thread_binding ::
  "string \<Rightarrow> bool \<Rightarrow> (string, engineer_case) dict \<Rightarrow> engineer_outbox \<Rightarrow> (string \<times> string \<times> string \<times> bool) option" where
  "get_engineer_slack_thread_binding engineer_case_id active_only cases events =
     (let k = strip engineer_case_id; active = case_active cases k
      in if active_only \<and> \<not> active then None
         else map_option (\<lambda>e. (k, ostrip (ee_slack_channel_id e), ostrip (ee_slack_thread_ts e), active))
           (find (\<lambda>e. strip (ee_engineer_case_id e) = k \<and> strip (ee_event_type e) = ''engineer_case_opened'' \<and>
                      slower (ee_status e) = ''delivered'' \<and> ostrip (ee_slack_channel_id e) \<noteq> [] \<and>
                      ostrip (ee_slack_thread_ts e) \<noteq> []) (dvalues events)))"

definition resolve_engineer_slack_thread_binding ::
  "string \<Rightarrow> string \<Rightarrow> (string, engineer_case) dict \<Rightarrow> engineer_outbox \<Rightarrow> (string \<times> string \<times> string \<times> bool) option" where
  "resolve_engineer_slack_thread_binding slack_channel_id slack_thread_ts cases events =
     (let channel = strip slack_channel_id; thread = strip slack_thread_ts
      in case find (\<lambda>e. strip (ee_event_type e) = ''engineer_case_opened'' \<and>
                        slower (ee_status e) = ''delivered'' \<and> ostrip (ee_slack_channel_id e) = channel \<and>
                        ostrip (ee_slack_thread_ts e) = thread) (dvalues events) of
           None \<Rightarrow> None
         | Some e \<Rightarrow>
             let k = strip (ee_engineer_case_id e)
             in if case_active cases k then Some (k, channel, thread, True) else None)"

section \<open>Lemmas\<close>

lemma isoformat_not_Nil [simp]: "isoformat t \<noteq> []"
proof -
  have "length (show_num 4 y) = 4" for y by simp
  then have "show_num 4 y \<noteq> []" for y by (metis length_0_conv zero_neq_numeral)
  then show ?thesis by (simp add: isoformat_def iso_text_def split_def Let_def)
qed

lemma assignment_literals [simp]:
  "normalize_assignment_status (Some ''pending'') x = ''pending''"
  "normalize_assignment_status (Some ''assigned'') x = ''assigned''"
  "normalize_assignment_status (Some ''resolved'') x = ''resolved''"
proof -
  have "olower (Some ''pending'') = ''pending''" "olower (Some ''assigned'') = ''assigned''"
    "olower (Some ''resolved'') = ''resolved''" by code_simp+
  then show "normalize_assignment_status (Some ''pending'') x = ''pending''"
    "normalize_assignment_status (Some ''assigned'') x = ''assigned''"
    "normalize_assignment_status (Some ''resolved'') x = ''resolved''"
    by (simp_all add: normalize_assignment_status_def)
qed

text \<open>What an accepted update returns: the header of the updated case.\<close>

lemma update_result:
  assumes "update_engineer_case_assignment k a d = (Inr (Some u), d')"
  shows "\<exists>c. dget (dk_cases d) (strip k) = Some c \<and> u = case_header (assigned_case a c) \<and>
             dk_workspace d' = dk_workspace d"
  using assms
  by (auto simp: update_engineer_case_assignment_def get_engineer_case_def dget_dset Let_def
      split: option.splits if_splits)

lemma ostrip_Some_strip [simp]: "ostrip (Some s) = strip s" "ostrip None = []"
  by (simp_all add: ostrip_def)

lemma or_none_stripped [simp]: "or_none (ostrip (or_none s)) = or_none (strip s)"
  by (simp add: or_none_def)

lemma header_assigned:
  assumes "normalize_assignment_status (Some (as_status a)) None = ''assigned''"
  shows "ec_assignment_status (case_header (assigned_case a c)) = Some ''assigned''"
    "ec_assigned_engineer_id (case_header (assigned_case a c)) = or_none (ostrip (as_engineer_id a))"
    "ec_sla_due_at (case_header (assigned_case a c)) = or_none (ostr (as_sla_due_at a))"
  using assms by (simp_all add: case_header_def assigned_case_def Let_def ostrip_def)

lemma header_pending:
  assumes "normalize_assignment_status (Some (as_status a)) None = ''pending''"
  shows "ec_assignment_status (case_header (assigned_case a c)) = Some ''pending''"
    "ec_assigned_engineer_id (case_header (assigned_case a c)) = or_none (ostrip (as_engineer_id a))"
  using assms by (simp_all add: case_header_def assigned_case_def Let_def ostrip_def)

lemma candidates_spec:
  assumes "dispatch_candidates zone now current w = a # rest"
  shows "a \<in> set (eligible_accounts zone now w)" "current = [] \<or> strip (ac_account_id a) \<noteq> current"
    "b \<in> set (eligible_accounts zone now w) \<Longrightarrow> strip (ac_account_id b) \<noteq> current \<Longrightarrow>
       candidate_key a \<le> candidate_key b"
proof -
  let ?e = "eligible_accounts zone now w"
  let ?c = "filter (\<lambda>a. strip (ac_account_id a) \<noteq> current) ?e"
  let ?l = "if ?c = [] \<and> current = [] then ?e else ?c"
  have l: "sort_key candidate_key ?l = a # rest"
    using assms by (simp add: dispatch_candidates_def Let_def)
  have s: "set (a # rest) = set ?l" by (simp flip: l)
  have m: "sorted (map candidate_key (a # rest))" by (simp flip: l)
  from s have a: "a \<in> set ?l" by auto
  then show "a \<in> set ?e" by (auto split: if_splits)
  from a show "current = [] \<or> strip (ac_account_id a) \<noteq> current" by (auto split: if_splits)
  show "candidate_key a \<le> candidate_key b"
    if "b \<in> set ?e" "strip (ac_account_id b) \<noteq> current" for b
  proof -
    from that have "b \<in> set ?l" by auto
    with s have "b \<in> set (a # rest)" by simp
    with m show ?thesis by auto
  qed
qed

lemma dispatch_none:
  assumes "get_engineer_case k d = Some c" "ostr (ec_assignment_status c) \<noteq> ''resolved''"
    and "dispatch_candidates zone now (ostrip (ec_assigned_engineer_id c)) (dk_workspace d) = []"
  shows "dispatch_case zone hours now k reason actor d =
     (if ostr (ec_assignment_status c) = ''pending'' \<and> ostrip (ec_assigned_engineer_id c) = []
      then (Inr (Some c), d)
      else update_engineer_case_assignment k (pending_update (ec_version c) reason actor (isoformat now)) d)"
  using assms by (simp add: dispatch_case_def)

lemma dispatch_some:
  assumes "get_engineer_case k d = Some c" "ostr (ec_assignment_status c) \<noteq> ''resolved''"
    and "dispatch_candidates zone now (ostrip (ec_assigned_engineer_id c)) (dk_workspace d) = s # rest"
    and "dispatch_case zone hours now k reason actor d = (Inr (Some u), d')"
  shows "\<exists>d1. update_engineer_case_assignment k (selected_update (ec_version c) s reason actor
           (ostrip (ec_assigned_engineer_id c)) now hours) d = (Inr (Some u), d1)"
proof -
  let ?a = "selected_update (ec_version c) s reason actor (ostrip (ec_assigned_engineer_id c)) now hours"
  obtain res d1 where up: "update_engineer_case_assignment k ?a d = (res, d1)"
    by (cases "update_engineer_case_assignment k ?a d")
  obtain sv w where sv: "save_workspace_account (touched_account s (isoformat now)) (isoformat now)
      (dk_workspace d1) = (sv, w)"
    by (cases "save_workspace_account (touched_account s (isoformat now)) (isoformat now) (dk_workspace d1)")
  have "res = Inr (Some u)"
  proof (cases res)
    case (Inl e)
    with assms up show ?thesis by (simp add: dispatch_case_def)
  next
    case (Inr r)
    with assms up sv show ?thesis
      by (cases r; cases sv) (simp_all add: dispatch_case_def)
  qed
  with up show ?thesis by blast
qed

lemma header_unassigned:
  "get_engineer_case k d = Some c \<Longrightarrow> ostrip (ec_assigned_engineer_id c) = [] \<Longrightarrow>
     ec_assigned_engineer_id c = None"
proof -
  assume "get_engineer_case k d = Some c" and e: "ostrip (ec_assigned_engineer_id c) = []"
  then obtain c' where "c = case_header c'" by (auto simp: get_engineer_case_def)
  then have "ec_assigned_engineer_id c = or_none (ostrip (ec_assigned_engineer_id c'))"
    by (simp add: case_header_def Let_def)
  with e show ?thesis by (simp add: or_none_def ostrip_def split: if_splits)
qed

definition sample_engineer :: "string \<Rightarrow> string option \<Rightarrow> account" where
  "sample_engineer i at =
     \<lparr> ac_account_id = i, ac_email = Some (i @ ''@example.com''), ac_display_name = i, ac_role = ''engineer'',
       ac_password_hash = ''x'', ac_active = True, ac_last_assigned_at = at,
       ac_created_at = ''t0'', ac_updated_at = ''t0'' \<rparr>"

definition sample_shift :: "string \<Rightarrow> shift" where
  "sample_shift i =
     \<lparr> sh_engineer_id = i, sh_weekday = 0, sh_start_minute = 0, sh_end_minute = 1440,
       sh_timezone = ''UTC'', sh_updated_by = ''admin'', sh_updated_at = ''t0'' \<rparr>"

text \<open>Two engineers on duty, one of whom was assigned a case earlier, and a pending case.\<close>

definition sample_desk :: desk where
  "sample_desk =
     \<lparr> dk_cases = [(''case-1'', \<lparr> ec_engineer_case_id = ''case-1'', ec_status = Some ''open'',
         ec_investigation_state = None, ec_closed_at = None, ec_updated_at = ''t0'',
         ec_assignment_status = Some ''pending'', ec_assigned_engineer_id = None, ec_assigned_at = None,
         ec_sla_due_at = None, ec_attempt_count = 0, ec_previous_assignees = [], ec_last_reason = None,
         ec_dispatch_status = Some ''pending'', ec_assignment_updated_at = None, ec_version = 0 \<rparr>)],
       dk_events = [],
       dk_workspace = \<lparr> ws_accounts = [(''ann'', sample_engineer ''ann'' (Some ''0001-01-01T00:00:09+00:00'')),
           (''bob'', sample_engineer ''bob'' None)],
         ws_invitations = [], ws_schedules = [((''ann'', 0), sample_shift ''ann''), ((''bob'', 0), sample_shift ''bob'')],
         ws_audit = [] \<rparr> \<rparr>"

definition sample_dispatch :: "(py_error + engineer_case option) \<times> desk" where
  "sample_dispatch = dispatch_case (\<lambda>z t. 0) 8 60000000 ''case-1'' ''round_robin'' ''assignment-service'' sample_desk"

lemma sample_dispatched:
  "(case fst sample_dispatch of Inr (Some u) \<Rightarrow> ec_assigned_engineer_id u = Some ''bob'' | _ \<Rightarrow> False)"
  by code_simp
lemma sample_unassigned:
  "map_option (\<lambda>c. ostrip (ec_assigned_engineer_id c)) (get_engineer_case ''case-1'' sample_desk) = Some []"
  by code_simp

lemma sample_pending:
  "map_option ec_assignment_status (get_engineer_case ''case-1'' sample_desk) = Some (Some ''pending'')"
  by code_simp

section \<open>Properties\<close>

text \<open>C14
  Concurrent updates of an engineer case that read the same version cannot both succeed: in any
  sequence of updates, at most one that expected version \<open>v\<close> of a case is accepted.
\<close>

theorem one_update_per_version:
  "length (filter (\<lambda>w. strip (fst w) = k \<and> snd w = Some v)
     (fst (versioned_run assignment_write ops d))) \<le> 1"
  by (rule assignments.one_writer_per_version)



end
