(* ===== verification/Reroute_Jobs.thy ===== *)
theory Reroute_Jobs
  imports Fence_Interface Idempotency
begin

text \<open>
  The reroute (rerun) jobs of \<open>InMemoryTicketRepository\<close>: admission of one job at a time with
  idempotent replay, dispatch, the execution lease and its recovery, progress reports fenced by
  the lease token, and the alert of a job that needs recovery.

  A job is a dictionary: a progress report replaces the stored job by the caller's dictionary
  with the protected keys restored.
\<close>

type_synonym reroute_table = "(string, jdict) dict"

text \<open>An entry of \<open>_events\<close>: \<open>record_event\<close> appends, the newest is the last.\<close>

record event =
  ev_ticket_id :: "string option"
  ev_event_type :: string
  ev_payload :: jdict
  ev_created_at :: json

definition record_event :: "string option \<Rightarrow> string \<Rightarrow> jdict \<Rightarrow> string \<Rightarrow> event list \<Rightarrow> event list" where
  "record_event ticket_id event_type payload now events =
     events @ [\<lparr> ev_ticket_id = ticket_id, ev_event_type = event_type, ev_payload = payload,
                 ev_created_at = jor (jget payload ''created_at'') (JStr now) \<rparr>]"

definition reroute_active_statuses :: "string list" where
  "reroute_active_statuses = [''queued'', ''running'']"

definition reroute_terminal_statuses :: "string list" where
  "reroute_terminal_statuses = [''completed'', ''completed_with_errors'', ''failed'', ''needs_recovery'']"

definition job_status :: "jdict \<Rightarrow> string" where
  "job_status job = jstr (jget job ''status'')"

definition job_dispatch :: "jdict \<Rightarrow> string" where
  "job_dispatch job = jstr (jget job ''dispatch_status'')"

section \<open>Admission\<close>

definition latest_job :: "string \<Rightarrow> string \<Rightarrow> event list \<Rightarrow> string \<Rightarrow> json" where
  "latest_job job_ticket_id event_type events job_id =
     (if job_ticket_id = [] \<or> event_type = [] then JNull
      else case find (\<lambda>e. ostr (ev_ticket_id e) = job_ticket_id \<and> ev_event_type e = event_type \<and>
                          jstr (jget (ev_payload e) ''job_id'') = job_id) (rev events) of
             None \<Rightarrow> JNull | Some e \<Rightarrow> JDict (ev_payload e))"

text \<open>The newest payload of each job, in the order the jobs appear from the newest event back.\<close>

definition latest_by_job :: "string \<Rightarrow> string \<Rightarrow> event list \<Rightarrow> (string, jdict) dict" where
  "latest_by_job job_ticket_id event_type events =
     fold (\<lambda>e d.
        if ostr (ev_ticket_id e) \<noteq> job_ticket_id \<or> ev_event_type e \<noteq> event_type then d
        else let job_id = jstrip (jget (ev_payload e) ''job_id'')
             in if job_id = [] then d else setdefault job_id (ev_payload e) d)
       (rev events) []"

definition account_rerun_payload_is_active :: "jdict \<Rightarrow> string \<Rightarrow> bool" where
  "account_rerun_payload_is_active payload active_after =
     (if jstr (jget payload ''status'') \<notin> {''queued'', ''running''} then False
      else case (parse_iso (jstr (jget payload ''updated_at'')), parse_iso active_after) of
          (Some updated_at, Some threshold) \<Rightarrow> utc_instant threshold \<le> utc_instant updated_at
        | _ \<Rightarrow> False)"

datatype rerun_claim =
    ScopeConflict
  | Replayed json
  | ActiveConflict jdict
  | Created jdict

text \<open>The keyword arguments of \<open>claim_account_case_rerun\<close>; an omitted one is \<open>None\<close>.\<close>

record rerun_request =
  rq_job :: jdict
  rq_active_after :: string
  rq_job_ticket_id :: "string option"
  rq_event_type :: "string option"
  rq_idempotency_scope :: "string option"
  rq_idempotency_key :: "string option"
  rq_request_scope :: "string option"

definition admitted_job :: "rerun_request \<Rightarrow> py_error + string \<times> jdict" where
  "admitted_job q =
     (let job = rq_job q;
          job_id = jstrip (jget job ''job_id'');
          status = strip (jstr (jor (jget job ''status'') (JStr ''queued'')));
          request_scope = or_else (ostrip (rq_request_scope q)) (jstrip (jget job ''scope''))
      in if job_id = [] then Inl (ValueError ''job_id is required'')
         else if status \<notin> set reroute_active_statuses \<union> set reroute_terminal_statuses
         then Inl (ValueError (''invalid Account reroute job status: '' @ status))
         else Inr (job_id, jupdate
           [(''job_id'', JStr job_id), (''request_scope'', JStr request_scope),
            (''account_case_id'', jopt (jstrip (jget job ''account_case_id''))),
            (''idempotency_scope'', jopt (ostrip (rq_idempotency_scope q))),
            (''idempotency_key'', jopt (ostrip (rq_idempotency_key q))),
            (''status'', JStr status), (''dispatch_status'', JStr ''queued''),
            (''lease_token'', JNull), (''lease_expires_at'', JNull), (''result'', JDict [])] job))"

text \<open>
  The answer for a job that an earlier request with the same key created, from the jobs or from
  the idempotency records.
\<close>

definition rerun_replay ::
  "rerun_request \<Rightarrow> string \<Rightarrow> event list \<Rightarrow> idempotency_table \<Rightarrow> reroute_table \<Rightarrow> rerun_claim option" where
  "rerun_replay q request_scope events idem jobs =
     (let sc = ostrip (rq_idempotency_scope q); k = ostrip (rq_idempotency_key q)
      in if k = [] then None
         else case find (\<lambda>j. jstr (jget j ''idempotency_scope'') = sc \<and> jstr (jget j ''idempotency_key'') = k)
                     (dvalues jobs) of
             Some j \<Rightarrow> Some (if jstr (jget j ''request_scope'') \<noteq> request_scope then ScopeConflict
                             else Replayed (JDict j))
           | None \<Rightarrow>
               (case dget idem (sc, k) of
                  None \<Rightarrow> None
                | Some r \<Rightarrow>
                    Some (case ir_response r of
                        None \<Rightarrow> ScopeConflict
                      | Some response \<Rightarrow>
                          if jget response ''request_scope'' \<noteq> JStr request_scope then ScopeConflict
                          else Replayed (jor
                            (latest_job (ostr (rq_job_ticket_id q)) (ostr (rq_event_type q)) events
                               (jstr (jget response ''job_id'')))
                            (JDict (jdict (jget response ''job'')))))))"

definition rerun_active_job :: "rerun_request \<Rightarrow> event list \<Rightarrow> reroute_table \<Rightarrow> jdict option" where
  "rerun_active_job q events jobs =
     (case find (\<lambda>j. job_status j \<in> set reroute_active_statuses) (dvalues jobs) of
        Some j \<Rightarrow> Some j
      | None \<Rightarrow>
          let job_ticket_id = ostr (rq_job_ticket_id q); event_type = ostr (rq_event_type q)
          in if job_ticket_id = [] \<or> event_type = [] then None
             else find (\<lambda>p. account_rerun_payload_is_active p (rq_active_after q))
                    (dvalues (latest_by_job job_ticket_id event_type events)))"

definition claim_account_case_rerun ::
  "rerun_request \<Rightarrow> event list \<Rightarrow> idempotency_table \<Rightarrow> (reroute_table, rerun_claim) op" where
  "claim_account_case_rerun q events idem jobs =
     (let request_scope = or_else (ostrip (rq_request_scope q)) (jstrip (jget (rq_job q) ''scope''))
      in if request_scope = [] then (Inl (ValueError ''request_scope is required''), jobs)
         else if (ostrip (rq_idempotency_scope q) \<noteq> []) \<noteq> (ostrip (rq_idempotency_key q) \<noteq> [])
         then (Inl (ValueError ''idempotency_scope and idempotency_key must be provided together''), jobs)
         else case rerun_replay q request_scope events idem jobs of
             Some answer \<Rightarrow> (Inr answer, jobs)
           | None \<Rightarrow>
               (case rerun_active_job q events jobs of
                  Some j \<Rightarrow> (Inr (ActiveConflict j), jobs)
                | None \<Rightarrow>
                    (case admitted_job q of
                       Inl e \<Rightarrow> (Inl e, jobs)
                     | Inr (job_id, saved) \<Rightarrow> (Inr (Created saved), dset job_id saved jobs))))"

section \<open>Listing\<close>

definition get_account_reroute_job :: "string \<Rightarrow> reroute_table \<Rightarrow> jdict option" where
  "get_account_reroute_job job_id jobs = dget jobs (strip job_id)"

definition list_account_reroute_jobs :: "int \<Rightarrow> reroute_table \<Rightarrow> jdict list" where
  "list_account_reroute_jobs limit jobs =
     take_limit 5000 (if limit = 0 then 500 else limit)
       (sort_desc (\<lambda>j. (jstr (jget j ''updated_at''), jstr (jget j ''created_at''))) (dvalues jobs))"

definition is_dispatchable :: "pydt \<Rightarrow> jdict \<Rightarrow> bool" where
  "is_dispatchable as_of job =
     (if (job_status job, job_dispatch job) = (''queued'', ''queued'') then True
      else if (job_status job, job_dispatch job) \<noteq> (''running'', ''leased'') then False
      else let lease_value = jget job ''lease_expires_at''
           in if \<not> truthy lease_value then True
              else case parse_iso (py_str lease_value) of
                  None \<Rightarrow> False
                | Some lease_expires_at \<Rightarrow> utc_instant lease_expires_at \<le> utc_instant as_of)"

definition list_dispatchable_account_reroute_jobs ::
  "string \<Rightarrow> int \<Rightarrow> reroute_table \<Rightarrow> py_error + jdict list" where
  "list_dispatchable_account_reroute_jobs as_of limit jobs =
     (case parse_iso as_of of
        None \<Rightarrow> Inl (ValueError ''Invalid isoformat string'')
      | Some as_of_time \<Rightarrow>
          Inr (take_limit 5000 (if limit = 0 then 100 else limit)
            (sort_key (\<lambda>j. (jstr (jget j ''created_at''), jstr (jget j ''job_id'')))
              (filter (is_dispatchable as_of_time) (dvalues jobs)))))"

section \<open>The execution lease\<close>

definition mark_account_reroute_needs_recovery :: "jdict \<Rightarrow> string \<Rightarrow> jdict" where
  "mark_account_reroute_needs_recovery job recovered_at =
     setdefault ''stop_error''
       (JStr ''Account rerun execution lease expired before the job completed.'')
       (jupdate
          [(''status'', JStr ''needs_recovery''), (''dispatch_status'', JStr ''needs_recovery''),
           (''lease_token'', JNull), (''lease_expires_at'', JNull),
           (''phase'', JStr ''Recovery required''),
           (''recovery_reason'', JStr ''execution_lease_expired''),
           (''stop_reason'', JStr ''execution_lease_expired''),
           (''failed_stage'', JStr ''execution_lease''),
           (''failed_reason_code'', JStr ''account_rerun_execution_lease_expired''),
           (''failed_case_id'', JNull), (''updated_at'', JStr recovered_at),
           (''completed_at'', JStr recovered_at), (''recovery_alert_status'', JStr ''pending'')] job)"

datatype execution_claim =
    NotFound
  | Terminal jdict
  | NeedsRecovery jdict
  | InProgress jdict
  | Acquired string jdict

text \<open>The expiry of a lease: \<open>None\<close> when there is none, an exception when it does not parse.\<close>

definition lease_expiry :: "jdict \<Rightarrow> py_error + pydt option" where
  "lease_expiry job =
     (let v = jget job ''lease_expires_at''
      in if \<not> truthy v then Inr None
         else case parse_iso (py_str v) of
             None \<Rightarrow> Inl (ValueError ''Invalid isoformat string'')
           | Some t \<Rightarrow> Inr (Some t))"

definition lease_expired :: "jdict \<Rightarrow> pydt \<Rightarrow> py_error + bool" where
  "lease_expired job claimed_time =
     (case lease_expiry job of
        Inl e \<Rightarrow> Inl e
      | Inr None \<Rightarrow> Inr True
      | Inr (Some expires_at) \<Rightarrow> dt_le expires_at claimed_time)"

definition claim_account_reroute_job_execution ::
  "string \<Rightarrow> string \<Rightarrow> string \<Rightarrow> string \<Rightarrow> (reroute_table, execution_claim) op" where
  "claim_account_reroute_job_execution job_id owner_token claimed_at lease_expires_at jobs =
     (let k = strip job_id; owner = strip owner_token
      in if k = [] \<or> owner = []
         then (Inl (ValueError ''job_id and owner_token are required''), jobs)
         else case parse_iso claimed_at of
             None \<Rightarrow> (Inl (ValueError ''Invalid isoformat string''), jobs)
           | Some claimed_time \<Rightarrow>
               (case dget jobs k of
                  None \<Rightarrow> (Inr NotFound, jobs)
                | Some job \<Rightarrow>
                    if job_status job \<in> set reroute_terminal_statuses then (Inr (Terminal job), jobs)
                    else if job_dispatch job = ''leased'' then
                      (case lease_expired job claimed_time of
                         Inl e \<Rightarrow> (Inl e, jobs)
                       | Inr expired \<Rightarrow>
                           if expired then
                             let m = mark_account_reroute_needs_recovery job claimed_at;
                                 recovered = dset ''result'' (JDict m) m
                             in (Inr (NeedsRecovery recovered), dset k recovered jobs)
                           else (Inr (InProgress job), jobs))
                    else if job_dispatch job \<noteq> ''queued'' then (Inr (Terminal job), jobs)
                    else let job' = jupdate
                           [(''status'', JStr ''running''), (''dispatch_status'', JStr ''leased''),
                            (''lease_token'', JStr owner), (''lease_expires_at'', JStr lease_expires_at),
                            (''started_at'', jor (jget job ''started_at'') (JStr claimed_at)),
                            (''updated_at'', JStr claimed_at)] job
                         in (Inr (Acquired owner job'), dset k job' jobs)))"

text \<open>The keys of the stored job that a report cannot change.\<close>

definition protected_keys :: "jdict \<Rightarrow> jdict" where
  "protected_keys current =
     map (\<lambda>k. (k, jget current k)) [''request_scope'', ''account_case_id'', ''idempotency_scope'', ''idempotency_key'']"

definition holds_lease :: "jdict \<Rightarrow> string \<Rightarrow> bool" where
  "holds_lease current token \<longleftrightarrow>
     job_dispatch current = ''leased'' \<and> jstr (jget current ''lease_token'') = token"

definition lease_lost :: "string \<Rightarrow> py_error" where
  "lease_lost job_id = LeaseLostError (''Account reroute lease lost for '' @ job_id)"

text \<open>The job a progress report stores, and the one a release stores.\<close>

definition reported_job :: "jdict \<Rightarrow> jdict \<Rightarrow> string \<Rightarrow> string option \<Rightarrow> jdict" where
  "reported_job current job token lease_expires_at =
     (let status = jstrip (jget job ''status'');
          saved = jupdate (protected_keys current @
            [(''lease_token'', JStr token),
             (''lease_expires_at'',
                if ostrip lease_expires_at \<noteq> [] then JStr (ostrip lease_expires_at)
                else jget current ''lease_expires_at''),
             (''dispatch_status'', JStr ''leased'')]) job
      in if status \<in> set reroute_terminal_statuses
         then jupdate
           [(''dispatch_status'', JStr (if status = ''needs_recovery'' then ''needs_recovery'' else ''completed'')),
            (''lease_token'', JNull), (''lease_expires_at'', JNull), (''result'', JDict job)] saved
         else dset ''result'' (jor (jget current ''result'') (JDict [])) saved)"

definition released_job :: "jdict \<Rightarrow> jdict \<Rightarrow> string \<Rightarrow> jdict" where
  "released_job current job at =
     jupdate (protected_keys current @
       [(''status'', JStr ''queued''), (''dispatch_status'', JStr ''queued''),
        (''lease_token'', JNull), (''lease_expires_at'', JNull),
        (''updated_at'', JStr at), (''completed_at'', JNull),
        (''result'', jor (jget current ''result'') (JDict []))]) job"

definition update_account_reroute_job ::
  "jdict \<Rightarrow> string \<Rightarrow> string option \<Rightarrow> (reroute_table, jdict) op" where
  "update_account_reroute_job job lease_token lease_expires_at jobs =
     (let job_id = jstrip (jget job ''job_id'');
          token = strip lease_token;
          status = jstrip (jget job ''status'')
      in if status \<notin> {''running''} \<union> set reroute_terminal_statuses
         then (Inl (ValueError (''invalid Account reroute progress status: '' @ status)), jobs)
         else case dget jobs job_id of
             None \<Rightarrow> (Inl (lease_lost job_id), jobs)
           | Some current \<Rightarrow>
               if \<not> holds_lease current token then (Inl (lease_lost job_id), jobs)
               else let saved = reported_job current job token lease_expires_at
                    in (Inr saved, dset job_id saved jobs))"

definition release_account_reroute_job_execution ::
  "jdict \<Rightarrow> string \<Rightarrow> string \<Rightarrow> (reroute_table, jdict) op" where
  "release_account_reroute_job_execution job lease_token released_at jobs =
     (let job_id = jstrip (jget job ''job_id'');
          token = strip lease_token;
          at = strip released_at
      in if job_id = [] \<or> token = [] \<or> at = []
         then (Inl (ValueError ''job_id, lease_token, and released_at are required''), jobs)
         else if job_status job \<noteq> ''running'' then (Inl (lease_lost job_id), jobs)
         else case dget jobs job_id of
             None \<Rightarrow> (Inl (lease_lost job_id), jobs)
           | Some current \<Rightarrow>
               if job_status current \<noteq> ''running'' \<or> \<not> holds_lease current token
               then (Inl (lease_lost job_id), jobs)
               else let saved = released_job current job at
                    in (Inr saved, dset job_id saved jobs))"

section \<open>The recovery alert\<close>

datatype alert_claim =
    AlertNotFound
  | NotRecovery jdict
  | AlreadyClaimed string jdict
  | AlertClaimed jdict
  | AlertRecorded jdict

definition claim_account_reroute_recovery_alert ::
  "string \<Rightarrow> string \<Rightarrow> (reroute_table, alert_claim) op" where
  "claim_account_reroute_recovery_alert job_id claimed_at jobs =
     (let k = strip job_id; at = strip claimed_at
      in if k = [] \<or> at = [] then (Inl (ValueError ''job_id and claimed_at are required''), jobs)
         else case dget jobs k of
             None \<Rightarrow> (Inr AlertNotFound, jobs)
           | Some job \<Rightarrow>
               if job_status job \<noteq> ''needs_recovery'' then (Inr (NotRecovery job), jobs)
               else let alert = jlower (jget job ''recovery_alert_status'')
                    in if alert \<notin> {[], ''pending''} then (Inr (AlreadyClaimed alert job), jobs)
                       else let claimed = jupdate
                              [(''recovery_alert_status'', JStr ''sending''),
                               (''recovery_alert_claimed_at'', JStr at), (''updated_at'', JStr at)] job
                            in (Inr (AlertClaimed claimed), dset k claimed jobs))"

definition record_account_reroute_recovery_alert ::
  "string \<Rightarrow> string \<Rightarrow> string \<Rightarrow> (reroute_table, alert_claim) op" where
  "record_account_reroute_recovery_alert job_id alert_status recorded_at jobs =
     (let k = strip job_id; at = strip recorded_at;
          status = or_else (slower (or_else alert_status ''failed'')) ''failed''
      in if k = [] \<or> at = [] then (Inl (ValueError ''job_id and recorded_at are required''), jobs)
         else case dget jobs k of
             None \<Rightarrow> (Inr AlertNotFound, jobs)
           | Some job \<Rightarrow>
               if job_status job \<noteq> ''needs_recovery'' then (Inr (NotRecovery job), jobs)
               else let recorded = jupdate
                      [(''recovery_alert_status'', JStr status), (''alert_status'', JStr status),
                       (''recovery_alert_recorded_at'', JStr at), (''updated_at'', JStr at)] job
                    in (Inr (AlertRecorded recorded), dset k recorded jobs))"

section \<open>The lease as fenced work\<close>

definition lease_holder :: "reroute_table \<Rightarrow> string \<Rightarrow> string option" where
  "lease_holder jobs k =
     (case dget jobs k of None \<Rightarrow> None
      | Some job \<Rightarrow> if job_dispatch job = ''leased'' then Some (jstr (jget job ''lease_token'')) else None)"

datatype reroute_write =
    RProgress jdict "string option"
  | RRelease jdict string

datatype reroute_other =
    RAdmit rerun_request "event list" idempotency_table
  | RClaimAlert string string
  | RRecordAlert string string string

definition reroute_claim_step ::
  "string \<Rightarrow> string \<Rightarrow> string \<times> string \<Rightarrow> reroute_table \<Rightarrow> bool \<times> reroute_table" where
  "reroute_claim_step i tk at jobs =
     (let res = claim_account_reroute_job_execution i tk (fst at) (snd at) jobs
      in (case fst res of Inr (Acquired _ _) \<Rightarrow> True | _ \<Rightarrow> False, snd res))"

text \<open>A write to the job \<open>i\<close> carries its id in the dictionary.\<close>

fun reroute_act ::
  "string \<Rightarrow> string \<Rightarrow> reroute_write \<Rightarrow> reroute_table \<Rightarrow> bool \<times> reroute_table" where
  "reroute_act i tk (RProgress job expires) jobs =
     (let res = update_account_reroute_job (dset ''job_id'' (JStr i) job) tk expires jobs
      in (\<not> isl (fst res), snd res))"
| "reroute_act i tk (RRelease job at) jobs =
     (let res = release_account_reroute_job_execution (dset ''job_id'' (JStr i) job) tk at jobs
      in (\<not> isl (fst res), snd res))"

fun reroute_other_step :: "reroute_other \<Rightarrow> reroute_table \<Rightarrow> reroute_table" where
  "reroute_other_step (RAdmit q events idem) jobs = snd (claim_account_case_rerun q events idem jobs)"
| "reroute_other_step (RClaimAlert i at) jobs = snd (claim_account_reroute_recovery_alert i at jobs)"
| "reroute_other_step (RRecordAlert i st at) jobs = snd (record_account_reroute_recovery_alert i st at jobs)"

type_synonym reroute_op = "(string, string \<times> string, reroute_write, reroute_other) fence_op"

definition reroute_run :: "reroute_op list \<Rightarrow> reroute_table \<Rightarrow> string fence_event list \<times> reroute_table" where
  "reroute_run = fence_run strip strip reroute_claim_step reroute_act reroute_other_step"

text \<open>
  What each operation can do to the table: nothing, or store one job under its key. The job it
  stores is described by its status, its dispatch status and its lease token.
\<close>

lemma job_fields [simp]:
  "job_status (dset k v d) = (if k = ''status'' then jstr v else job_status d)"
  "job_dispatch (dset k v d) = (if k = ''dispatch_status'' then jstr v else job_dispatch d)"
  by (simp_all add: job_status_def job_dispatch_def)

lemma recovery_fields:
  "job_status (mark_account_reroute_needs_recovery j t) = ''needs_recovery''"
  "job_dispatch (mark_account_reroute_needs_recovery j t) = ''needs_recovery''"
  by (simp_all add: mark_account_reroute_needs_recovery_def setdefault_def split: option.split)

lemma claim_effect:
  "snd (reroute_claim_step i tk at jobs) = jobs \<and> \<not> fst (reroute_claim_step i tk at jobs) \<or>
   (\<exists>job j. dget jobs (strip i) = Some job \<and> job_status job \<notin> set reroute_terminal_statuses \<and>
      snd (reroute_claim_step i tk at jobs) = dset (strip i) j jobs \<and>
      (fst (reroute_claim_step i tk at jobs) \<and> job_dispatch job = ''queued'' \<and>
         job_status j = ''running'' \<and> job_dispatch j = ''leased'' \<and>
         jstr (jget j ''lease_token'') = strip tk \<or>
       \<not> fst (reroute_claim_step i tk at jobs) \<and> job_dispatch job = ''leased'' \<and>
         job_status j = ''needs_recovery'' \<and> job_dispatch j = ''needs_recovery''))"
proof (cases "strip i = [] \<or> strip tk = [] \<or> parse_iso (fst at) = None \<or> dget jobs (strip i) = None")
  case True
  then show ?thesis
    by (cases "parse_iso (fst at)")
       (auto simp: reroute_claim_step_def claim_account_reroute_job_execution_def Let_def)
next
  case False
  then obtain now job where f: "strip i \<noteq> []" "strip tk \<noteq> []" "parse_iso (fst at) = Some now"
    "dget jobs (strip i) = Some job" by auto
  note d = reroute_claim_step_def claim_account_reroute_job_execution_def Let_def f
  consider (terminal) "job_status job \<in> set reroute_terminal_statuses"
    | (leased) "job_status job \<notin> set reroute_terminal_statuses" "job_dispatch job = ''leased''"
    | (queued) "job_status job \<notin> set reroute_terminal_statuses" "job_dispatch job = ''queued''"
    | (odd) "job_dispatch job \<noteq> ''leased''" "job_dispatch job \<noteq> ''queued''"
    by blast
  then show ?thesis
  proof cases
    case leased
    show ?thesis
    proof (cases "lease_expired job now")
      case (Inr expired)
      with leased show ?thesis by (cases expired) (auto simp: d recovery_fields)
    qed (simp add: d leased)
  next
    case queued
    then show ?thesis by (auto simp: d)
  qed (simp_all add: d)
qed

lemma saved_fields:
  "job_status (reported_job c p tk e) = job_status p"
  "jstrip (jget p ''status'') = ''running'' \<Longrightarrow>
     job_dispatch (reported_job c p tk e) = ''leased'' \<and>
     jget (reported_job c p tk e) ''lease_token'' = JStr tk"
  "jstrip (jget p ''status'') \<in> set reroute_terminal_statuses \<Longrightarrow>
     job_dispatch (reported_job c p tk e) \<noteq> ''leased''"
  "job_status (released_job c p at) = ''queued''" "job_dispatch (released_job c p at) = ''queued''"
  by (simp_all add: reported_job_def released_job_def protected_keys_def Let_def)
     (simp add: reroute_terminal_statuses_def)

lemma write_effect:
  "snd (reroute_act i tk b jobs) = jobs \<and> \<not> fst (reroute_act i tk b jobs) \<or>
   fst (reroute_act i tk b jobs) \<and>
   (\<exists>job j. dget jobs (strip i) = Some job \<and> holds_lease job (strip tk) \<and>
      snd (reroute_act i tk b jobs) = dset (strip i) j jobs \<and>
      (case b of
         RProgress p _ \<Rightarrow> job_status j = job_status p \<and>
           (jstrip (jget p ''status'') = ''running'' \<and> job_dispatch j = ''leased'' \<and>
              jget j ''lease_token'' = JStr (strip tk) \<or>
            jstrip (jget p ''status'') \<in> set reroute_terminal_statuses \<and> job_dispatch j \<noteq> ''leased'')
       | RRelease _ _ \<Rightarrow> job_status job = ''running'' \<and> job_status j = ''queued'' \<and>
           job_dispatch j = ''queued''))"
proof (cases b)
  case (RProgress p e)
  let ?p = "dset ''job_id'' (JStr i) p"
  have "job_status (reported_job c ?p (strip tk) e) = job_status p" for c
    by (simp add: saved_fields)
  then show ?thesis
    using saved_fields(2,3) [of ?p _ "strip tk" e]
    by (auto simp: RProgress update_account_reroute_job_def Let_def split: option.split)
next
  case (RRelease p at)
  show ?thesis
    using saved_fields(4,5)
    by (auto simp: RRelease release_account_reroute_job_execution_def Let_def split: option.split)
qed

lemma admit_effect:
  "snd (claim_account_case_rerun q events idem jobs) = jobs \<or>
   (\<exists>k j. snd (claim_account_case_rerun q events idem jobs) = dset k j jobs \<and>
      job_dispatch j = ''queued'' \<and>
      job_status j \<in> set reroute_active_statuses \<union> set reroute_terminal_statuses \<and>
      (\<forall>i job. dget jobs i = Some job \<longrightarrow> job_status job \<notin> set reroute_active_statuses))"
proof -
  have none: "rerun_active_job q events jobs = None \<Longrightarrow> dget jobs i = Some job \<Longrightarrow>
      job_status job \<notin> set reroute_active_statuses" for i job
    by (force simp: rerun_active_job_def find_None_iff dest: map_of_SomeD split: option.splits)
  have queued: "admitted_job q = Inr (k, j) \<Longrightarrow> job_dispatch j = ''queued'' \<and>
      job_status j \<in> set reroute_active_statuses \<union> set reroute_terminal_statuses" for k j
    by (auto simp: admitted_job_def Let_def split: if_splits)
  show ?thesis
    using none queued
    by (simp add: claim_account_case_rerun_def Let_def split: option.split sum.split) blast
qed

lemma alert_effect:
  "reroute_other_step (RClaimAlert i at) jobs = jobs \<or>
   (\<exists>job j. dget jobs (strip i) = Some job \<and> reroute_other_step (RClaimAlert i at) jobs = dset (strip i) j jobs \<and>
      job_status j = job_status job \<and> job_dispatch j = job_dispatch job \<and>
      jget j ''lease_token'' = jget job ''lease_token'')"
  "reroute_other_step (RRecordAlert i st at) jobs = jobs \<or>
   (\<exists>job j. dget jobs (strip i) = Some job \<and> reroute_other_step (RRecordAlert i st at) jobs = dset (strip i) j jobs \<and>
      job_status j = job_status job \<and> job_dispatch j = job_dispatch job \<and>
      jget j ''lease_token'' = jget job ''lease_token'')"
  by (auto simp: claim_account_reroute_recovery_alert_def record_account_reroute_recovery_alert_def
      Let_def split: option.split)

lemma lease_holder_dset:
  "lease_holder (dset k j jobs) i =
     (if i = k then (if job_dispatch j = ''leased'' then Some (jstr (jget j ''lease_token'')) else None)
      else lease_holder jobs i)"
  by (simp add: lease_holder_def dget_dset)

lemma lease_holder_job:
  "dget jobs k = Some job \<Longrightarrow>
     lease_holder jobs k = (if job_dispatch job = ''leased'' then Some (jstr (jget job ''lease_token'')) else None)"
  by (simp add: lease_holder_def)

interpretation reroute_lease: fenced
  lease_holder strip strip reroute_claim_step reroute_act reroute_other_step "\<lambda>b. True"
proof (unfold_locales, goal_cases)
  case (1 i t a s)
  then show ?case using claim_effect [of i t a s] by (auto simp: lease_holder_dset)
next
  case (2 j i t a s)
  then show ?case using claim_effect [of i t a s] by (auto simp: lease_holder_dset)
next
  case (3 i t b s)
  then show ?case using write_effect [of i t b s] by (auto simp: lease_holder_job holds_lease_def)
next
  case (4 b i t s j)
  show ?case
    using write_effect [of i t b s]
    by (cases b) (auto simp: lease_holder_dset lease_holder_job holds_lease_def)
next
  case (5 c s j)
  show ?case
  proof (cases c)
    case (RAdmit q events idem)
    then show ?thesis
      using admit_effect [of q events idem s] by (auto simp: lease_holder_dset)
  next
    case (RClaimAlert i at)
    then show ?thesis
      using alert_effect(1) [of i at s]
      by (auto simp: lease_holder_dset lease_holder_job simp del: reroute_other_step.simps)
  next
    case (RRecordAlert i st at)
    then show ?thesis
      using alert_effect(2) [of i st at s]
      by (auto simp: lease_holder_dset lease_holder_job simp del: reroute_other_step.simps)
  qed
qed

section \<open>One job at a time\<close>

definition active_job :: "jdict \<Rightarrow> bool" where
  "active_job j \<longleftrightarrow> job_status j \<in> set reroute_active_statuses"

text \<open>At most one job is queued or running, and a leased job is running.\<close>

definition single_active :: "reroute_table \<Rightarrow> bool" where
  "single_active jobs \<longleftrightarrow>
     (\<forall>k1 j1 k2 j2. dget jobs k1 = Some j1 \<and> active_job j1 \<and> dget jobs k2 = Some j2 \<and> active_job j2
        \<longrightarrow> k1 = k2) \<and>
     (\<forall>k j. dget jobs k = Some j \<longrightarrow>
        (job_dispatch j = ''leased'' \<longrightarrow> active_job j) \<and>
        (active_job j \<or> job_status j \<in> set reroute_terminal_statuses))"

text \<open>A progress report whose status has no surrounding blanks.\<close>

fun canonical_report :: "reroute_write \<Rightarrow> bool" where
  "canonical_report (RProgress job _) \<longleftrightarrow> job_status job = jstrip (jget job ''status'')"
| "canonical_report (RRelease _ _) \<longleftrightarrow> True"

lemma active_cases:
  "job_status j = ''running'' \<Longrightarrow> active_job j" "job_status j = ''queued'' \<Longrightarrow> active_job j"
  "job_status j \<in> set reroute_terminal_statuses \<Longrightarrow> \<not> active_job j"
  "''needs_recovery'' \<in> set reroute_terminal_statuses"
  by (auto simp: active_job_def reroute_active_statuses_def reroute_terminal_statuses_def)

lemma single_activeD:
  "single_active jobs \<Longrightarrow> dget jobs k = Some job \<Longrightarrow> job_dispatch job = ''leased'' \<Longrightarrow> active_job job"
  "single_active jobs \<Longrightarrow> dget jobs k = Some job \<Longrightarrow> job_status job \<notin> set reroute_terminal_statuses \<Longrightarrow>
     active_job job"
  "single_active jobs \<Longrightarrow> dget jobs k = Some job \<Longrightarrow>
     active_job job \<or> job_status job \<in> set reroute_terminal_statuses"
  unfolding single_active_def by simp_all blast

lemma single_active_unique:
  "single_active jobs \<Longrightarrow> dget jobs k1 = Some j1 \<Longrightarrow> active_job j1 \<Longrightarrow>
     dget jobs k2 = Some j2 \<Longrightarrow> active_job j2 \<Longrightarrow> k1 = k2"
  unfolding single_active_def by blast

lemma single_active_dset:
  assumes s: "single_active jobs"
    and a: "active_job j \<Longrightarrow> (\<exists>job. dget jobs k = Some job \<and> active_job job) \<or>
           (\<forall>i job. dget jobs i = Some job \<longrightarrow> \<not> active_job job)"
    and l: "job_dispatch j = ''leased'' \<Longrightarrow> active_job j"
    and v: "active_job j \<or> job_status j \<in> set reroute_terminal_statuses"
  shows "single_active (dset k j jobs)"
proof -
  note D = single_activeD [OF s]
  have u: "i = k" if "dget jobs i = Some job" "active_job job" "active_job j" for i job
    using a [OF that(3)] that single_active_unique [OF s] by blast
  show ?thesis
    unfolding single_active_def
  proof (intro conjI allI impI; (elim conjE)?)
    fix k1 j1 k2 j2
    assume "dget (dset k j jobs) k1 = Some j1" "active_job j1"
      "dget (dset k j jobs) k2 = Some j2" "active_job j2"
    then show "k1 = k2"
      using u [of k1 j1] u [of k2 j2] single_active_unique [OF s, of k1 j1 k2 j2]
      by (simp add: dget_dset split: if_splits)
  next
    fix i job
    assume "dget (dset k j jobs) i = Some job"
    then show "active_job job \<or> job_status job \<in> set reroute_terminal_statuses"
      using v D(3) [of i job] by (simp add: dget_dset split: if_splits)
  next
    fix i job
    assume "dget (dset k j jobs) i = Some job" "job_dispatch job = ''leased''"
    then show "active_job job"
      using l D(1) [of i job] by (simp add: dget_dset split: if_splits)
  qed
qed

lemma claim_single:
  assumes s: "single_active jobs"
  shows "single_active (snd (reroute_claim_step i tk at jobs))"
proof (rule disjE [OF claim_effect [of i tk at jobs]])
  assume "\<exists>job j. dget jobs (strip i) = Some job \<and> job_status job \<notin> set reroute_terminal_statuses \<and>
      snd (reroute_claim_step i tk at jobs) = dset (strip i) j jobs \<and>
      (fst (reroute_claim_step i tk at jobs) \<and> job_dispatch job = ''queued'' \<and>
         job_status j = ''running'' \<and> job_dispatch j = ''leased'' \<and>
         jstr (jget j ''lease_token'') = strip tk \<or>
       \<not> fst (reroute_claim_step i tk at jobs) \<and> job_dispatch job = ''leased'' \<and>
         job_status j = ''needs_recovery'' \<and> job_dispatch j = ''needs_recovery'')"
  then obtain job j where d: "dget jobs (strip i) = Some job"
    "job_status job \<notin> set reroute_terminal_statuses"
    and e: "snd (reroute_claim_step i tk at jobs) = dset (strip i) j jobs"
    and c: "job_status j = ''running'' \<or> job_status j = ''needs_recovery'' \<and> job_dispatch j = ''needs_recovery''"
    by blast
  from single_activeD(2) [OF s d] have "active_job job" .
  with d(1) c show ?thesis
    unfolding e by (intro single_active_dset [OF s]) (auto simp: active_cases)
qed (use s in simp)

lemma write_single:
  assumes s: "single_active jobs" and c: "canonical_report b"
  shows "single_active (snd (reroute_act i tk b jobs))"
proof (rule disjE [OF write_effect [of i tk b jobs]], goal_cases)
  case 2
  then obtain job j where d: "dget jobs (strip i) = Some job" "holds_lease job (strip tk)"
    and e: "snd (reroute_act i tk b jobs) = dset (strip i) j jobs"
    and f: "job_status j = ''running'' \<or> job_status j = ''queued'' \<or>
            job_status j \<in> set reroute_terminal_statuses \<and> job_dispatch j \<noteq> ''leased''"
    using c by (cases b) auto
  from d have "active_job job" by (auto simp: holds_lease_def intro: single_activeD(1) [OF s])
  with d(1) f show ?case
    unfolding e by (intro single_active_dset [OF s]) (auto simp: active_cases)
qed (use s in simp)

lemma other_single:
  assumes s: "single_active jobs"
  shows "single_active (reroute_other_step c jobs)"
proof -
  have same: "single_active (dset k j jobs)"
    if "dget jobs k = Some job" "job_status j = job_status job" "job_dispatch j = job_dispatch job"
    for k j job
    using that single_activeD [OF s that(1)]
    by (intro single_active_dset [OF s]) (auto simp: active_job_def)
  show ?thesis
  proof (cases c)
    case (RAdmit q events idem)
    then show ?thesis
      using admit_effect [of q events idem jobs] s
      by (auto simp: active_job_def intro!: single_active_dset [OF s])
  next
    case (RClaimAlert i at)
    then show ?thesis
      using alert_effect(1) [of i at jobs] s same by auto
  next
    case (RRecordAlert i st at)
    then show ?thesis
      using alert_effect(2) [of i st at jobs] s same by auto
  qed
qed

lemma single_active_Nil: "single_active []"
  by (simp add: single_active_def)

lemma steps_wf:
  "wf_dict jobs \<Longrightarrow> wf_dict (snd (reroute_claim_step i tk at jobs))"
  "wf_dict jobs \<Longrightarrow> wf_dict (snd (reroute_act i tk b jobs))"
  "wf_dict jobs \<Longrightarrow> wf_dict (reroute_other_step c jobs)"
proof -
  assume w: "wf_dict jobs"
  show "wf_dict (snd (reroute_claim_step i tk at jobs))"
    using claim_effect [of i tk at jobs] w by auto
  show "wf_dict (snd (reroute_act i tk b jobs))"
    using write_effect [of i tk b jobs] w by auto
  show "wf_dict (reroute_other_step c jobs)"
  proof (cases c)
    case (RAdmit q events idem)
    then show ?thesis using admit_effect [of q events idem jobs] w by auto
  next
    case (RClaimAlert i at)
    then show ?thesis
      using alert_effect(1) [of i at jobs] w by (auto simp del: reroute_other_step.simps)
  next
    case (RRecordAlert i st at)
    then show ?thesis
      using alert_effect(2) [of i st at jobs] w by (auto simp del: reroute_other_step.simps)
  qed
qed

section \<open>Properties\<close>


text \<open>C2
  At most one reroute job is queued or running at any time, as long as the progress reports
  spell their status without surrounding blanks.
\<close>

theorem reroute_one_active_job:
  assumes "acts_ok canonical_report ops"
  shows "length (filter active_job (dvalues (snd (reroute_run ops [])))) \<le> 1"
proof -
  have "wf_dict (snd (reroute_run ops [])) \<and> single_active (snd (reroute_run ops []))"
    unfolding reroute_run_def
    by (rule fence_run_invariant [where ok = canonical_report and
          I = "\<lambda>jobs. wf_dict jobs \<and> single_active jobs"])
       (simp_all add: assms steps_wf claim_single write_single other_single single_active_Nil)
  then show ?thesis
    by (intro unique_length) (auto dest: single_active_unique)
qed

definition sample_rerun :: "string \<Rightarrow> rerun_request" where
  "sample_rerun i =
     \<lparr> rq_job = [(''job_id'', JStr i), (''scope'', JStr ''all'')], rq_active_after = [],
       rq_job_ticket_id = None, rq_event_type = None, rq_idempotency_scope = None,
       rq_idempotency_key = None, rq_request_scope = None \<rparr>"

definition sample_lease :: "string \<times> string" where
  "sample_lease = (''2026-01-01T00:00:00+00:00'', ''2026-01-01T01:00:00+00:00'')"

theorem reroute_one_active_job_witness:
  "length (filter active_job (dvalues (snd (reroute_run
     [FOther (RAdmit (sample_rerun ''J1'') [] []), FClaim ''J1'' ''w'' sample_lease,
      FOther (RAdmit (sample_rerun ''J2'') [] []),
      FAct ''J1'' ''w'' (RProgress [(''status'', JStr ''running'')] None)] [])))) \<le> 1"
  by (rule reroute_one_active_job) (simp add: acts_ok_def job_status_def, code_simp)


text \<open>C16
  A job the dispatcher lists is taken care of by the claim at the same time: a queued one is
  acquired, a running one whose lease ran out is marked for recovery. The only other outcome is
  the \<open>TypeError\<close> of comparing a lease and a time of which only one has a timezone, which the
  listing avoids (it reads naive times as UTC) and the claim does not.
\<close>

theorem dispatchable_is_claimed:
  assumes job: "dget jobs (strip i) = Some job" and ids: "strip i \<noteq> []" "strip tk \<noteq> []"
    and now: "parse_iso as_of = Some now" and listed: "is_dispatchable now job"
  shows "case fst (claim_account_reroute_job_execution i tk as_of expires jobs) of
           Inr (Acquired _ _) \<Rightarrow> job_status job = ''queued''
         | Inr (NeedsRecovery _) \<Rightarrow> job_status job = ''running''
         | Inl (TypeError _) \<Rightarrow> (case (lease_expiry job, now) of
               (Inr (Some (Naive _)), Aware _ _) \<Rightarrow> True
             | (Inr (Some (Aware _ _)), Naive _) \<Rightarrow> True
             | _ \<Rightarrow> False)
         | _ \<Rightarrow> False"
proof -
  have t: "''queued'' \<notin> set reroute_terminal_statuses" "''running'' \<notin> set reroute_terminal_statuses"
    by (simp_all add: reroute_terminal_statuses_def)
  note d = claim_account_reroute_job_execution_def Let_def job ids now
  show ?thesis
  proof (cases "job_status job = ''queued'' \<and> job_dispatch job = ''queued''")
    case True
    with t show ?thesis by (simp add: d)
  next
    case False
    with listed have r: "job_status job = ''running''" "job_dispatch job = ''leased''"
      by (auto simp: is_dispatchable_def split: if_splits)
    show ?thesis
    proof (cases "truthy (jget job ''lease_expires_at'')")
      case False
      with r t show ?thesis by (simp add: d lease_expired_def lease_expiry_def)
    next
      case True
      with listed r obtain e where e: "parse_iso (py_str (jget job ''lease_expires_at'')) = Some e"
        "utc_instant e \<le> utc_instant now"
        by (auto simp: is_dispatchable_def Let_def split: option.splits)
      with True r t show ?thesis
        by (cases e; cases now) (simp_all add: d lease_expired_def lease_expiry_def)
    qed
  qed
qed

definition sample_leased_jobs :: reroute_table where
  "sample_leased_jobs = snd (reroute_run
     [FOther (RAdmit (sample_rerun ''J1'') [] []), FClaim ''J1'' ''w'' sample_lease] [])"

theorem dispatchable_is_claimed_witness:
  "case fst (claim_account_reroute_job_execution ''J1'' ''v'' ''2026-01-02T00:00:00Z'' ''x'' sample_leased_jobs) of
     Inr (Acquired _ _) \<Rightarrow> job_status (the (dget sample_leased_jobs ''J1'')) = ''queued''
   | Inr (NeedsRecovery _) \<Rightarrow> job_status (the (dget sample_leased_jobs ''J1'')) = ''running''
   | Inl (TypeError _) \<Rightarrow> (case (lease_expiry (the (dget sample_leased_jobs ''J1'')),
                                   the (parse_iso ''2026-01-02T00:00:00Z'')) of
         (Inr (Some (Naive _)), Aware _ _) \<Rightarrow> True
       | (Inr (Some (Aware _ _)), Naive _) \<Rightarrow> True
       | _ \<Rightarrow> False)
   | _ \<Rightarrow> False"
  by (rule dispatchable_is_claimed) code_simp+

end
