(* ===== verification/Token_Usage.thy ===== *)
theory Token_Usage
  imports Json_Values
begin

text \<open>
  The ledger of model calls (\<open>services/token_usage.py\<close>): the entry written for one call, and the
  totals read from a list of entries, overall and per model. The counts of a ledger come from
  stored JSON, so every one is read with \<open>_safe_int\<close>; floating-point counts do not occur.

  The contract of the summary is a sum over the entries: each total is the sum of its field, and
  the row of a model is the sum over the entries of that model. The code reaches it with one pass
  that updates eight counters and a dictionary of rows in place.
\<close>

section \<open>The entry of a call\<close>

text \<open>\<open>_clean_text\<close>, \<open>_safe_int\<close>.\<close>

definition clean_json :: "json \<Rightarrow> string" where
  "clean_json x = strip (join_ws (jstr x))"

definition safe_int :: "json \<Rightarrow> int" where
  "safe_int x = (if truthy x then (case jint x of None \<Rightarrow> 0 | Some n \<Rightarrow> max 0 n) else 0)"

definition clamp_cached_input_tokens :: "json \<Rightarrow> json \<Rightarrow> int" where
  "clamp_cached_input_tokens cached input = min (max (safe_int cached) 0) (safe_int input)"

record call_usage =
  cu_input_tokens :: "int option"
  cu_output_tokens :: "int option"
  cu_prompt_tokens :: "int option"
  cu_completion_tokens :: "int option"
  cu_cached_input_tokens :: "int option"
  cu_reasoning_tokens :: "int option"
  cu_tool_tokens :: "int option"
  cu_embedding_tokens :: "int option"
  cu_unknown_usage_fields :: "string list"

fun opt_int :: "int option \<Rightarrow> json" where
  "opt_int None = JNull"
| "opt_int (Some n) = JInt n"

text \<open>\<open>x if x is not None else y\<close>.\<close>

definition given_or :: "int option \<Rightarrow> json \<Rightarrow> json" where
  "given_or x y = (case x of None \<Rightarrow> y | Some n \<Rightarrow> JInt n)"

definition build_usage_ledger_entry ::
    "string \<Rightarrow> string \<Rightarrow> string \<Rightarrow> call_usage \<Rightarrow> jdict" where
  "build_usage_ledger_entry provider model stage u =
     (let prompt_token_count = safe_int (given_or (cu_prompt_tokens u) (opt_int (cu_input_tokens u)));
          completion_token_count =
            safe_int (given_or (cu_completion_tokens u) (opt_int (cu_output_tokens u)));
          input_token_count = safe_int (given_or (cu_input_tokens u) (JInt prompt_token_count));
          output_token_count = safe_int (given_or (cu_output_tokens u) (JInt completion_token_count));
          embedding_token_count = safe_int (opt_int (cu_embedding_tokens u));
          raw_cached = safe_int (opt_int (cu_cached_input_tokens u));
          cached_token_count = clamp_cached_input_tokens (JInt raw_cached) (JInt input_token_count)
      in [(''provider'', JStr (lower (clean_json (JStr provider)))),
          (''model'', JStr (clean_json (JStr model))),
          (''stage'', JStr (clean_json (JStr stage))),
          (''input_tokens'', JInt input_token_count),
          (''output_tokens'', JInt output_token_count),
          (''prompt_tokens'', JInt prompt_token_count),
          (''completion_tokens'', JInt completion_token_count),
          (''cached_input_tokens'', JInt cached_token_count),
          (''reasoning_tokens'', JInt (safe_int (opt_int (cu_reasoning_tokens u)))),
          (''tool_tokens'', JInt (safe_int (opt_int (cu_tool_tokens u)))),
          (''embedding_tokens'', JInt embedding_token_count),
          (''unknown_usage_fields'', JList (map JStr (cu_unknown_usage_fields u)))])"

section \<open>The summary of a ledger\<close>

record usage_totals =
  ut_input_tokens :: int
  ut_output_tokens :: int
  ut_prompt_tokens :: int
  ut_completion_tokens :: int
  ut_cached_input_tokens :: int
  ut_reasoning_tokens :: int
  ut_tool_tokens :: int
  ut_embedding_tokens :: int

record model_usage =
  mu_provider :: string
  mu_model :: string
  mu_input_tokens :: int
  mu_output_tokens :: int
  mu_cached_input_tokens :: int
  mu_reasoning_tokens :: int
  mu_embedding_tokens :: int

record usage_summary =
  us_entries :: "jdict list"
  us_totals :: usage_totals
  us_token_by_model :: "model_usage list"

definition no_tokens :: usage_totals where
  "no_tokens = \<lparr> ut_input_tokens = 0, ut_output_tokens = 0, ut_prompt_tokens = 0,
     ut_completion_tokens = 0, ut_cached_input_tokens = 0, ut_reasoning_tokens = 0,
     ut_tool_tokens = 0, ut_embedding_tokens = 0 \<rparr>"

definition add_totals :: "jdict \<Rightarrow> usage_totals \<Rightarrow> usage_totals" where
  "add_totals e t =
     \<lparr> ut_input_tokens = ut_input_tokens t + safe_int (jget e ''input_tokens''),
       ut_output_tokens = ut_output_tokens t + safe_int (jget e ''output_tokens''),
       ut_prompt_tokens = ut_prompt_tokens t + safe_int (jget e ''prompt_tokens''),
       ut_completion_tokens = ut_completion_tokens t + safe_int (jget e ''completion_tokens''),
       ut_cached_input_tokens = ut_cached_input_tokens t + safe_int (jget e ''cached_input_tokens''),
       ut_reasoning_tokens = ut_reasoning_tokens t + safe_int (jget e ''reasoning_tokens''),
       ut_tool_tokens = ut_tool_tokens t + safe_int (jget e ''tool_tokens''),
       ut_embedding_tokens = ut_embedding_tokens t + safe_int (jget e ''embedding_tokens'') \<rparr>"

definition usage_key :: "jdict \<Rightarrow> string \<times> string" where
  "usage_key e = (lower (clean_json (jget e ''provider'')), clean_json (jget e ''model''))"

definition new_group :: "string \<times> string \<Rightarrow> model_usage" where
  "new_group k = \<lparr> mu_provider = fst k, mu_model = snd k, mu_input_tokens = 0, mu_output_tokens = 0,
     mu_cached_input_tokens = 0, mu_reasoning_tokens = 0, mu_embedding_tokens = 0 \<rparr>"

definition add_usage :: "jdict \<Rightarrow> model_usage \<Rightarrow> model_usage" where
  "add_usage e g = g\<lparr>
       mu_input_tokens := mu_input_tokens g + safe_int (jget e ''input_tokens''),
       mu_output_tokens := mu_output_tokens g + safe_int (jget e ''output_tokens''),
       mu_cached_input_tokens := mu_cached_input_tokens g + safe_int (jget e ''cached_input_tokens''),
       mu_reasoning_tokens := mu_reasoning_tokens g + safe_int (jget e ''reasoning_tokens''),
       mu_embedding_tokens := mu_embedding_tokens g + safe_int (jget e ''embedding_tokens'') \<rparr>"

text \<open>\<open>grouped.setdefault(key, zeros)\<close>, whose result the following lines add to in place.\<close>

definition add_group ::
    "jdict \<Rightarrow> (string \<times> string, model_usage) dict \<Rightarrow> (string \<times> string, model_usage) dict" where
  "add_group e grouped =
     (let k = usage_key e;
          group = (case dget grouped k of None \<Rightarrow> new_group k | Some g \<Rightarrow> g)
      in dset k (add_usage e group) grouped)"

definition dict_items :: "json list \<Rightarrow> jdict list" where
  "dict_items entries = map jdict (filter is_jdict entries)"

definition aggregate_usage_ledger :: "json list \<Rightarrow> usage_summary" where
  "aggregate_usage_ledger entries =
     (let ledger = dict_items entries
      in \<lparr> us_entries = ledger,
           us_totals = fold add_totals ledger no_tokens,
           us_token_by_model = dvalues (fold add_group ledger []) \<rparr>)"

section \<open>The identity of a family of tickets\<close>

definition or_chain :: "string \<Rightarrow> string \<Rightarrow> string \<Rightarrow> string" where
  "or_chain a b c = or_else a (or_else b c)"

fun ordered_unique :: "string list \<Rightarrow> json list \<Rightarrow> string list" where
  "ordered_unique seen [] = seen"
| "ordered_unique seen (x # xs) =
     (let n = clean_json x
      in if n \<noteq> [] \<and> n \<notin> set seen then ordered_unique (seen @ [n]) xs else ordered_unique seen xs)"

definition resolve_ticket_family_identity :: "jdict \<Rightarrow> json list \<Rightarrow> string \<times> string list" where
  "resolve_ticket_family_identity payload related =
     (let client_ticket_ref = jdict (jget payload ''client_ticket_ref'')
      in (or_chain (clean_json (jget payload ''client_ticket_id''))
            (clean_json (jget client_ticket_ref ''ticket_id''))
            (clean_json (jget payload ''ticket_id'')),
          ordered_unique [] related))"

section \<open>The abstract ledger\<close>

text \<open>What a summary promises: a sum over the entries.\<close>

definition tokens_of :: "string \<Rightarrow> jdict list \<Rightarrow> int" where
  "tokens_of field es = (\<Sum>e\<leftarrow>es. safe_int (jget e field))"

definition of_model :: "string \<times> string \<Rightarrow> jdict list \<Rightarrow> jdict list" where
  "of_model k es = filter (\<lambda>e. usage_key e = k) es"

definition model_row :: "string \<times> string \<Rightarrow> jdict list \<Rightarrow> model_usage" where
  "model_row k es = \<lparr> mu_provider = fst k, mu_model = snd k,
     mu_input_tokens = tokens_of ''input_tokens'' (of_model k es),
     mu_output_tokens = tokens_of ''output_tokens'' (of_model k es),
     mu_cached_input_tokens = tokens_of ''cached_input_tokens'' (of_model k es),
     mu_reasoning_tokens = tokens_of ''reasoning_tokens'' (of_model k es),
     mu_embedding_tokens = tokens_of ''embedding_tokens'' (of_model k es) \<rparr>"

text \<open>The rows in the order in which the models first occur.\<close>

fun first_occurrences :: "'a list \<Rightarrow> 'a list" where
  "first_occurrences [] = []"
| "first_occurrences (x # xs) = x # filter (\<lambda>y. y \<noteq> x) (first_occurrences xs)"

definition usage_spec :: "json list \<Rightarrow> usage_summary" where
  "usage_spec entries =
     (let es = dict_items entries
      in \<lparr> us_entries = es,
           us_totals = \<lparr> ut_input_tokens = tokens_of ''input_tokens'' es,
             ut_output_tokens = tokens_of ''output_tokens'' es,
             ut_prompt_tokens = tokens_of ''prompt_tokens'' es,
             ut_completion_tokens = tokens_of ''completion_tokens'' es,
             ut_cached_input_tokens = tokens_of ''cached_input_tokens'' es,
             ut_reasoning_tokens = tokens_of ''reasoning_tokens'' es,
             ut_tool_tokens = tokens_of ''tool_tokens'' es,
             ut_embedding_tokens = tokens_of ''embedding_tokens'' es \<rparr>,
           us_token_by_model =
             map (\<lambda>k. model_row k es) (first_occurrences (map usage_key es)) \<rparr>)"

lemma tokens_of_simps [simp]:
  "tokens_of f [] = 0" "tokens_of f (e # es) = safe_int (jget e f) + tokens_of f es"
  "tokens_of f (es @ fs) = tokens_of f es + tokens_of f fs"
  by (simp_all add: tokens_of_def)

lemma of_model_simps [simp]:
  "of_model k [] = []" "of_model k (es @ [e]) = of_model k es @ (if usage_key e = k then [e] else [])"
  by (simp_all add: of_model_def)

lemma totals_refined:
  "fold add_totals es no_tokens =
     \<lparr> ut_input_tokens = tokens_of ''input_tokens'' es, ut_output_tokens = tokens_of ''output_tokens'' es,
       ut_prompt_tokens = tokens_of ''prompt_tokens'' es,
       ut_completion_tokens = tokens_of ''completion_tokens'' es,
       ut_cached_input_tokens = tokens_of ''cached_input_tokens'' es,
       ut_reasoning_tokens = tokens_of ''reasoning_tokens'' es,
       ut_tool_tokens = tokens_of ''tool_tokens'' es, ut_embedding_tokens = tokens_of ''embedding_tokens'' es \<rparr>"
  by (induction es rule: rev_induct) (simp_all add: no_tokens_def add_totals_def)

lemma set_first_occurrences [simp]: "set (first_occurrences xs) = set xs"
  by (induction xs) auto

lemma distinct_first_occurrences [simp]: "distinct (first_occurrences xs)"
  by (induction xs) auto

lemma first_occurrences_snoc:
  "first_occurrences (xs @ [x]) = (if x \<in> set xs then first_occurrences xs else first_occurrences xs @ [x])"
  by (induction xs) auto

lemma dset_rows:
  "distinct ks \<Longrightarrow> (\<And>j. j \<noteq> k \<Longrightarrow> f' j = f j) \<Longrightarrow>
     dset k (f' k) (map (\<lambda>j. (j, f j)) ks) =
       map (\<lambda>j. (j, f' j)) (if k \<in> set ks then ks else ks @ [k])"
proof (induction ks)
  case (Cons j ks)
  have "f x = f' x" if "k \<notin> set ks" "x \<in> set ks" for x
    using that Cons.prems(2) [of x] by (cases "x = k") auto
  with Cons show ?case by auto
qed simp

lemma groups_refined:
  "fold add_group es [] = map (\<lambda>k. (k, model_row k es)) (first_occurrences (map usage_key es))"
proof (induction es rule: rev_induct)
  case (snoc e es)
  let ?k = "usage_key e" and ?ks = "first_occurrences (map usage_key es)"
  let ?d = "map (\<lambda>k. (k, model_row k es)) ?ks"
  have row: "(case dget ?d ?k of None \<Rightarrow> new_group ?k | Some g \<Rightarrow> g) = model_row ?k es"
  proof (cases "?k \<in> set ?ks")
    case False
    then have "of_model ?k es = []" by (force simp: of_model_def filter_empty_conv intro: rev_image_eqI)
    with False show ?thesis by (simp add: map_of_map_restrict new_group_def model_row_def)
  qed (simp add: map_of_map_restrict)
  have "add_usage e (model_row ?k es) = model_row ?k (es @ [e])"
    by (simp add: add_usage_def model_row_def)
  moreover have "model_row j (es @ [e]) = model_row j es" if "j \<noteq> ?k" for j
    using that by (simp add: model_row_def)
  ultimately have "dset ?k (add_usage e (model_row ?k es)) ?d =
      map (\<lambda>k. (k, model_row k (es @ [e]))) (if ?k \<in> set ?ks then ?ks else ?ks @ [?k])"
    using dset_rows [of ?ks ?k "\<lambda>j. model_row j (es @ [e])" "\<lambda>j. model_row j es"] by simp
  with row snoc show ?case by (simp add: add_group_def Let_def first_occurrences_snoc)
qed simp

text \<open>
  An entry holds no negative count and never more cached than input tokens, so neither does a
  summary of entries.
\<close>

lemma safe_int_nonneg [simp]: "0 \<le> safe_int x"
  by (simp add: safe_int_def split: option.split)

lemma safe_int_JInt [simp]: "safe_int (JInt n) = max 0 n"
  by (simp add: safe_int_def)

lemma tokens_of_nonneg [simp]: "0 \<le> tokens_of f es"
  by (induction es) simp_all

lemma built_entry_cached:
  "safe_int (jget (build_usage_ledger_entry p m s u) ''cached_input_tokens'')
     \<le> safe_int (jget (build_usage_ledger_entry p m s u) ''input_tokens'')"
  by (simp add: build_usage_ledger_entry_def Let_def clamp_cached_input_tokens_def)

lemma built_ledger_cached:
  assumes "\<And>e. e \<in> set entries \<Longrightarrow> \<exists>p m s u. e = JDict (build_usage_ledger_entry p m s u)"
  shows "ut_cached_input_tokens (us_totals (aggregate_usage_ledger entries))
           \<le> ut_input_tokens (us_totals (aggregate_usage_ledger entries))"
proof -
  have "tokens_of ''cached_input_tokens'' (dict_items entries) \<le> tokens_of ''input_tokens'' (dict_items entries)"
    using assms
  proof (induction entries)
    case (Cons e es)
    then obtain p m s u where "e = JDict (build_usage_ledger_entry p m s u)" by force
    with Cons built_entry_cached [of p m s u] show ?case by (simp add: dict_items_def add_mono)
  qed (simp add: dict_items_def)
  then show ?thesis by (simp add: aggregate_usage_ledger_def Let_def totals_refined)
qed

text \<open>C34
  Summarising a ledger of model calls implements its abstract specification: the one pass over the
  entries, which updates counters and a dictionary of rows in place, returns for every total the
  sum of its field over the entries, and one row per (provider, model) pair, in the order of first
  use, whose counts are the sums over that pair's entries.
\<close>

theorem usage_summary_refines: "aggregate_usage_ledger entries = usage_spec entries"
  by (simp add: aggregate_usage_ledger_def usage_spec_def Let_def totals_refined groups_refined comp_def)

end
