(* ===== verification/Context_Budget.thy ===== *)
theory Context_Budget
  imports Token_Usage "HOL-Library.Sublist"
begin

text \<open>
  Packing retrieved chunks into the prompt of an answer (\<open>services/rag_context_budget.py\<close>): the
  token estimate, the budget left for context, the reduction of chunks to their best sentences,
  the compression by a language model, and the loop that fits entries into the budget.

  A similarity or a rerank score is a value of the type \<open>'f\<close>, which the code only carries along;
  \<open>clamp\<close> stands for \<open>round(max(0.0, min(1.0, x)), 4)\<close>. The model call is the argument
  \<open>invoke\<close>, whose \<open>None\<close> is \<open>LlmInvocationError\<close>, and \<open>json.loads\<close> is \<open>loads\<close>, whose
  \<open>None\<close> is \<open>JSONDecodeError\<close>. The ratio of redundant chunks is kept as a fraction.
\<close>

section \<open>Estimates and budgets\<close>

text \<open>\<open>_clean_text\<close> of a string.\<close>

definition clean_text :: "string \<Rightarrow> string" where
  "clean_text s = strip (join_ws s)"

definition estimate_text_tokens :: "string \<Rightarrow> int" where
  "estimate_text_tokens text =
     (let normalized = strip (join_ws text)
      in if normalized = [] then 0
         else let word_count = int (length (split_ws normalized));
                  char_estimate = (int (length normalized) + 3) div 4
              in max 1 (max word_count char_estimate))"

definition default_model_context_windows :: "(string, int) dict" where
  "default_model_context_windows =
     [(''gpt-5'', 400000), (''gpt-5.4'', 400000), (''gpt-5.4-mini'', 400000),
      (''gpt-5.4-nano'', 400000), (''gpt-4.1'', 128000), (''gpt-4.1-mini'', 128000),
      (''gpt-4o'', 128000), (''gpt-4o-mini'', 128000)]"

definition model_context_window :: "string option \<Rightarrow> int" where
  "model_context_window model_name =
     (let normalized = lower (strip (join_ws (ostr model_name)))
      in if normalized = [] then 128000
         else case dget default_model_context_windows normalized of
             Some n \<Rightarrow> n
           | None \<Rightarrow> if take 5 normalized = ''gpt-5'' then 400000 else 128000)"

record context_budget =
  bd_context_window :: int
  bd_system_prompt_tokens :: int
  bd_history_tokens :: int
  bd_prompt_tokens :: int
  bd_tool_tokens :: int
  bd_reserved_output_tokens :: int
  bd_buffer_tokens :: int
  bd_available_context_tokens :: int

text \<open>\<open>max(1, int(x or 1))\<close>.\<close>

definition at_least_one :: "int \<Rightarrow> int" where
  "at_least_one n = max 1 (if n = 0 then 1 else n)"

definition build_context_budget ::
    "int \<Rightarrow> string \<Rightarrow> string \<Rightarrow> string \<Rightarrow> string \<Rightarrow> int \<Rightarrow> int \<Rightarrow> context_budget" where
  "build_context_budget window system_prompt history user_prompt tool_schema reserved buffer =
     (let safe_window = at_least_one window;
          safe_reserved = max 0 reserved;
          safe_buffer = max 0 buffer;
          system_tokens = estimate_text_tokens system_prompt;
          history_tokens = estimate_text_tokens history;
          prompt_tokens = estimate_text_tokens user_prompt;
          tool_tokens = estimate_text_tokens tool_schema
      in \<lparr> bd_context_window = safe_window, bd_system_prompt_tokens = system_tokens,
           bd_history_tokens = history_tokens, bd_prompt_tokens = prompt_tokens,
           bd_tool_tokens = tool_tokens, bd_reserved_output_tokens = safe_reserved,
           bd_buffer_tokens = safe_buffer,
           bd_available_context_tokens =
             max 0 (safe_window - (system_tokens + history_tokens + prompt_tokens + tool_tokens
                                   + safe_reserved + safe_buffer)) \<rparr>)"

section \<open>Chunks and context entries\<close>

record 'f chunk =
  ch_chunk_id :: string
  ch_text :: string
  ch_source_path :: string
  ch_similarity :: 'f
  ch_doc_id :: "string option"
  ch_h1 :: "string option"
  ch_h2 :: "string option"
  ch_h3 :: "string option"
  ch_source_url :: "string option"
  ch_source_type :: "string option"
  ch_chunk_strategy :: "string option"
  ch_metadata :: jdict
  ch_rerank_score :: "'f option"
  ch_rerank_reasons :: "string list"

record 'f entry =
  en_chunk_id :: string
  en_doc_id :: "string option"
  en_source_path :: string
  en_heading :: string
  en_source_url :: "string option"
  en_source_type :: "string option"
  en_chunk_strategy :: "string option"
  en_similarity :: 'f
  en_metadata :: jdict
  en_rerank_score :: "'f option"
  en_rerank_reasons :: "string list"
  en_text :: string
  en_text_excerpt :: string
  en_packing_mode :: string

definition build_heading :: "'f chunk \<Rightarrow> string" where
  "build_heading c =
     (let items = filter (\<lambda>s. s \<noteq> []) (map ostr [ch_h1 c, ch_h2 c, ch_h3 c])
      in if items = [] then ''Unknown heading'' else intersperse '' > '' items)"

definition context_entry_from_chunk :: "('f \<Rightarrow> 'f) \<Rightarrow> 'f chunk \<Rightarrow> string \<Rightarrow> string \<Rightarrow> 'f entry" where
  "context_entry_from_chunk clamp c text packing_mode =
     \<lparr> en_chunk_id = ch_chunk_id c, en_doc_id = ch_doc_id c, en_source_path = ch_source_path c,
       en_heading = build_heading c, en_source_url = ch_source_url c,
       en_source_type = ch_source_type c, en_chunk_strategy = ch_chunk_strategy c,
       en_similarity = clamp (ch_similarity c), en_metadata = ch_metadata c,
       en_rerank_score = ch_rerank_score c, en_rerank_reasons = ch_rerank_reasons c,
       en_text = clean_text text, en_text_excerpt = clean_text text,
       en_packing_mode = packing_mode \<rparr>"

definition entry_header :: "'f entry \<Rightarrow> string" where
  "entry_header e =
     ''['' @ en_chunk_id e @ ''] '' @ en_source_path e @ '' | '' @ en_heading e"

definition entry_block :: "'f entry \<Rightarrow> string" where
  "entry_block e = entry_header e @ [CHR 0x0A] @ clean_text (en_text e)"

definition block_separator :: string where
  "block_separator = [CHR 0x0A, CHR 0x0A] @ ''---'' @ [CHR 0x0A, CHR 0x0A]"

definition format_context_from_entries :: "'f entry list \<Rightarrow> string" where
  "format_context_from_entries es = intersperse block_separator (map entry_block es)"

section \<open>Fitting\<close>

text \<open>The loop that keeps words while they fit.\<close>

fun keep_words :: "int \<Rightarrow> string list \<Rightarrow> string list \<Rightarrow> string list" where
  "keep_words budget kept [] = kept"
| "keep_words budget kept (w # ws) =
     (if budget < estimate_text_tokens (strip (intersperse '' '' (kept @ [w]))) then kept
      else keep_words budget (kept @ [w]) ws)"

definition rstrip :: "string \<Rightarrow> string" where
  "rstrip s = rev (dropWhile py_space (rev s))"

definition truncate_text_to_budget :: "string \<Rightarrow> int \<Rightarrow> string" where
  "truncate_text_to_budget text max_tokens =
     (let normalized = clean_text text;
          safe_budget = at_least_one max_tokens
      in if normalized = [] then []
         else if estimate_text_tokens normalized \<le> safe_budget then normalized
         else let ws = split_ws normalized
              in if ws = [] then normalized
                 else let kept = keep_words safe_budget [] ws
                      in if kept \<noteq> [] then strip (intersperse '' '' kept)
                         else rstrip (take (nat (max 12 (safe_budget * 4))) normalized) @ ''...'')"

definition truncated_entry :: "int \<Rightarrow> 'f entry \<Rightarrow> 'f entry" where
  "truncated_entry budget e =
     (let remaining = max 1 (budget - estimate_text_tokens (entry_header e));
          text = truncate_text_to_budget (clean_text (en_text e)) remaining
      in e\<lparr> en_text := text, en_text_excerpt := text \<rparr>)"

fun fit_entries :: "int \<Rightarrow> 'f entry list \<Rightarrow> 'f entry list \<Rightarrow> int \<Rightarrow> 'f entry list" where
  "fit_entries budget [] selected used = selected"
| "fit_entries budget (e # es) selected used =
     (let entry_tokens = estimate_text_tokens (format_context_from_entries [e]);
          separator_tokens = (if selected = [] then 0 else estimate_text_tokens ''---'')
      in if used + separator_tokens + entry_tokens \<le> budget
         then fit_entries budget es (selected @ [e]) (used + (separator_tokens + entry_tokens))
         else if selected \<noteq> [] then fit_entries budget es selected used
         else [truncated_entry budget e])"

definition fit_entries_to_budget :: "'f entry list \<Rightarrow> int \<Rightarrow> 'f entry list" where
  "fit_entries_to_budget es available = fit_entries (at_least_one available) es [] 0"

section \<open>Extraction\<close>

text \<open>
  Splitting at \<open>(?<=[.!?])\s+|\n+\<close>: the argument \<open>before\<close> is the character in front of the
  position, where the look-behind reads.
\<close>

definition sentence_end :: "char option \<Rightarrow> bool" where
  "sentence_end before = (case before of None \<Rightarrow> False | Some c \<Rightarrow> c \<in> {CHR ''.'', CHR ''!'', CHR ''?''})"

definition skip_run :: "(char \<Rightarrow> bool) \<Rightarrow> string \<Rightarrow> string" where
  "skip_run P s = dropWhile P s"

function (sequential) sentence_split :: "string \<Rightarrow> char option \<Rightarrow> string \<Rightarrow> string list" where
  "sentence_split acc before [] = [rev acc]"
| "sentence_split acc before (c # s) =
     (if sentence_end before \<and> py_space c
      then rev acc # sentence_split [] (Some (last (c # takeWhile py_space s))) (skip_run py_space s)
      else if c = CHR 0x0A
      then rev acc # sentence_split [] (Some (CHR 0x0A)) (skip_run (\<lambda>d. d = CHR 0x0A) s)
      else sentence_split (c # acc) (Some c) s)"
  by pat_completeness auto
termination
  by (relation "measure (\<lambda>(acc, before, s). length s)")
     (auto simp: skip_run_def less_Suc_eq_le length_dropWhile_le)

definition split_sentences :: "string \<Rightarrow> string list" where
  "split_sentences text =
     (let normalized = clean_text text
      in if normalized = [] then []
         else let segments = filter (\<lambda>s. s \<noteq> []) (map strip (sentence_split [] None normalized))
              in if segments = [] then [normalized] else segments)"

definition context_stopwords :: "string list" where
  "context_stopwords = [''a'', ''an'', ''and'', ''are'', ''by'', ''can'', ''do'', ''for'', ''from'',
     ''how'', ''i'', ''in'', ''is'', ''it'', ''my'', ''of'', ''on'', ''or'', ''the'', ''to'', ''what'', ''with'']"

text \<open>\<open>re.findall(r"[a-zA-Z0-9_.+-]+", s)\<close>.\<close>

definition term_char :: "char \<Rightarrow> bool" where
  "term_char c =
     (let n = (of_char c :: nat)
      in (97 \<le> n \<and> n \<le> 122) \<or> (65 \<le> n \<and> n \<le> 90) \<or> (48 \<le> n \<and> n \<le> 57) \<or>
         c \<in> {CHR ''_'', CHR ''.'', CHR ''+'', CHR ''-''})"

fun runs :: "(char \<Rightarrow> bool) \<Rightarrow> string \<Rightarrow> string \<Rightarrow> string list" where
  "runs P w [] = (if w = [] then [] else [rev w])"
| "runs P w (c # s) =
     (if P c then runs P (c # w) s else if w = [] then runs P [] s else rev w # runs P [] s)"

definition query_terms :: "string \<Rightarrow> string list" where
  "query_terms question =
     remdups (filter (\<lambda>t. t \<noteq> [] \<and> t \<notin> set context_stopwords \<and> 3 \<le> length t)
       (map (\<lambda>t. lower (strip t)) (runs term_char [] (lower question))))"

definition score_sentence :: "string list \<Rightarrow> string \<Rightarrow> string \<Rightarrow> int \<times> int \<times> int" where
  "score_sentence terms heading sentence =
     (int (length (filter (\<lambda>t. occurs_in t (lower sentence)) terms)),
      int (length (filter (\<lambda>t. occurs_in t (lower heading)) terms)),
      - int (length sentence))"

fun pick_sentences :: "nat \<Rightarrow> string list \<Rightarrow> string list \<Rightarrow> string list" where
  "pick_sentences k selected [] = selected"
| "pick_sentences k selected (s # ss) =
     (let n = clean_text s
      in if n = [] \<or> n \<in> set selected then pick_sentences k selected ss
         else if k \<le> length (selected @ [n]) then selected @ [n]
         else pick_sentences k (selected @ [n]) ss)"

definition extractive_text :: "string \<Rightarrow> 'f chunk \<Rightarrow> int \<Rightarrow> string" where
  "extractive_text question c max_sentences =
     (let sentences = split_sentences (ch_text c);
          k = nat (max 1 max_sentences)
      in if sentences = [] then []
         else let terms = query_terms question
              in if terms = [] then strip (intersperse '' '' (take k sentences))
                 else let ranked = sort_desc (score_sentence terms (build_heading c)) sentences;
                          picked = pick_sentences k [] ranked;
                          selected = (if picked = [] then [clean_text (hd sentences)] else picked)
                      in strip (intersperse '' '' selected))"

section \<open>When to compress\<close>

text \<open>\<open>_redundancy_ratio\<close> is \<open>1 - distinct / total\<close>; \<open>ratio >= 0.4\<close> says \<open>5 * distinct <= 3 * total\<close>.\<close>

definition redundancy_ratio :: "'f chunk list \<Rightarrow> nat \<times> nat" where
  "redundancy_ratio cs =
     (length (remdups (map (\<lambda>c. (clean_text (ch_source_path c), build_heading c)) cs)), length cs)"

definition high_redundancy :: "nat \<times> nat \<Rightarrow> bool" where
  "high_redundancy r = (snd r \<noteq> 0 \<and> 5 * fst r \<le> 3 * snd r)"

definition compression_trigger_reason ::
    "int \<Rightarrow> nat \<Rightarrow> nat \<times> nat \<Rightarrow> context_budget \<Rightarrow> int option \<Rightarrow> string option" where
  "compression_trigger_reason raw_estimate candidates redundancy budget top_k =
     (if bd_available_context_tokens budget < raw_estimate then Some ''token_budget''
      else if max 6 ((case top_k of None \<Rightarrow> 0 | Some k \<Rightarrow> k) * 2) < int candidates
      then Some ''candidate_overflow''
      else if high_redundancy redundancy then Some ''redundancy''
      else None)"

section \<open>Compression by a model\<close>

record model_profile =
  mp_provider :: string
  mp_model :: string
  mp_api_key :: string
  mp_fallback_api_keys :: "string list"

definition profile_has_invocation_credentials :: "model_profile \<Rightarrow> bool" where
  "profile_has_invocation_credentials p =
     (clean_text (mp_api_key p) \<noteq> [] \<or> list_ex (\<lambda>k. clean_text k \<noteq> []) (mp_fallback_api_keys p))"

record llm_reply =
  lr_text :: string
  lr_model_name :: string
  lr_prompt_tokens :: "int option"
  lr_completion_tokens :: "int option"
  lr_cached_input_tokens :: "int option"
  lr_reasoning_tokens :: "int option"

type_synonym invoke = "model_profile \<Rightarrow> string \<Rightarrow> jdict list \<Rightarrow> int \<Rightarrow> llm_reply option"

definition compression_entries_payload :: "'f entry list \<Rightarrow> jdict list" where
  "compression_entries_payload es = map (\<lambda>e.
     [(''chunk_id'', JStr (en_chunk_id e)), (''source_path'', JStr (en_source_path e)),
      (''heading'', JStr (en_heading e)), (''snippet'', JStr (en_text e))]) es"

definition compression_usage :: "model_profile \<Rightarrow> llm_reply \<Rightarrow> jdict" where
  "compression_usage p r =
     build_usage_ledger_entry (mp_provider p) (mp_model p) ''context_compression''
       \<lparr> cu_input_tokens = lr_prompt_tokens r, cu_output_tokens = lr_completion_tokens r,
         cu_prompt_tokens = lr_prompt_tokens r, cu_completion_tokens = lr_completion_tokens r,
         cu_cached_input_tokens = lr_cached_input_tokens r,
         cu_reasoning_tokens = lr_reasoning_tokens r, cu_tool_tokens = None,
         cu_embedding_tokens = None, cu_unknown_usage_fields = [] \<rparr>"

text \<open>\<open>{str(entry["chunk_id"]).strip(): entry for entry in entries}\<close>: the last entry of an id counts.\<close>

definition entry_map :: "'f entry list \<Rightarrow> (string, 'f entry) dict" where
  "entry_map es = fold (\<lambda>e. dset (strip (en_chunk_id e)) e) es []"

fun compressed_items :: "(string, 'f entry) dict \<Rightarrow> json list \<Rightarrow> 'f entry list" where
  "compressed_items em [] = []"
| "compressed_items em (item # items) =
     (if \<not> is_jdict item then compressed_items em items
      else let chunk_id = clean_json (jget (jdict item) ''chunk_id'');
               packed = clean_json (jget (jdict item) ''packed_text'')
           in case dget em chunk_id of
                None \<Rightarrow> compressed_items em items
              | Some base \<Rightarrow>
                  if chunk_id = [] \<or> packed = [] then compressed_items em items
                  else base\<lparr> en_text := packed, en_text_excerpt := packed, en_packing_mode := ''compressive'' \<rparr>
                       # compressed_items em items)"

definition compress_entries_with_llm ::
    "invoke \<Rightarrow> (string \<Rightarrow> json option) \<Rightarrow> string \<Rightarrow> 'f entry list \<Rightarrow> int \<Rightarrow> model_profile
       \<Rightarrow> 'f entry list option \<times> string option \<times> jdict option" where
  "compress_entries_with_llm invoke loads question es available p =
     (if es = [] \<or> \<not> profile_has_invocation_credentials p then (None, None, None)
      else case invoke p question (compression_entries_payload es) available of
          None \<Rightarrow> (None, None, None)
        | Some r \<Rightarrow>
            let usage = Some (compression_usage p r)
            in case loads (strip (lr_text r)) of
                 None \<Rightarrow> (None, Some (lr_model_name r), usage)
               | Some parsed \<Rightarrow>
                   let items = jlist (jget (jdict parsed) ''evidence'');
                       compressed = compressed_items (entry_map es) items
                   in if compressed = [] then (None, Some (lr_model_name r), usage)
                      else (Some compressed, Some (lr_model_name r), usage))"

section \<open>Packing\<close>

record 'f packed_evidence =
  pe_budget :: context_budget
  pe_chunk_ids :: "string list"
  pe_prompt_context :: string
  pe_selected_contexts :: "'f entry list"
  pe_raw_context_token_estimate :: int
  pe_packed_context_token_estimate :: int
  pe_compression_triggered :: bool
  pe_compression_trigger_reason :: "string option"
  pe_compression_mode :: string
  pe_compression_model :: "string option"
  pe_extractive_segment_count :: nat
  pe_packed_evidence_count :: nat
  pe_compression_usage_ledger :: "jdict list"

record packing_request =
  pr_question :: string
  pr_system_prompt_text :: string
  pr_user_prompt_text :: string
  pr_tool_schema_text :: string
  pr_context_window :: int
  pr_reserved_output_tokens :: int
  pr_buffer_tokens :: int
  pr_compression_enabled :: bool
  pr_compression_profile :: "model_profile option"
  pr_history_text :: string
  pr_top_k :: "int option"

definition entry_ids :: "'f entry list \<Rightarrow> string list" where
  "entry_ids es = filter (\<lambda>s. s \<noteq> []) (map (\<lambda>e. strip (en_chunk_id e)) es)"

definition request_budget :: "packing_request \<Rightarrow> context_budget" where
  "request_budget r =
     build_context_budget (pr_context_window r) (pr_system_prompt_text r) (pr_history_text r)
       (pr_user_prompt_text r) (pr_tool_schema_text r) (pr_reserved_output_tokens r) (pr_buffer_tokens r)"

definition empty_evidence :: "context_budget \<Rightarrow> 'f packed_evidence" where
  "empty_evidence budget =
     \<lparr> pe_budget = budget, pe_chunk_ids = [], pe_prompt_context = [], pe_selected_contexts = [],
       pe_raw_context_token_estimate = 0, pe_packed_context_token_estimate = 0,
       pe_compression_triggered = False, pe_compression_trigger_reason = None,
       pe_compression_mode = ''raw'', pe_compression_model = None, pe_extractive_segment_count = 0,
       pe_packed_evidence_count = 0, pe_compression_usage_ledger = [] \<rparr>"

definition raw_evidence :: "context_budget \<Rightarrow> int \<Rightarrow> 'f entry list \<Rightarrow> 'f packed_evidence" where
  "raw_evidence budget raw_estimate raw_entries =
     (let selected = fit_entries_to_budget raw_entries (bd_available_context_tokens budget);
          context = format_context_from_entries selected
      in \<lparr> pe_budget = budget, pe_chunk_ids = entry_ids selected, pe_prompt_context = context,
           pe_selected_contexts = selected, pe_raw_context_token_estimate = raw_estimate,
           pe_packed_context_token_estimate = estimate_text_tokens context,
           pe_compression_triggered = False, pe_compression_trigger_reason = None,
           pe_compression_mode = ''raw'', pe_compression_model = None, pe_extractive_segment_count = 0,
           pe_packed_evidence_count = length selected, pe_compression_usage_ledger = [] \<rparr>)"

text \<open>The entries of the best sentences; when no chunk has any, the raw entries that fit.\<close>

definition extractive_entries ::
    "('f \<Rightarrow> 'f) \<Rightarrow> string \<Rightarrow> 'f chunk list \<Rightarrow> 'f entry list \<Rightarrow> context_budget \<Rightarrow> 'f entry list" where
  "extractive_entries clamp question chunks raw_entries budget =
     (let es = map (\<lambda>(c, t). context_entry_from_chunk clamp c t ''extractive'')
                 (filter (\<lambda>(c, t). t \<noteq> []) (map (\<lambda>c. (c, extractive_text question c 2)) chunks))
      in if es = [] then fit_entries_to_budget raw_entries (bd_available_context_tokens budget) else es)"

text \<open>The part of \<open>build_packed_evidence\<close> after the decision to compress.\<close>

definition compressed_evidence ::
    "('f \<Rightarrow> 'f) \<Rightarrow> invoke \<Rightarrow> (string \<Rightarrow> json option) \<Rightarrow> model_profile \<Rightarrow> packing_request \<Rightarrow>
       context_budget \<Rightarrow> int \<Rightarrow> string option \<Rightarrow> 'f chunk list \<Rightarrow> 'f entry list \<Rightarrow> 'f packed_evidence" where
  "compressed_evidence clamp invoke loads default_profile r budget raw_estimate reason chunks raw_entries =
     (let available = bd_available_context_tokens budget;
          extracted = extractive_entries clamp (pr_question r) chunks raw_entries budget;
          p = (case pr_compression_profile r of Some p \<Rightarrow> p | None \<Rightarrow> default_profile);
          (compressed, model, usage) =
            compress_entries_with_llm invoke loads (pr_question r) extracted available p;
          ledger = (case usage of Some u \<Rightarrow> if u = [] then [] else [u] | None \<Rightarrow> []);
          (packed, mode) =
            (case compressed of
               Some (c # cs) \<Rightarrow> (fit_entries_to_budget (c # cs) available, ''compressive'')
             | _ \<Rightarrow> (fit_entries_to_budget extracted available, ''extractive''));
          (packed', mode', reason') =
            (if packed = [] then (fit_entries_to_budget raw_entries available, ''raw'', None)
             else (packed, mode, reason));
          context = format_context_from_entries packed'
      in \<lparr> pe_budget = budget, pe_chunk_ids = entry_ids packed', pe_prompt_context = context,
           pe_selected_contexts = packed', pe_raw_context_token_estimate = raw_estimate,
           pe_packed_context_token_estimate = estimate_text_tokens context,
           pe_compression_triggered = True, pe_compression_trigger_reason = reason',
           pe_compression_mode = mode',
           pe_compression_model = (if mode' = ''compressive'' then model else None),
           pe_extractive_segment_count = length extracted, pe_packed_evidence_count = length packed',
           pe_compression_usage_ledger = ledger \<rparr>)"

definition build_packed_evidence ::
    "('f \<Rightarrow> 'f) \<Rightarrow> invoke \<Rightarrow> (string \<Rightarrow> json option) \<Rightarrow> model_profile \<Rightarrow> packing_request \<Rightarrow>
       'f chunk list \<Rightarrow> 'f packed_evidence" where
  "build_packed_evidence clamp invoke loads default_profile r chunks =
     (let normalized = filter (\<lambda>c. clean_text (ch_text c) \<noteq> []) chunks;
          budget = request_budget r;
          raw_entries = map (\<lambda>c. context_entry_from_chunk clamp c (ch_text c) ''raw'') normalized;
          raw_estimate = estimate_text_tokens (format_context_from_entries raw_entries);
          reason = compression_trigger_reason raw_estimate (length normalized)
                     (redundancy_ratio normalized) budget (pr_top_k r)
      in if normalized = [] then empty_evidence budget
         else if reason = None \<or> \<not> pr_compression_enabled r then raw_evidence budget raw_estimate raw_entries
         else compressed_evidence clamp invoke loads default_profile r budget raw_estimate reason
                normalized raw_entries)"

section \<open>Estimates of joined texts\<close>

text \<open>The words of a text and the length of the text they make, on which the estimate depends.\<close>

definition chars :: "string list \<Rightarrow> int" where
  "chars ws = (\<Sum>w\<leftarrow>ws. int (length w)) + int (length ws) - 1"

definition words_estimate :: "string list \<Rightarrow> int" where
  "words_estimate ws = (if ws = [] then 0 else max (int (length ws)) ((chars ws + 3) div 4))"

lemma words_acc_space: "py_space c \<Longrightarrow> words_acc w (a @ c # b) = words_acc w a @ words_acc [] b"
  by (induction a arbitrary: w) auto

lemma split_ws_space: "py_space c \<Longrightarrow> split_ws (a @ c # b) = split_ws a @ split_ws b"
  by (simp add: split_ws_def words_acc_space)

lemma words_acc_empty: "words_acc w s = [] \<longleftrightarrow> w = [] \<and> list_all py_space s"
  by (induction w s rule: words_acc.induct) auto

lemma split_ws_empty: "split_ws s = [] \<longleftrightarrow> list_all py_space s"
  by (simp add: split_ws_def words_acc_empty)

lemma split_ws_words: "v \<in> set (split_ws s) \<Longrightarrow> v \<noteq> [] \<and> (\<forall>c \<in> set v. \<not> py_space c)"
  using words_acc_words [of "[]" v s] by (simp add: split_ws_def)

lemma split_join_ws [simp]: "split_ws (join_ws s) = split_ws s"
  using split_ws_words [of _ s] by (simp add: join_ws_def split_join)

lemma length_intersperse:
  "ws \<noteq> [] \<Longrightarrow> int (length (intersperse '' '' ws)) = chars ws"
  by (induction ws rule: induct_list012) (auto simp: chars_def)

lemma join_ws_empty [simp]: "join_ws s = [] \<longleftrightarrow> split_ws s = []"
proof
  assume e: "join_ws s = []"
  have "split_ws (join_ws s) = []" unfolding e by (simp add: split_ws_def)
  then show "split_ws s = []" by simp
qed (simp add: join_ws_def)

lemma estimate_words: "estimate_text_tokens s = words_estimate (split_ws s)"
proof (cases "split_ws s = []")
  case False
  then have "1 \<le> length (split_ws s)" by (simp add: Suc_le_eq)
  moreover have "int (length (join_ws s)) = chars (split_ws s)"
    unfolding join_ws_def using False by (rule length_intersperse)
  ultimately show ?thesis
    using False by (auto simp: estimate_text_tokens_def words_estimate_def Let_def max_def)
qed (simp add: estimate_text_tokens_def words_estimate_def)

lemma clean_text_join [simp]: "clean_text s = join_ws s"
  by (simp add: clean_text_def)

lemma words_estimate_bounds:
  "ws \<noteq> [] \<Longrightarrow> int (length ws) \<le> words_estimate ws \<and> chars ws \<le> 4 * words_estimate ws"
  by (simp add: words_estimate_def max_def) presburger

lemma chars_append:
  "vs \<noteq> [] \<Longrightarrow> chars (ws @ v # vs) = chars ws + int (length v) + 2 + chars vs"
  by (simp add: chars_def)

section \<open>The fitted context\<close>

definition block_words :: "'f entry \<Rightarrow> string list" where
  "block_words e = split_ws (entry_block e)"

lemma block_words_nonempty [simp]: "block_words e \<noteq> []"
  by (simp add: block_words_def split_ws_empty entry_block_def entry_header_def py_space_def)

lemma newline_space: "py_space (CHR 0x0A)"
  by (simp add: py_space_def)

lemma separator_words: "split_ws (a @ block_separator @ b) = split_ws a @ ''---'' # split_ws b"
proof -
  have "split_ws (a @ block_separator @ b) = split_ws a @ split_ws (''---'' @ [CHR 0x0A, CHR 0x0A] @ b)"
    using split_ws_space [OF newline_space, of a] split_ws_space [OF newline_space, of "[]"]
    by (simp add: block_separator_def split_ws_def)
  also have "\<dots> = split_ws a @ split_ws ''---'' @ split_ws b"
    using split_ws_space [OF newline_space, of "''---''"] split_ws_space [OF newline_space, of "[]"]
    by (simp add: split_ws_def)
  also have "split_ws ''---'' = [''---'']" by code_simp
  finally show ?thesis by simp
qed

fun context_words :: "'f entry list \<Rightarrow> string list" where
  "context_words [] = []"
| "context_words [e] = block_words e"
| "context_words (e # f # es) = block_words e @ ''---'' # context_words (f # es)"

lemma split_format: "split_ws (format_context_from_entries es) = context_words es"
proof (induction es rule: context_words.induct)
  case (3 e f es)
  then show ?case
    using separator_words [of "entry_block e" "format_context_from_entries (f # es)"]
    by (simp add: format_context_from_entries_def block_words_def)
qed (simp_all add: format_context_from_entries_def block_words_def split_ws_def)

text \<open>What the loop has counted when it has selected \<open>es\<close>.\<close>

definition counted_tokens :: "'f entry list \<Rightarrow> int" where
  "counted_tokens es =
     (\<Sum>e\<leftarrow>es. estimate_text_tokens (format_context_from_entries [e])) + max 0 (int (length es) - 1)"

lemma entry_estimate: "estimate_text_tokens (format_context_from_entries [e]) = words_estimate (block_words e)"
  by (simp add: estimate_words split_format)

lemma separator_estimate [simp]: "estimate_text_tokens ''---'' = 1"
  by code_simp

lemma counted_snoc:
  "counted_tokens (es @ [e]) = counted_tokens es + (if es = [] then 0 else 1)
     + estimate_text_tokens (format_context_from_entries [e])"
  by (cases es) (simp_all add: counted_tokens_def)

lemma counted_single [simp]: "counted_tokens [e] = estimate_text_tokens (format_context_from_entries [e])"
  by (simp add: counted_tokens_def)

lemma context_words_nonempty [simp]: "es \<noteq> [] \<Longrightarrow> context_words es \<noteq> []"
  by (cases es rule: context_words.cases) simp_all

lemma context_words_bounds:
  "es \<noteq> [] \<Longrightarrow> int (length (context_words es)) \<le> counted_tokens es \<and>
     chars (context_words es) \<le> 4 * counted_tokens es + (int (length es) - 1)"
proof (induction es rule: context_words.induct)
  case (2 e)
  then show ?case using words_estimate_bounds [of "block_words e"]
    by (simp add: counted_tokens_def entry_estimate)
next
  case (3 e f es)
  have "counted_tokens (e # f # es) = words_estimate (block_words e) + 1 + counted_tokens (f # es)"
    by (simp add: counted_tokens_def entry_estimate)
  moreover have "chars (context_words (e # f # es)) = chars (block_words e) + 5 + chars (context_words (f # es))"
    by (simp add: chars_append)
  ultimately show ?case using 3 words_estimate_bounds [of "block_words e"] by simp
qed simp

lemma format_estimate:
  assumes "es \<noteq> []"
  shows "estimate_text_tokens (format_context_from_entries es)
           \<le> counted_tokens es + (int (length es) - 1 + 3) div 4"
proof -
  let ?c = "counted_tokens es" and ?k = "int (length es) - 1"
  from assms have k: "0 \<le> ?k" by (cases es) simp_all
  then have "0 \<le> (?k + 3) div 4" by simp
  moreover have "(chars (context_words es) + 3) div 4 \<le> (?k + 3 + 4 * ?c) div 4"
    using context_words_bounds [OF assms] by (intro zdiv_mono1) simp_all
  then have "(chars (context_words es) + 3) div 4 \<le> ?c + (?k + 3) div 4" by simp
  ultimately show ?thesis
    using context_words_bounds [OF assms] assms by (simp add: estimate_words split_format words_estimate_def)
qed

lemma fit_entries_continues:
  "selected \<noteq> [] \<Longrightarrow> counted_tokens selected \<le> budget \<Longrightarrow>
     counted_tokens (fit_entries budget es selected (counted_tokens selected)) \<le> budget \<and>
     (\<exists>more. fit_entries budget es selected (counted_tokens selected) = selected @ more \<and> subseq more es)"
proof (induction es arbitrary: selected)
  case (Cons e es)
  let ?t = "estimate_text_tokens (format_context_from_entries [e])"
  show ?case
  proof (cases "counted_tokens selected + 1 + ?t \<le> budget")
    case True
    have c: "counted_tokens selected + (1 + ?t) = counted_tokens (selected @ [e])"
      using Cons.prems by (simp add: counted_snoc)
    have "counted_tokens (selected @ [e]) \<le> budget" using True c by simp
    from Cons.IH [OF _ this] True Cons.prems(1) c show ?thesis by (auto simp: Let_def)
  next
    case False
    with Cons.IH [OF Cons.prems] Cons.prems(1) show ?thesis by (auto simp: Let_def)
  qed
qed simp

lemma fit_entries_first:
  "fit_entries budget (e # es) [] 0 =
     (if estimate_text_tokens (format_context_from_entries [e]) \<le> budget
      then fit_entries budget es [e] (counted_tokens [e]) else [truncated_entry budget e])"
  by (simp add: Let_def counted_tokens_def)

text \<open>
  The fitted entries: nothing for nothing; the first entry cut to size when it alone is too large;
  otherwise the first entry and some of the later ones, in their order, within the count.
\<close>

lemma fit_cases:
  obtains "es = []" "fit_entries_to_budget es available = []"
  | e es' where "es = e # es'"
      "at_least_one available < estimate_text_tokens (format_context_from_entries [e])"
      "fit_entries_to_budget es available = [truncated_entry (at_least_one available) e]"
  | e es' more where "es = e # es'" "fit_entries_to_budget es available = e # more" "subseq more es'"
      "counted_tokens (e # more) \<le> at_least_one available"
proof (cases es)
  case Nil
  with that(1) show thesis by (simp add: fit_entries_to_budget_def)
next
  case (Cons e es')
  show thesis
  proof (cases "estimate_text_tokens (format_context_from_entries [e]) \<le> at_least_one available")
    case True
    then have "counted_tokens [e] \<le> at_least_one available" by simp
    from fit_entries_continues [OF _ this, of es'] obtain more
      where "fit_entries (at_least_one available) es' [e] (counted_tokens [e]) = [e] @ more" "subseq more es'"
        "counted_tokens (e # more) \<le> at_least_one available" by auto
    with that(3) [OF Cons] True Cons show thesis by (simp add: fit_entries_to_budget_def fit_entries_first)
  next
    case False
    with that(2) [OF Cons] Cons show thesis by (simp add: fit_entries_to_budget_def fit_entries_first)
  qed
qed

section \<open>The truncated text\<close>

definition real_words :: "string list \<Rightarrow> bool" where
  "real_words ws \<longleftrightarrow> (\<forall>v \<in> set ws. v \<noteq> [] \<and> (\<forall>c \<in> set v. \<not> py_space c))"

lemma real_words_split [simp]: "real_words (split_ws s)"
  using split_ws_words [of _ s] by (auto simp: real_words_def)

lemma real_words_sub: "real_words ws \<Longrightarrow> set vs \<subseteq> set ws \<Longrightarrow> real_words vs"
  by (auto simp: real_words_def)

lemma joined_words:
  assumes "real_words ws"
  shows "split_ws (intersperse '' '' ws) = ws" "strip (intersperse '' '' ws) = intersperse '' '' ws"
proof -
  show s: "split_ws (intersperse '' '' ws) = ws"
    using assms by (intro split_join) (simp add: real_words_def)
  then have "join_ws (intersperse '' '' ws) = intersperse '' '' ws" by (simp add: join_ws_def)
  then show "strip (intersperse '' '' ws) = intersperse '' '' ws"
    using strip_join_ws [of "intersperse '' '' ws"] by simp
qed

lemma joined_estimate: "real_words ws \<Longrightarrow> estimate_text_tokens (intersperse '' '' ws) = words_estimate ws"
  by (simp add: estimate_words joined_words)

text \<open>The loop keeps the longest run of words within the budget.\<close>

lemma keep_words_longest:
  assumes "real_words (kept @ ws)"
  obtains n where "n \<le> length ws" "keep_words b kept ws = kept @ take n ws"
    "n < length ws \<Longrightarrow> b < words_estimate (kept @ take (Suc n) ws)"
    "0 < n \<Longrightarrow> words_estimate (kept @ take n ws) \<le> b"
  using assms
proof (induction ws arbitrary: kept thesis)
  case (Cons w ws)
  have "real_words (kept @ [w])" using Cons.prems(2) by (rule real_words_sub) auto
  then have e: "estimate_text_tokens (strip (intersperse '' '' (kept @ [w]))) = words_estimate (kept @ [w])"
    by (simp add: joined_words joined_estimate)
  show ?case
  proof (cases "b < words_estimate (kept @ [w])")
    case True
    with e show ?thesis by (intro Cons.prems(1) [of 0]) simp_all
  next
    case False
    have "real_words ((kept @ [w]) @ ws)" using Cons.prems(2) by simp
    then obtain n where n: "n \<le> length ws" "keep_words b (kept @ [w]) ws = (kept @ [w]) @ take n ws"
      "n < length ws \<Longrightarrow> b < words_estimate ((kept @ [w]) @ take (Suc n) ws)"
      "0 < n \<Longrightarrow> words_estimate ((kept @ [w]) @ take n ws) \<le> b"
      using Cons.IH by blast
    show ?thesis
    proof (rule Cons.prems(1) [of "Suc n"])
      show "words_estimate (kept @ take (Suc n) (w # ws)) \<le> b" using n(4) False by (cases n) simp_all
    qed (use n False e in simp_all)
  qed
qed simp

lemma truncate_cases:
  assumes "split_ws t \<noteq> []"
  obtains n where "0 < n" "n \<le> length (split_ws t)"
      "truncate_text_to_budget t b = intersperse '' '' (take n (split_ws t))"
      "words_estimate (take n (split_ws t)) \<le> at_least_one b"
      "n < length (split_ws t) \<Longrightarrow> at_least_one b < words_estimate (take (Suc n) (split_ws t))"
  | "at_least_one b < words_estimate [hd (split_ws t)]"
      "truncate_text_to_budget t b = rstrip (take (nat (max 12 (at_least_one b * 4))) (join_ws t)) @ ''...''"
proof (cases "words_estimate (split_ws t) \<le> at_least_one b")
  case True
  with that(1) [of "length (split_ws t)"] assms show thesis
    by (simp add: truncate_text_to_budget_def Let_def estimate_words flip: join_ws_def)
next
  case False
  obtain n where n: "n \<le> length (split_ws t)"
    "keep_words (at_least_one b) [] (split_ws t) = take n (split_ws t)"
    "n < length (split_ws t) \<Longrightarrow> at_least_one b < words_estimate (take (Suc n) (split_ws t))"
    "0 < n \<Longrightarrow> words_estimate (take n (split_ws t)) \<le> at_least_one b"
    using keep_words_longest [of "[]" "split_ws t" "at_least_one b"] by auto
  show thesis
  proof (cases "n = 0")
    case True
    with n(3) assms have "at_least_one b < words_estimate [hd (split_ws t)]"
      by (cases "split_ws t") simp_all
    with that(2) True n(2) assms False show thesis
      by (simp add: truncate_text_to_budget_def Let_def estimate_words)
  next
    case False
    have "real_words (take n (split_ws t))"
      using real_words_split [of t] by (rule real_words_sub) (rule set_take_subset)
    moreover have "take n (split_ws t) \<noteq> []" using False assms by simp
    ultimately have "truncate_text_to_budget t b = intersperse '' '' (take n (split_ws t))"
      using n(2) \<open>\<not> words_estimate (split_ws t) \<le> at_least_one b\<close> assms
      by (simp add: truncate_text_to_budget_def Let_def estimate_words joined_words)
    with that(1) [of n] False n show thesis by simp
  qed
qed

lemma truncated_nonempty: "split_ws t \<noteq> [] \<Longrightarrow> truncate_text_to_budget t b \<noteq> []"
proof (rule truncate_cases [of t b], assumption, goal_cases)
  case (1 n)
  then have "take n (split_ws t) \<noteq> []" by simp
  moreover have "real_words (take n (split_ws t))"
    using real_words_split [of t] by (rule real_words_sub) (rule set_take_subset)
  ultimately have "split_ws (truncate_text_to_budget t b) \<noteq> []" using 1 by (simp add: joined_words)
  then show ?case by (auto simp: split_ws_def)
qed simp

section \<open>Where evidence comes from\<close>

text \<open>An entry that names one of the chunks and has a text.\<close>

definition entry_of :: "'f chunk list \<Rightarrow> 'f entry \<Rightarrow> bool" where
  "entry_of cs e \<longleftrightarrow> split_ws (en_text e) \<noteq> [] \<and>
     (\<exists>c \<in> set cs. split_ws (ch_text c) \<noteq> [] \<and> en_chunk_id e = ch_chunk_id c \<and> en_doc_id e = ch_doc_id c \<and>
        en_source_path e = ch_source_path c \<and> en_heading e = build_heading c \<and>
        en_source_url e = ch_source_url c)"

lemma entry_of_text:
  "entry_of cs e \<Longrightarrow> split_ws t \<noteq> [] \<Longrightarrow> entry_of cs (e\<lparr> en_text := t, en_text_excerpt := x \<rparr>)"
  "entry_of cs e \<Longrightarrow> split_ws t \<noteq> [] \<Longrightarrow>
     entry_of cs (e\<lparr> en_text := t, en_text_excerpt := x, en_packing_mode := m \<rparr>)"
  by (simp_all add: entry_of_def)

lemma entry_of_chunk:
  "c \<in> set cs \<Longrightarrow> split_ws (ch_text c) \<noteq> [] \<Longrightarrow> split_ws t \<noteq> [] \<Longrightarrow>
     entry_of cs (context_entry_from_chunk clamp c t m)"
  by (auto simp: entry_of_def context_entry_from_chunk_def)

lemma entry_of_truncated: "entry_of cs e \<Longrightarrow> entry_of cs (truncated_entry b e)"
proof -
  assume e: "entry_of cs e"
  then have t: "split_ws (join_ws (en_text e)) \<noteq> []" by (simp add: entry_of_def)
  have "split_ws (truncate_text_to_budget (join_ws (en_text e)) k) \<noteq> []" for k
  proof (rule truncate_cases [OF t, of k], goal_cases)
    case (1 n)
    have "real_words (take n (split_ws (join_ws (en_text e))))"
      using real_words_split [of "join_ws (en_text e)"] by (rule real_words_sub) (rule set_take_subset)
    with 1 t show ?case by (simp add: joined_words)
  next
    case 2
    then show ?case by (simp add: split_ws_empty py_space_def)
  qed
  with e show ?thesis by (simp add: truncated_entry_def Let_def entry_of_text)
qed

lemma fit_sources:
  assumes "\<And>e. e \<in> set es \<Longrightarrow> entry_of cs e" "e \<in> set (fit_entries_to_budget es available)"
  shows "entry_of cs e"
proof (rule fit_cases [of es available], goal_cases)
  case 1
  with assms show ?case by simp
next
  case (2 d ds)
  with assms show ?case by (auto intro: entry_of_truncated)
next
  case (3 d ds more)
  then have "set more \<subseteq> set ds" by (auto dest: list_emb_set)
  with 3 assms show ?case by auto
qed

lemma fit_nonempty: "es \<noteq> [] \<Longrightarrow> fit_entries_to_budget es available \<noteq> []"
  by (rule fit_cases [of es available]) auto

lemma entry_map_values: "dget (entry_map es) k = Some e \<Longrightarrow> e \<in> set es"
proof -
  have "dget (fold (\<lambda>e. dset (strip (en_chunk_id e)) e) es d) k = Some e \<Longrightarrow>
      e \<in> set es \<or> dget d k = Some e" for d
    by (induction es arbitrary: d) (fastforce simp: dget_dset split: if_splits)+
  from this [of "[]"] show "dget (entry_map es) k = Some e \<Longrightarrow> e \<in> set es" by (simp add: entry_map_def)
qed

lemma compressed_sources:
  assumes "\<And>e. e \<in> set es \<Longrightarrow> entry_of cs e"
  shows "e \<in> set (compressed_items (entry_map es) items) \<Longrightarrow> entry_of cs e"
proof (induction items)
  case (Cons item items)
  show ?case
  proof (cases "e \<in> set (compressed_items (entry_map es) items)")
    case False
    with Cons.prems obtain base where base: "dget (entry_map es) (clean_json (jget (jdict item) ''chunk_id'')) = Some base"
      and p: "clean_json (jget (jdict item) ''packed_text'') \<noteq> []"
      and e: "e = base\<lparr> en_text := clean_json (jget (jdict item) ''packed_text''),
                en_text_excerpt := clean_json (jget (jdict item) ''packed_text''),
                en_packing_mode := ''compressive'' \<rparr>"
      by (auto simp: Let_def split: if_splits option.splits)
    from p have "split_ws (clean_json (jget (jdict item) ''packed_text'')) \<noteq> []" by (simp add: clean_json_def)
    with assms [OF entry_map_values [OF base]] show ?thesis unfolding e by (rule entry_of_text(2))
  qed (rule Cons.IH)
qed simp

lemma llm_sources:
  assumes "\<And>e. e \<in> set es \<Longrightarrow> entry_of cs e"
    and "compress_entries_with_llm invoke loads q es a p = (Some ds, m, u)" "e \<in> set ds"
  shows "entry_of cs e"
proof -
  from assms(2) obtain items where "ds = compressed_items (entry_map es) items"
    by (auto simp: compress_entries_with_llm_def Let_def split: if_splits option.splits)
  with assms show ?thesis using compressed_sources [of es cs e items] by blast
qed

lemma stripped_words: "stripped s \<Longrightarrow> s \<noteq> [] \<Longrightarrow> split_ws s \<noteq> []"
  by (cases s) (auto simp: stripped_def split_ws_empty)

lemma stripped_join_ws: "stripped (join_ws s)"
  using stripped_strip [of "join_ws s"] by simp

lemma stripped_Nil: "stripped []"
  by (simp add: stripped_def)

lemma extractive_words: "extractive_text q c k \<noteq> [] \<Longrightarrow> split_ws (extractive_text q c k) \<noteq> []"
  by (rule stripped_words)
     (simp_all add: extractive_text_def Let_def stripped_strip stripped_join_ws stripped_Nil)

lemma extractive_sources:
  assumes "\<And>c. c \<in> set cs \<Longrightarrow> split_ws (ch_text c) \<noteq> []" "\<And>e. e \<in> set raw \<Longrightarrow> entry_of cs e"
    and "e \<in> set (extractive_entries clamp q cs raw budget)"
  shows "entry_of cs e"
proof (cases "\<exists>c \<in> set cs. e = context_entry_from_chunk clamp c (extractive_text q c 2) ''extractive''
                 \<and> extractive_text q c 2 \<noteq> []")
  case True
  then obtain c where "c \<in> set cs" "extractive_text q c 2 \<noteq> []"
    "e = context_entry_from_chunk clamp c (extractive_text q c 2) ''extractive''" by blast
  with assms(1) extractive_words [of q c 2] show ?thesis by (simp add: entry_of_chunk)
next
  case False
  with assms(3) have "e \<in> set (fit_entries_to_budget raw (bd_available_context_tokens budget))"
    by (auto simp: extractive_entries_def Let_def split: if_splits)
  with assms(2) show ?thesis by (rule fit_sources)
qed

lemma extractive_nonempty: "raw \<noteq> [] \<Longrightarrow> extractive_entries clamp q cs raw budget \<noteq> []"
  by (simp add: extractive_entries_def Let_def fit_nonempty)

text \<open>
  What every packing has in common: the selected contexts are entries of the given chunks fitted to
  the budget, some as soon as a chunk has a text, and the other fields are read from them.
\<close>

definition packed_from :: "'f chunk list \<Rightarrow> 'f entry list \<Rightarrow> 'f packed_evidence \<Rightarrow> bool" where
  "packed_from cs es p \<longleftrightarrow>
     (\<forall>e \<in> set es. entry_of cs e) \<and> (cs = [] \<longleftrightarrow> es = []) \<and>
     pe_selected_contexts p = fit_entries_to_budget es (bd_available_context_tokens (pe_budget p)) \<and>
     pe_chunk_ids p = entry_ids (pe_selected_contexts p) \<and>
     pe_prompt_context p = format_context_from_entries (pe_selected_contexts p) \<and>
     pe_packed_context_token_estimate p = estimate_text_tokens (pe_prompt_context p) \<and>
     pe_packed_evidence_count p = length (pe_selected_contexts p) \<and>
     (pe_compression_triggered p \<longleftrightarrow> pe_compression_trigger_reason p \<noteq> None) \<and>
     (pe_compression_mode p = ''raw'' \<longleftrightarrow> \<not> pe_compression_triggered p)"

lemma fit_length: "es \<noteq> [] \<Longrightarrow> 0 < length (fit_entries_to_budget es a)"
  by (simp add: fit_nonempty)

lemma raw_packed:
  "(\<And>e. e \<in> set es \<Longrightarrow> entry_of cs e) \<Longrightarrow> cs \<noteq> [] \<Longrightarrow> es \<noteq> [] \<Longrightarrow>
     packed_from cs es (raw_evidence budget n es)"
  by (simp add: packed_from_def raw_evidence_def Let_def)

lemma compressed_packed:
  assumes "\<And>c. c \<in> set cs \<Longrightarrow> split_ws (ch_text c) \<noteq> []" "\<And>e. e \<in> set raw \<Longrightarrow> entry_of cs e"
    and "cs \<noteq> []" "raw \<noteq> []" "reason \<noteq> None"
  shows "\<exists>es. packed_from cs es (compressed_evidence clamp invoke loads dp r budget n reason cs raw)"
proof -
  define a where "a = bd_available_context_tokens budget"
  define xs where "xs = extractive_entries clamp (pr_question r) cs raw budget"
  define p where "p = (case pr_compression_profile r of Some p \<Rightarrow> p | None \<Rightarrow> dp)"
  obtain zs m u where llm: "compress_entries_with_llm invoke loads (pr_question r) xs a p = (zs, m, u)"
    by (cases "compress_entries_with_llm invoke loads (pr_question r) xs a p")
  have xs: "xs \<noteq> []" "\<And>e. e \<in> set xs \<Longrightarrow> entry_of cs e"
    using assms(4) extractive_sources [OF assms(1,2)] by (auto simp: xs_def extractive_nonempty)
  note ev = compressed_evidence_def Let_def a_def [symmetric] xs_def [symmetric] p_def [symmetric] llm
  show ?thesis
  proof (cases "\<exists>z zs'. zs = Some (z # zs')")
    case True
    then obtain z zs' where zs: "zs = Some (z # zs')" by blast
    have "entry_of cs e" if "e \<in> set (z # zs')" for e
      by (rule llm_sources [OF _ llm [unfolded zs] that]) (rule xs(2))
    then have "packed_from cs (z # zs') (compressed_evidence clamp invoke loads dp r budget n reason cs raw)"
      using assms(3,5) by (simp add: packed_from_def ev zs fit_nonempty)
    then show ?thesis ..
  next
    case False
    then have "(case zs of Some (c # cs) \<Rightarrow> (fit_entries_to_budget (c # cs) a, ''compressive'')
                | _ \<Rightarrow> (fit_entries_to_budget xs a, ''extractive'')) = (fit_entries_to_budget xs a, ''extractive'')"
      by (auto split: option.split list.split)
    then have "packed_from cs xs (compressed_evidence clamp invoke loads dp r budget n reason cs raw)"
      using assms(3,5) xs by (simp add: packed_from_def ev fit_nonempty)
    then show ?thesis ..
  qed
qed

lemma build_packed:
  "\<exists>es. packed_from (filter (\<lambda>c. split_ws (ch_text c) \<noteq> []) chunks) es
          (build_packed_evidence clamp invoke loads dp r chunks)"
proof -
  define cs where "cs = filter (\<lambda>c. split_ws (ch_text c) \<noteq> []) chunks"
  define raw where "raw = map (\<lambda>c. context_entry_from_chunk clamp c (ch_text c) ''raw'') cs"
  have raw: "entry_of cs e" if "e \<in> set raw" for e
    using that by (auto simp: raw_def cs_def intro!: entry_of_chunk)
  have norm: "filter (\<lambda>c. clean_text (ch_text c) \<noteq> []) chunks = cs"
    by (simp add: cs_def)
  show ?thesis
  proof (cases "cs = []")
    case True
    then have "packed_from cs [] (build_packed_evidence clamp invoke loads dp r chunks)"
      unfolding build_packed_evidence_def Let_def norm if_P [OF True]
      by (simp add: packed_from_def empty_evidence_def
          fit_entries_to_budget_def entry_ids_def format_context_from_entries_def estimate_words split_ws_def
          words_estimate_def)
    then show ?thesis unfolding cs_def ..
  next
    case False
    then have ne: "raw \<noteq> []" by (simp add: raw_def)
    define budget where "budget = request_budget r"
    define n where "n = estimate_text_tokens (format_context_from_entries raw)"
    define reason where "reason = compression_trigger_reason n (length cs) (redundancy_ratio cs) budget (pr_top_k r)"
    have b: "build_packed_evidence clamp invoke loads dp r chunks =
        (if reason = None \<or> \<not> pr_compression_enabled r then raw_evidence budget n raw
         else compressed_evidence clamp invoke loads dp r budget n reason cs raw)"
      unfolding build_packed_evidence_def Let_def norm raw_def [symmetric] budget_def n_def reason_def
      using False by (simp only: if_False)
    have "split_ws (ch_text c) \<noteq> []" if "c \<in> set cs" for c
      using that by (simp add: cs_def)
    note compressed = compressed_packed [OF this raw False ne]
    show ?thesis
    proof (cases "reason = None \<or> \<not> pr_compression_enabled r")
      case True
      then show ?thesis unfolding b cs_def [symmetric] if_P [OF True]
        using raw_packed [OF raw False ne] by blast
    next
      case f: False
      then show ?thesis unfolding b cs_def [symmetric] if_not_P [OF f] using compressed by blast
    qed
  qed
qed

lemma build_budget [simp]: "pe_budget (build_packed_evidence clamp invoke loads dp r chunks) = request_budget r"
  unfolding build_packed_evidence_def
  by (simp add: Let_def empty_evidence_def raw_evidence_def compressed_evidence_def split_def
      del: clean_text_join)

section \<open>Properties\<close>


text \<open>C33
  Evidence is never invented: every context selected for the prompt carries the identifier,
  document, path, heading and address of one of the retrieved chunks with a text, and has a text
  itself. A compressing model can choose and shorten, but an identifier it makes up is dropped.
\<close>

theorem evidence_traces_to_chunks:
  "list_all (entry_of chunks)
     (pe_selected_contexts (build_packed_evidence clamp invoke loads default_profile r chunks))"
proof -
  let ?p = "build_packed_evidence clamp invoke loads default_profile r chunks"
  let ?cs = "filter (\<lambda>c. split_ws (ch_text c) \<noteq> []) chunks"
  obtain es where p: "packed_from ?cs es ?p" using build_packed by blast
  then have "entry_of ?cs e" if "e \<in> set (pe_selected_contexts ?p)" for e
    using that fit_sources [of es ?cs e] by (simp add: packed_from_def)
  moreover have "entry_of ?cs e \<Longrightarrow> entry_of chunks e" for e :: "'a entry"
    by (auto simp: entry_of_def)
  ultimately show ?thesis by (simp add: list_all_iff)
qed

text \<open>
  Evidence is never lost altogether: the packing selects no context exactly when no chunk has a
  text, and it is marked as compressed exactly when a reason is recorded and its mode is not raw;
  so the fallback to raw entries after an empty compression, which would record a compression
  without a reason, is never taken.
\<close>

theorem evidence_never_empty:
  "let p = build_packed_evidence clamp invoke loads default_profile r chunks
   in (pe_selected_contexts p = [] \<longleftrightarrow> list_all (\<lambda>c. clean_text (ch_text c) = []) chunks) \<and>
      (pe_compression_triggered p \<longleftrightarrow> pe_compression_trigger_reason p \<noteq> None) \<and>
      (pe_compression_triggered p \<longleftrightarrow> pe_compression_mode p \<noteq> ''raw'')"
proof -
  obtain es where p: "packed_from (filter (\<lambda>c. split_ws (ch_text c) \<noteq> []) chunks) es
      (build_packed_evidence clamp invoke loads default_profile r chunks)"
    using build_packed by blast
  have "es = [] \<longleftrightarrow> list_all (\<lambda>c. clean_text (ch_text c) = []) chunks"
    using p by (auto simp: packed_from_def list_all_iff filter_empty_conv)
  moreover have "fit_entries_to_budget es a = [] \<longleftrightarrow> es = []" for a
    using fit_nonempty [of es a] by (auto simp: fit_entries_to_budget_def)
  ultimately show ?thesis using p by (simp add: packed_from_def Let_def del: clean_text_join)
qed

definition sample_chunk :: "string \<Rightarrow> unit chunk" where
  "sample_chunk i =
     \<lparr> ch_chunk_id = i, ch_text = ''reset'', ch_source_path = ''docs'', ch_similarity = (), ch_doc_id = None,
       ch_h1 = Some ''Login'', ch_h2 = None, ch_h3 = None, ch_source_url = None, ch_source_type = None,
       ch_chunk_strategy = None, ch_metadata = [], ch_rerank_score = None, ch_rerank_reasons = [] \<rparr>"

definition sample_request :: "int \<Rightarrow> packing_request" where
  "sample_request window =
     \<lparr> pr_question = ''how to reset'', pr_system_prompt_text = [], pr_user_prompt_text = [],
       pr_tool_schema_text = [], pr_context_window = window, pr_reserved_output_tokens = 0,
       pr_buffer_tokens = 0, pr_compression_enabled = False, pr_compression_profile = None,
       pr_history_text = [], pr_top_k = None \<rparr>"

definition no_profile :: model_profile where
  "no_profile = \<lparr> mp_provider = [], mp_model = [], mp_api_key = [], mp_fallback_api_keys = [] \<rparr>"

definition overrun :: "unit packed_evidence" where
  "overrun = build_packed_evidence (\<lambda>x. x) (\<lambda>_ _ _ _. None) (\<lambda>_. None) no_profile (sample_request 13)
     [sample_chunk ''abc'', sample_chunk ''abd'']"


end
