(* ===== verification/Execution_Plan.thy ===== *)
theory Execution_Plan
  imports Json_Values "HOL-Library.Multiset"
begin

text \<open>
  The plan of an investigation (\<open>services/engineer_execute_agent.py\<close>): a list of tasks, each naming
  the tasks it depends on. Before a plan runs it is validated (every dependency known, no cycle) and
  put into an order of stages. The plan is written by a language model, so nothing about it is
  assumed: dependencies may be missing, repeated or cyclic.

  Both walks over the dependencies are \<open>while\<close> loops whose condition is a queue the body refills.
  They are \<open>partial_function (option)\<close> here, so that a loop that never ends has no value, and the
  theorems show that both end on every plan.
\<close>

section \<open>Tasks\<close>

text \<open>\<open>_clean_text\<close>.\<close>

definition task_text :: "json \<Rightarrow> string" where
  "task_text x = strip (join_ws (jstr x))"

text \<open>The tasks of a plan by their id; of two tasks with one id the later one is kept.\<close>

type_synonym tasks = "(string, jdict) dict"

definition add_task :: "json \<Rightarrow> tasks \<Rightarrow> tasks" where
  "add_task task m =
     (case task of
        JDict d \<Rightarrow> (let tid = task_text (jget d ''task_id'') in if tid \<noteq> [] then dset tid d m else m)
      | _ \<Rightarrow> m)"

definition plan_tasks :: "jdict \<Rightarrow> json list" where
  "plan_tasks plan = jlist (jget plan ''tasks'')"

definition task_map :: "json list \<Rightarrow> tasks" where
  "task_map ts = fold add_task ts []"

text \<open>The dependencies a task names, and those of them that are tasks of the plan.\<close>

definition named_deps :: "jdict \<Rightarrow> string list" where
  "named_deps task = filter (\<lambda>d. d \<noteq> []) (map task_text (jlist (jget task ''depends_on'')))"

definition known_deps :: "tasks \<Rightarrow> jdict \<Rightarrow> string list" where
  "known_deps m task = filter (\<lambda>d. dget m d \<noteq> None) (named_deps task)"

section \<open>The graph of a plan\<close>

record task_graph =
  tg_indegree :: "(string, int) dict"
  tg_depends_on :: "(string, string list) dict"
  tg_outgoing :: "(string, string list) dict"

text \<open>\<open>d[k]\<close> on keys that are present (every edge of the graph joins two tasks of the plan).\<close>

definition degree :: "(string, int) dict \<Rightarrow> string \<Rightarrow> int" where
  "degree ind t = (case dget ind t of None \<Rightarrow> 0 | Some n \<Rightarrow> n)"

definition neighbours :: "(string, string list) dict \<Rightarrow> string \<Rightarrow> string list" where
  "neighbours g t = (case dget g t of None \<Rightarrow> [] | Some ts \<Rightarrow> ts)"

definition add_edge :: "string \<Rightarrow> string \<Rightarrow> task_graph \<Rightarrow> task_graph" where
  "add_edge tid dep g =
     \<lparr> tg_indegree = dset tid (degree (tg_indegree g) tid + 1) (tg_indegree g),
       tg_depends_on = dset tid (neighbours (tg_depends_on g) tid @ [dep]) (tg_depends_on g),
       tg_outgoing = dset dep (neighbours (tg_outgoing g) dep @ [tid]) (tg_outgoing g) \<rparr>"

definition empty_graph :: "tasks \<Rightarrow> task_graph" where
  "empty_graph m =
     \<lparr> tg_indegree = map (\<lambda>(tid, task). (tid, 0)) m, tg_depends_on = map (\<lambda>(tid, task). (tid, [])) m,
       tg_outgoing = map (\<lambda>(tid, task). (tid, [])) m \<rparr>"

definition add_edges :: "tasks \<Rightarrow> string \<times> jdict \<Rightarrow> task_graph \<Rightarrow> task_graph" where
  "add_edges m = (\<lambda>(tid, task). fold (add_edge tid) (known_deps m task))"

definition build_graph :: "tasks \<Rightarrow> task_graph" where
  "build_graph m = fold (add_edges m) m (empty_graph m)"

section \<open>Validation\<close>

text \<open>What \<open>task.get(...)\<close> raises on a task that is not a dictionary.\<close>

fun type_name :: "json \<Rightarrow> string" where
  "type_name JNull = ''NoneType''"
| "type_name (JBool _) = ''bool''"
| "type_name (JInt _) = ''int''"
| "type_name (JStr _) = ''str''"
| "type_name (JList _) = ''list''"
| "type_name (JDict _) = ''dict''"

definition no_attribute :: "json \<Rightarrow> string \<Rightarrow> py_error" where
  "no_attribute x name =
     AttributeError ([CHR 0x27] @ type_name x @ [CHR 0x27] @ '' object has no attribute '' @
       [CHR 0x27] @ name @ [CHR 0x27])"

text \<open>The loop over the named dependencies: the blocked tasks and the warnings it appends.\<close>

definition unknown_warning :: "string \<Rightarrow> string \<Rightarrow> string" where
  "unknown_warning tid dep = ''Task '' @ tid @ '' depends on unknown task '' @ dep @ ''.''"

fun check_deps :: "tasks \<Rightarrow> json list \<Rightarrow> string list \<Rightarrow> string list \<Rightarrow> py_error + string list \<times> string list" where
  "check_deps m [] blocked warnings = Inr (blocked, warnings)"
| "check_deps m (JDict task # ts) blocked warnings =
     (let tid = task_text (jget task ''task_id'')
      in if tid = [] then check_deps m ts blocked warnings
         else let unknown = filter (\<lambda>d. dget m d = None) (named_deps task)
              in check_deps m ts (blocked @ map (\<lambda>_. tid) unknown)
                   (warnings @ map (unknown_warning tid) unknown))"
| "check_deps m (t # ts) blocked warnings = Inl (no_attribute t ''get'')"

text \<open>Kahn's algorithm: the number of tasks the queue ever yields.\<close>

definition release_child :: "string \<Rightarrow> (string, int) dict \<times> string list \<Rightarrow> (string, int) dict \<times> string list" where
  "release_child child = (\<lambda>(ind, q).
     let ind' = dset child (degree ind child - 1) ind
     in (ind', if degree ind' child = 0 then q @ [child] else q))"

partial_function (option) kahn ::
    "(string, string list) dict \<Rightarrow> string list \<Rightarrow> nat \<Rightarrow> (string, int) dict \<Rightarrow> nat option" where
  [code]: "kahn outgoing q visited ind =
     (case q of
        [] \<Rightarrow> Some visited
      | node # q' \<Rightarrow>
          (let (ind', q'') = fold release_child (neighbours outgoing node) (ind, q')
           in kahn outgoing q'' (visited + 1) ind'))"

definition sources :: "(string, int) dict \<Rightarrow> string list" where
  "sources ind = map fst (filter (\<lambda>(tid, deg). deg = 0) ind)"

definition block_all :: "string list \<Rightarrow> string list \<Rightarrow> string list" where
  "block_all tids blocked = fold (\<lambda>tid b. if tid \<notin> set b then b @ [tid] else b) tids blocked"

definition cycle_warning :: string where
  "cycle_warning = ''Cycle detected in task dependencies.''"

definition check_cycles :: "tasks \<Rightarrow> string list \<times> string list \<Rightarrow> (string list \<times> string list) option" where
  "check_cycles m = (\<lambda>(blocked, warnings).
     if m = [] then Some (blocked, warnings)
     else let g = build_graph m
          in map_option (\<lambda>visited.
               if visited \<noteq> length m then (block_all (map fst m) blocked, warnings @ [cycle_warning])
               else (blocked, warnings)) (kahn (tg_outgoing g) (sources (tg_indegree g)) 0 (tg_indegree g)))"

definition validate_execute_plan :: "jdict \<Rightarrow> (py_error + bool \<times> string list \<times> string list) option" where
  "validate_execute_plan active_plan =
     (let tasks = plan_tasks active_plan;
          m = task_map tasks
      in case check_deps m tasks [] [] of
           Inl e \<Rightarrow> Some (Inl e)
         | Inr r \<Rightarrow> map_option (\<lambda>(blocked, warnings). Inr (blocked = [], blocked, warnings)) (check_cycles m r))"

section \<open>The schedule\<close>

record stage =
  st_stage :: nat
  st_mode :: string
  st_task_ids :: "string list"

record schedule =
  sc_mode :: string
  sc_parallel_groups :: "string list list"
  sc_serial_steps :: "string list"
  sc_execution_order :: "stage list"

definition deterministic_allowlist :: string where
  "deterministic_allowlist = ''deterministic_allowlist''"

definition is_synthesis :: "jdict \<Rightarrow> bool" where
  "is_synthesis task \<longleftrightarrow> jget task ''skill'' = JStr ''synthesis''"

definition synthesis_ids :: "tasks \<Rightarrow> string list" where
  "synthesis_ids m = map fst (filter (\<lambda>(tid, task). is_synthesis task) m)"

definition first_stage :: "tasks \<Rightarrow> (string, int) dict \<Rightarrow> string list" where
  "first_stage m ind =
     (let current = filter (\<lambda>tid. tid \<notin> set (synthesis_ids m)) (sources ind)
      in if current = [] \<and> synthesis_ids m \<noteq> [] then synthesis_ids m else current)"

text \<open>One child of a task of the current stage, the next level, and the synthesis that is added
  when nothing else is ready.\<close>

definition stage_child ::
    "string list \<Rightarrow> string \<Rightarrow> (string, int) dict \<times> string list \<Rightarrow> (string, int) dict \<times> string list" where
  "stage_child visited child = (\<lambda>(ind, next_level).
     if child \<in> set visited then (ind, next_level)
     else let ind' = dset child (degree ind child - 1) ind
          in (ind', if degree ind' child = 0 \<and> child \<notin> set next_level then next_level @ [child]
                    else next_level))"

definition next_level ::
    "(string, string list) dict \<Rightarrow> string list \<Rightarrow> string list \<Rightarrow> (string, int) dict \<Rightarrow> (string, int) dict \<times> string list" where
  "next_level outgoing visited current ind =
     fold (\<lambda>node. fold (stage_child visited) (neighbours outgoing node)) current (ind, [])"

definition ready_synthesis ::
    "(string, string list) dict \<Rightarrow> string list \<Rightarrow> string list \<Rightarrow> string list" where
  "ready_synthesis depends_on synthesis visited =
     (case find (\<lambda>sid. sid \<notin> set visited \<and> list_all (\<lambda>dep. dep \<in> set visited) (neighbours depends_on sid)) synthesis of
        None \<Rightarrow> []
      | Some sid \<Rightarrow> [sid])"

text \<open>\<open>list(dict.fromkeys(xs))\<close>.\<close>

definition fromkeys :: "string list \<Rightarrow> string list" where
  "fromkeys xs = fold (\<lambda>x ks. if x \<in> set ks then ks else ks @ [x]) xs []"

text \<open>The stages, in order, and the tasks they hold (\<open>visited\<close>, a set in the code).\<close>

partial_function (option) stages ::
    "task_graph \<Rightarrow> string list \<Rightarrow> string list \<Rightarrow> string list \<Rightarrow> (string, int) dict \<Rightarrow> string list list
       \<Rightarrow> (string list list \<times> string list) option" where
  [code]: "stages g synthesis current visited ind staged =
     (if current = [] then Some (staged, visited)
      else let visited' = visited @ current;
               (ind', level) = next_level (tg_outgoing g) visited' current ind;
               level' = (if level = [] then ready_synthesis (tg_depends_on g) synthesis visited' else level)
           in stages g synthesis (fromkeys level') visited' ind' (staged @ [current]))"

definition staged_order :: "tasks \<Rightarrow> string list list option" where
  "staged_order m =
     (let g = build_graph m
      in map_option (\<lambda>(staged, visited).
           let remaining = filter (\<lambda>tid. tid \<notin> set visited) (map fst m)
           in if remaining = [] then staged else staged @ [remaining])
         (stages g (synthesis_ids m) (first_stage m (tg_indegree g)) [] (tg_indegree g) []))"

text \<open>The hints of the plan: which tasks it wants one after another, which together.\<close>

definition hinted :: "tasks \<Rightarrow> json list \<Rightarrow> string list" where
  "hinted m steps = filter (\<lambda>t. t \<noteq> [] \<and> dget m t \<noteq> None) (map task_text steps)"

definition runs_alone :: "tasks \<Rightarrow> string list \<Rightarrow> string list \<Rightarrow> string \<Rightarrow> bool" where
  "runs_alone m serial parallel tid =
     (if serial = [] \<and> parallel = []
      then \<not> truthy (jget (case dget m tid of None \<Rightarrow> [] | Some task \<Rightarrow> task) ''can_parallelize'')
      else tid \<in> set serial)"

definition add_serial :: "string \<Rightarrow> schedule \<Rightarrow> schedule" where
  "add_serial tid s =
     s\<lparr> sc_serial_steps := sc_serial_steps s @ [tid],
        sc_execution_order := sc_execution_order s @
          [\<lparr> st_stage = length (sc_execution_order s) + 1, st_mode = ''serial'', st_task_ids = [tid] \<rparr>] \<rparr>"

definition add_together :: "string list \<Rightarrow> schedule \<Rightarrow> schedule" where
  "add_together tids s =
     (if tids = [] then s
      else let mode = (if 1 < length tids then ''parallel'' else ''serial'')
           in s\<lparr> sc_parallel_groups := (if mode = ''parallel'' then sc_parallel_groups s @ [tids] else sc_parallel_groups s),
                 sc_serial_steps := (if mode = ''parallel'' then sc_serial_steps s else sc_serial_steps s @ tids),
                 sc_execution_order := sc_execution_order s @
                   [\<lparr> st_stage = length (sc_execution_order s) + 1, st_mode = mode, st_task_ids = tids \<rparr>] \<rparr>)"

definition add_stage :: "(string \<Rightarrow> bool) \<Rightarrow> string list \<Rightarrow> schedule \<Rightarrow> schedule" where
  "add_stage alone tids s = add_together (filter (\<lambda>t. \<not> alone t) tids) (fold add_serial (filter alone tids) s)"

definition empty_schedule :: schedule where
  "empty_schedule =
     \<lparr> sc_mode = deterministic_allowlist, sc_parallel_groups = [], sc_serial_steps = [], sc_execution_order = [] \<rparr>"

definition build_execution_schedule :: "jdict \<Rightarrow> schedule option" where
  "build_execution_schedule active_plan =
     (let hints = jdict (jget active_plan ''scheduler_hints'');
          m = task_map (plan_tasks active_plan);
          hinted_serial = hinted m (jlist (jget hints ''serial_steps''));
          hinted_parallel = hinted m (concat (map jlist (jlist (jget hints ''parallel_groups''))))
      in if m = [] then Some empty_schedule
         else map_option (\<lambda>staged. fold (add_stage (runs_alone m hinted_serial hinted_parallel)) staged empty_schedule)
                (staged_order m))"


section \<open>The tasks of a plan\<close>

lemma task_text_Nil [simp]: "task_text JNull = []"
  by (simp add: task_text_def join_ws_def split_ws_def)

lemma wf_task_map: "wf_dict (task_map ts)"
proof -
  have "wf_dict m \<Longrightarrow> wf_dict (fold add_task ts m)" for m
  proof (induction ts arbitrary: m)
    case (Cons t ts)
    then show ?case by (cases t) (simp_all add: add_task_def Let_def)
  qed simp
  then show ?thesis by (simp add: task_map_def)
qed

lemma task_map_task:
  assumes "dget (task_map ts) t = Some task"
  shows "task_text (jget task ''task_id'') = t \<and> t \<noteq> [] \<and> JDict task \<in> set ts"
proof -
  have "dget (fold add_task ts m) t = Some task \<Longrightarrow>
      task_text (jget task ''task_id'') = t \<and> t \<noteq> [] \<and> JDict task \<in> set ts \<or> dget m t = Some task" for m
  proof (induction ts arbitrary: m)
    case (Cons u ts)
    from Cons.prems have "dget (fold add_task ts (add_task u m)) t = Some task" by simp
    from Cons.IH [OF this] show ?case
      by (cases u) (auto simp: add_task_def Let_def dget_dset split: if_splits)
  qed simp
  from this [of "[]"] assms show ?thesis by (simp add: task_map_def)
qed

lemma task_map_keys:
  "t \<in> fst ` set (task_map ts) \<longleftrightarrow> t \<noteq> [] \<and> (\<exists>task. JDict task \<in> set ts \<and> task_text (jget task ''task_id'') = t)"
proof -
  have "t \<in> fst ` set (fold add_task ts m) \<longleftrightarrow>
      t \<noteq> [] \<and> (\<exists>task. JDict task \<in> set ts \<and> task_text (jget task ''task_id'') = t) \<or> t \<in> fst ` set m" for m
  proof (induction ts arbitrary: m)
    case (Cons u ts)
    then show ?case by (cases u) (auto simp: add_task_def Let_def dom_update)
  qed simp
  then show ?thesis by (simp add: task_map_def)
qed

text \<open>The known dependencies of a task of the plan, and the relation they span.\<close>

definition kd :: "tasks \<Rightarrow> string \<Rightarrow> string list" where
  "kd m t = (case dget m t of None \<Rightarrow> [] | Some task \<Rightarrow> known_deps m task)"

definition depends :: "tasks \<Rightarrow> (string \<times> string) set" where
  "depends m = {(d, t). d \<in> set (kd m t)}"

lemma kd_None: "t \<notin> fst ` set m \<Longrightarrow> kd m t = []"
  by (simp add: kd_def flip: map_of_eq_None_iff)

lemma kd_keys: "d \<in> set (kd m t) \<Longrightarrow> d \<in> fst ` set m \<and> t \<in> fst ` set m"
proof -
  assume d: "d \<in> set (kd m t)"
  then have "t \<in> fst ` set m" using kd_None [of t m] by (cases "t \<in> fst ` set m") simp_all
  moreover from d have "dget m d \<noteq> None"
    by (auto simp: kd_def known_deps_def split: option.splits)
  ultimately show ?thesis by (simp add: map_of_eq_None_iff)
qed

lemma finite_depends: "finite (depends m)"
proof (rule finite_subset)
  show "depends m \<subseteq> fst ` set m \<times> fst ` set m"
    unfolding depends_def by (clarify, drule kd_keys) simp
qed simp

section \<open>The graph\<close>

lemma degree_dset [simp]: "degree (dset k n d) t = (if t = k then n else degree d t)"
  by (simp add: degree_def dget_dset)

lemma neighbours_dset [simp]: "neighbours (dset k ts d) t = (if t = k then ts else neighbours d t)"
  by (simp add: neighbours_def dget_dset)

lemma task_edges:
  "degree (tg_indegree (fold (add_edge tid) ds g)) t =
     degree (tg_indegree g) t + (if t = tid then int (length ds) else 0)"
  "neighbours (tg_depends_on (fold (add_edge tid) ds g)) t =
     neighbours (tg_depends_on g) t @ (if t = tid then ds else [])"
  "count_list (neighbours (tg_outgoing (fold (add_edge tid) ds g)) d) t =
     count_list (neighbours (tg_outgoing g) d) t + (if t = tid then count_list ds d else 0)"
  by (induction ds arbitrary: g) (auto simp: add_edge_def)

lemma all_edges:
  assumes "distinct (map fst ms)"
  shows "degree (tg_indegree (fold (add_edges m) ms g)) t =
      degree (tg_indegree g) t + (case dget ms t of None \<Rightarrow> 0 | Some task \<Rightarrow> int (length (known_deps m task)))
    \<and> neighbours (tg_depends_on (fold (add_edges m) ms g)) t =
      neighbours (tg_depends_on g) t @ (case dget ms t of None \<Rightarrow> [] | Some task \<Rightarrow> known_deps m task)
    \<and> count_list (neighbours (tg_outgoing (fold (add_edges m) ms g)) d) t =
      count_list (neighbours (tg_outgoing g) d) t +
      (case dget ms t of None \<Rightarrow> 0 | Some task \<Rightarrow> count_list (known_deps m task) d)"
  using assms
proof (induction ms arbitrary: g)
  case (Cons e ms)
  obtain k task where e: "e = (k, task)" by (cases e)
  with Cons.prems have "dget ms k = None" by (auto simp: map_of_eq_None_iff)
  with Cons.IH [of "add_edges m e g"] Cons.prems e show ?case by (simp add: add_edges_def task_edges)
qed simp

lemma initial_graph:
  "degree (tg_indegree (empty_graph m)) t = 0" "neighbours (tg_depends_on (empty_graph m)) t = []"
  "neighbours (tg_outgoing (empty_graph m)) t = []"
  by (induction m) (auto simp: empty_graph_def degree_def neighbours_def)

lemma graph_spec:
  assumes "wf_dict m"
  shows "degree (tg_indegree (build_graph m)) t = int (length (kd m t))"
    and "neighbours (tg_depends_on (build_graph m)) t = kd m t"
    and "count_list (neighbours (tg_outgoing (build_graph m)) d) t = count_list (kd m t) d"
  using all_edges [OF assms, of m "empty_graph m"]
  by (simp_all add: build_graph_def kd_def initial_graph split: option.splits)

lemma edge_keys:
  assumes "tid \<in> fst ` set (tg_indegree g)" "wf_dict (tg_indegree g)"
  shows "fst ` set (tg_indegree (fold (add_edge tid) ds g)) = fst ` set (tg_indegree g)"
    and "wf_dict (tg_indegree (fold (add_edge tid) ds g))"
  using assms by (induction ds arbitrary: g) (simp_all add: add_edge_def dom_update insert_absorb)

lemma graph_keys:
  assumes "wf_dict m"
  shows "fst ` set (tg_indegree (build_graph m)) = fst ` set m \<and> wf_dict (tg_indegree (build_graph m))"
proof -
  have "set ms \<subseteq> set m \<Longrightarrow> fst ` set (tg_indegree g) = fst ` set m \<Longrightarrow> wf_dict (tg_indegree g) \<Longrightarrow>
      fst ` set (tg_indegree (fold (add_edges m) ms g)) = fst ` set m \<and>
      wf_dict (tg_indegree (fold (add_edges m) ms g))" for ms g
  proof (induction ms arbitrary: g)
    case (Cons e ms)
    obtain k task where e: "e = (k, task)" by (cases e)
    with Cons.prems have "k \<in> fst ` set (tg_indegree g)" by (auto intro: rev_image_eqI)
    with edge_keys [OF this] Cons e show ?case by (simp add: add_edges_def)
  qed simp
  note this [of m "empty_graph m"]
  moreover have "map fst (tg_indegree (empty_graph m)) = map fst m"
    by (simp add: empty_graph_def comp_def split_def)
  then have "fst ` set (tg_indegree (empty_graph m)) = fst ` set m" "wf_dict (tg_indegree (empty_graph m))"
    using assms by (simp_all flip: set_map)
  ultimately show ?thesis by (simp add: build_graph_def)
qed

section \<open>A plan is valid exactly when its dependencies are known and acyclic\<close>

text \<open>Releasing the children of a task whose remaining degrees bound how often each occurs.\<close>

lemma release_children:
  assumes "\<And>t. t \<in> set cs \<Longrightarrow> int (count_list cs t) \<le> degree ind t"
  shows "\<exists>ind' new. fold release_child cs (ind, q) = (ind', q @ new) \<and> distinct new \<and>
      set new = {t \<in> set cs. degree ind t = int (count_list cs t)} \<and>
      (\<forall>t. degree ind' t = degree ind t - int (count_list cs t))"
  using assms
proof (induction cs arbitrary: ind q)
  case (Cons c cs)
  let ?ind = "dset c (degree ind c - 1) ind"
  let ?q = "if degree ?ind c = 0 then q @ [c] else q"
  have le: "int (count_list cs t) \<le> degree ?ind t" if "t \<in> set cs" for t
    using Cons.prems [of t] that by (cases "t = c") simp_all
  from Cons.IH [OF le, of ?q] obtain ind' new where
    run: "fold release_child cs (?ind, ?q) = (ind', ?q @ new)" and new: "distinct new"
      "set new = {t \<in> set cs. degree ?ind t = int (count_list cs t)}"
    and deg: "\<And>t. degree ind' t = degree ?ind t - int (count_list cs t)"
    by metis
  have c: "degree ?ind c = 0 \<longleftrightarrow> c \<notin> set cs \<and> degree ind c = 1"
    using le [of c] Cons.prems [of c] count_list_0_iff [of cs c] by (cases "c \<in> set cs") auto
  show ?case
  proof (intro exI conjI allI)
    let ?new = "(if degree ?ind c = 0 then [c] else []) @ new"
    show "fold release_child (c # cs) (ind, q) = (ind', q @ ?new)"
      using run by (simp add: release_child_def Let_def split: if_splits)
    have "c \<notin> set new" if "degree ?ind c = 0" using that c new(2) by blast
    with new(1) show "distinct ?new" by auto
    show "set ?new = {t \<in> set (c # cs). degree ind t = int (count_list (c # cs) t)}"
      unfolding set_append new(2) using c by (auto simp: count_list_0_iff)
    show "degree ind' t = degree ind t - int (count_list (c # cs) t)" for t
      by (simp add: deg)
  qed
qed simp

text \<open>Where the dependencies of a task stand once the tasks of \<open>V\<close> are done.\<close>

definition waiting :: "tasks \<Rightarrow> string set \<Rightarrow> string \<Rightarrow> nat" where
  "waiting m V t = length (filter (\<lambda>d. d \<notin> V) (kd m t))"

lemma waiting_insert: "v \<notin> V \<Longrightarrow> waiting m V t = waiting m (insert v V) t + count_list (kd m t) v"
proof -
  assume "v \<notin> V"
  then have "length (filter (\<lambda>d. d \<notin> V) ds) = length (filter (\<lambda>d. d \<notin> insert v V) ds) + count_list ds v" for ds
    by (induction ds) auto
  then show ?thesis unfolding waiting_def .
qed

lemma waiting_0: "waiting m V t = 0 \<longleftrightarrow> set (kd m t) \<subseteq> V"
  by (auto simp: waiting_def filter_empty_conv)

text \<open>The tasks no cycle holds back.\<close>

definition settled :: "tasks \<Rightarrow> string set" where
  "settled m = Wellfounded.acc (depends m) \<inter> fst ` set m"

lemma settledI: "t \<in> fst ` set m \<Longrightarrow> set (kd m t) \<subseteq> settled m \<Longrightarrow> t \<in> settled m"
  unfolding settled_def by (rule IntI, rule acc.accI) (auto simp: depends_def)

lemma settled_least:
  assumes "\<And>t. t \<in> fst ` set m \<Longrightarrow> set (kd m t) \<subseteq> V \<Longrightarrow> t \<in> V"
  shows "settled m \<subseteq> V"
proof
  fix t assume "t \<in> settled m"
  then have "t \<in> Wellfounded.acc (depends m)" "t \<in> fst ` set m" by (auto simp: settled_def)
  then show "t \<in> V"
  proof (induction rule: acc.induct)
    case (accI t)
    have "d \<in> V" if "d \<in> set (kd m t)" for d
      using accI(2) [of d] kd_keys [OF that] that unfolding depends_def by blast
    with accI(3) show ?case by (intro assms) blast+
  qed
qed

lemma settled_acyclic: "settled m = fst ` set m \<longleftrightarrow> acyclic (depends m)"
proof
  assume s: "settled m = fst ` set m"
  have "t \<in> Wellfounded.acc (depends m)" for t
  proof (cases "t \<in> fst ` set m")
    case True
    with s show ?thesis unfolding settled_def by blast
  next
    case False
    then have "(d, t) \<notin> depends m" for d using kd_None [of t m] by (simp add: depends_def)
    then show ?thesis by (rule_tac acc.accI) blast
  qed
  then show "acyclic (depends m)" by (simp add: wf_iff_acc wf_acyclic)
next
  assume "acyclic (depends m)"
  then have "wf (depends m)" by (rule finite_acyclic_wf [OF finite_depends])
  then show "settled m = fst ` set m" unfolding settled_def wf_iff_acc by blast
qed

text \<open>The loop: what is queued or visited is settled, and what is ready is queued or visited.\<close>

definition kahn_inv :: "tasks \<Rightarrow> string list \<Rightarrow> string list \<Rightarrow> (string, int) dict \<Rightarrow> bool" where
  "kahn_inv m q V ind \<longleftrightarrow>
     distinct (V @ q) \<and> set (V @ q) \<subseteq> settled m \<and> (\<forall>t. degree ind t = int (waiting m (set V) t)) \<and>
     (\<forall>t \<in> fst ` set m. waiting m (set V) t = 0 \<longleftrightarrow> t \<in> set (V @ q))"

lemma kahn_step:
  assumes inv: "kahn_inv m (node # q) V ind"
    and out: "\<And>t. count_list cs t = count_list (kd m t) node"
    and run: "fold release_child cs (ind, q) = (ind', q')"
  shows "kahn_inv m q' (V @ [node]) ind'"
proof -
  have node: "node \<notin> set V" and deg: "\<And>t. degree ind t = int (waiting m (set V) t)"
    and ready: "\<And>t. t \<in> fst ` set m \<Longrightarrow> waiting m (set V) t = 0 \<longleftrightarrow> t \<in> set (V @ node # q)"
    using inv by (auto simp: kahn_inv_def)
  have split: "waiting m (set V) t = waiting m (set (V @ [node])) t + count_list cs t" for t
    using waiting_insert [OF node] out by simp
  obtain new where q': "q' = q @ new" and new: "distinct new"
      "set new = {t \<in> set cs. waiting m (set (V @ [node])) t = 0}"
    and deg': "\<And>t. degree ind' t = int (waiting m (set (V @ [node])) t)"
    using release_children [of cs ind q] run by (auto simp: deg split)
  have cs: "t \<in> fst ` set m \<and> 0 < waiting m (set V) t" if "t \<in> set cs" for t
  proof -
    from that have "0 < count_list cs t" using count_list_0_iff [of cs t] by simp
    then have "node \<in> set (kd m t)" using out count_list_0_iff [of "kd m t" node] by simp
    with kd_keys split \<open>0 < count_list cs t\<close> show ?thesis by fastforce
  qed
  have "set new \<inter> set (V @ node # q) = {}" using cs ready new(2) by fastforce
  moreover have "set new \<subseteq> settled m"
  proof
    fix t assume "t \<in> set new"
    with new(2) cs have "t \<in> fst ` set m" "set (kd m t) \<subseteq> set (V @ [node])" by (auto simp: waiting_0)
    with inv show "t \<in> settled m" by (intro settledI) (auto simp: kahn_inv_def)
  qed
  moreover have "waiting m (set (V @ [node])) t = 0 \<longleftrightarrow> t \<in> set (V @ node # q) \<or> t \<in> set new"
    if "t \<in> fst ` set m" for t
  proof (cases "t \<in> set cs")
    case True
    with cs ready [OF that] new(2) show ?thesis by fastforce
  next
    case False
    then have "count_list cs t = 0" by (simp add: count_list_0_iff)
    with False split [of t] ready [OF that] new(2) show ?thesis by simp
  qed
  ultimately show ?thesis using inv new(1) deg' unfolding kahn_inv_def q' by auto
qed

lemma kahn_ends:
  assumes "wf_dict m" "kahn_inv m q V ind"
  shows "kahn (tg_outgoing (build_graph m)) q (length V) ind = Some (card (settled m))"
  using assms(2)
proof (induction "card (settled m) - length V" arbitrary: q V ind rule: less_induct)
  case less
  show ?case
  proof (cases q)
    case Nil
    have "settled m \<subseteq> set V"
      using less.prems unfolding kahn_inv_def Nil append_Nil2 waiting_0 by (intro settled_least) blast
    with less.prems have "set V = settled m" "distinct V" by (auto simp: kahn_inv_def Nil)
    then have "card (settled m) = length V" using distinct_card [of V] by simp
    then show ?thesis by (simp add: Nil kahn.simps)
  next
    case (Cons node q')
    obtain ind' q'' where run: "fold release_child (neighbours (tg_outgoing (build_graph m)) node) (ind, q') = (ind', q'')"
      by (meson surj_pair)
    note inv = kahn_step [OF less.prems [unfolded Cons] graph_spec(3) [OF assms(1)] run]
    have "finite (settled m)" by (simp add: settled_def)
    moreover have "set (V @ [node]) \<subseteq> settled m" "distinct (V @ [node])"
      using less.prems by (auto simp: kahn_inv_def Cons)
    ultimately have "length (V @ [node]) \<le> card (settled m)"
      using card_mono [of "settled m" "set (V @ [node])"] distinct_card [of "V @ [node]"] by simp
    then have "card (settled m) - length (V @ [node]) < card (settled m) - length V" by simp
    from less.hyps [OF this inv] show ?thesis
      by (subst kahn.simps) (simp add: Cons run)
  qed
qed

lemma sources_spec:
  assumes "wf_dict m"
  shows "distinct (sources (tg_indegree (build_graph m)))"
    and "set (sources (tg_indegree (build_graph m))) = {t \<in> fst ` set m. kd m t = []}"
proof -
  let ?ind = "tg_indegree (build_graph m)"
  have keys: "fst ` set ?ind = fst ` set m" and wf: "wf_dict ?ind" using graph_keys [OF assms] by simp_all
  show "distinct (sources ?ind)" unfolding sources_def using wf by (rule distinct_map_filter)
  have "t \<in> set (sources ?ind) \<longleftrightarrow> dget ?ind t = Some 0" for t
  proof -
    have "t \<in> set (sources ?ind) \<longleftrightarrow> (t, 0) \<in> set ?ind" by (force simp: sources_def)
    then show ?thesis using wf by simp
  qed
  moreover have "dget ?ind t = Some 0 \<longleftrightarrow> t \<in> fst ` set ?ind \<and> degree ?ind t = 0" for t
    using map_of_eq_None_iff [of ?ind t] by (cases "dget ?ind t") (auto simp: degree_def)
  ultimately show "set (sources ?ind) = {t \<in> fst ` set m. kd m t = []}"
    unfolding keys using graph_spec(1) [OF assms] by auto
qed

lemma kahn_start:
  assumes "wf_dict m"
  shows "kahn_inv m (sources (tg_indegree (build_graph m))) [] (tg_indegree (build_graph m))"
proof -
  have "t \<in> settled m" if "t \<in> fst ` set m" "kd m t = []" for t
    using that by (intro settledI) simp_all
  then show ?thesis
    using sources_spec [OF assms] graph_spec(1) [OF assms]
    by (auto simp: kahn_inv_def waiting_def)
qed

lemma kahn_counts:
  assumes "wf_dict m"
  shows "kahn (tg_outgoing (build_graph m)) (sources (tg_indegree (build_graph m))) 0 (tg_indegree (build_graph m)) =
    Some (card (settled m))"
  using kahn_ends [OF assms kahn_start [OF assms]] by simp

lemma settled_card: "wf_dict m \<Longrightarrow> card (settled m) = length m \<longleftrightarrow> acyclic (depends m)"
proof -
  assume "wf_dict m"
  then have "length m = card (fst ` set m)" using distinct_card [of "map fst m"] by simp
  moreover have "settled m \<subseteq> fst ` set m" by (simp add: settled_def)
  ultimately show ?thesis
    using card_subset_eq [of "fst ` set m" "settled m"] settled_acyclic [of m] by auto
qed

lemma set_block_all: "set (block_all tids b) = set b \<union> set tids"
  unfolding block_all_def by (induction tids arbitrary: b) auto

lemma check_cycles_spec:
  assumes "wf_dict m"
  shows "check_cycles m (b, w) =
    Some (if acyclic (depends m) then (b, w) else (block_all (map fst m) b, w @ [cycle_warning]))"
proof (cases "m = []")
  case True
  then have "depends m = {}" by (simp add: depends_def kd_def)
  with True show ?thesis by (simp add: check_cycles_def acyclic_def)
next
  case False
  with kahn_counts [OF assms] settled_card [OF assms] show ?thesis
    by (simp add: check_cycles_def Let_def)
qed

text \<open>Every dependency the task names is a task of the plan.\<close>

fun deps_known :: "tasks \<Rightarrow> json \<Rightarrow> bool" where
  "deps_known m (JDict task) \<longleftrightarrow>
     task_text (jget task ''task_id'') = [] \<or> list_all (\<lambda>d. dget m d \<noteq> None) (named_deps task)"
| "deps_known m _ \<longleftrightarrow> True"

lemma check_deps_spec:
  "(case check_deps m ts b w of
      Inl e \<Rightarrow> \<not> list_all is_jdict ts
    | Inr (b', w') \<Rightarrow> list_all is_jdict ts \<and> (b' = [] \<longleftrightarrow> b = [] \<and> list_all (deps_known m) ts))"
proof (induction m ts b w rule: check_deps.induct)
  case (2 m task ts b w)
  let ?unknown = "filter (\<lambda>d. dget m d = None) (named_deps task)"
  show ?case
  proof (cases "task_text (jget task ''task_id'') = []")
    case True
    with 2(1) [OF refl True] show ?thesis by (auto split: sum.splits)
  next
    case False
    have "?unknown = [] \<longleftrightarrow> list_all (\<lambda>d. dget m d \<noteq> None) (named_deps task)"
      by (auto simp: filter_empty_conv list_all_iff)
    with False 2(2) [OF refl False refl] show ?thesis by (auto simp: Let_def split: sum.splits)
  qed
qed simp_all

lemma validation_spec:
  "\<exists>r. validate_execute_plan plan = Some r \<and>
     ((\<exists>blocked warnings. r = Inr (True, blocked, warnings)) \<longleftrightarrow>
      list_all is_jdict (plan_tasks plan) \<and> list_all (deps_known (task_map (plan_tasks plan))) (plan_tasks plan) \<and>
      acyclic (depends (task_map (plan_tasks plan))))"
proof -
  let ?ts = "plan_tasks plan" and ?m = "task_map (plan_tasks plan)"
  show ?thesis
  proof (cases "check_deps ?m ?ts [] []")
    case (Inl e)
    then show ?thesis using check_deps_spec [where m = ?m and ts = ?ts and b = "[]" and w = "[]"] by (simp add: validate_execute_plan_def)
  next
    case (Inr r)
    obtain b w where r: "r = (b, w)" by (cases r)
    have spec: "list_all is_jdict ?ts" "b = [] \<longleftrightarrow> list_all (deps_known ?m) ?ts"
      using check_deps_spec [where m = ?m and ts = ?ts and b = "[]" and w = "[]"] by (simp_all add: Inr r)
    have cyclic: "?m \<noteq> []" if "\<not> acyclic (depends ?m)"
      using that by (cases "?m = []") (auto simp: depends_def kd_def acyclic_def)
    have "block_all (map fst ?m) b \<noteq> []" if "\<not> acyclic (depends ?m)"
      using cyclic [OF that] set_block_all [of "map fst ?m" b] by (cases ?m) auto
    then show ?thesis
      using spec by (cases "acyclic (depends ?m)")
        (simp_all add: validate_execute_plan_def Let_def Inr r check_cycles_spec [OF wf_task_map])
  qed
qed

text \<open>C3
  A plan is always validated: the walk over its dependencies ends, whatever they are. And it is
  declared valid exactly when every entry of its task list is a dictionary, every dependency a task
  names is a task of the plan, and no task depends on itself through others.
\<close>

theorem plan_valid_iff_acyclic:
  "\<exists>r. validate_execute_plan plan = Some r \<and>
     ((\<exists>blocked warnings. r = Inr (True, blocked, warnings)) \<longleftrightarrow>
      list_all is_jdict (plan_tasks plan) \<and> list_all (deps_known (task_map (plan_tasks plan))) (plan_tasks plan) \<and>
      acyclic (depends (task_map (plan_tasks plan))))"
  by (rule validation_spec)

section \<open>The stages\<close>

lemma fold_concat_map: "fold (\<lambda>x. fold f (g x)) xs s = fold f (concat (map g xs)) s"
  by (induction xs arbitrary: s) simp_all

text \<open>Under the invariant of the loop, the guards of a stage only skip the tasks already visited.\<close>

lemma stage_children:
  assumes "\<And>t. t \<in> set cs \<Longrightarrow> t \<notin> set visited \<Longrightarrow>
      int (count_list (filter (\<lambda>c. c \<notin> set visited) cs) t) \<le> degree ind t"
    and "\<forall>t \<in> set level. degree ind t = 0"
  shows "fold (stage_child visited) cs (ind, level) =
    fold release_child (filter (\<lambda>c. c \<notin> set visited) cs) (ind, level)"
  using assms
proof (induction cs arbitrary: ind level)
  case (Cons c cs)
  show ?case
  proof (cases "c \<in> set visited")
    case True
    then show ?thesis using Cons by (simp add: stage_child_def)
  next
    case False
    let ?ind = "dset c (degree ind c - 1) ind"
    let ?level = "if degree ?ind c = 0 then level @ [c] else level"
    have "1 \<le> degree ind c" using Cons.prems(1) [of c] False by simp
    with Cons.prems(2) have "c \<notin> set level" by auto
    with False have step: "stage_child visited c (ind, level) = (?ind, ?level)"
        "release_child c (ind, level) = (?ind, ?level)"
      by (simp_all add: stage_child_def release_child_def Let_def)
    have "fold (stage_child visited) cs (?ind, ?level) =
        fold release_child (filter (\<lambda>c. c \<notin> set visited) cs) (?ind, ?level)"
    proof (rule Cons.IH)
      show "int (count_list (filter (\<lambda>c. c \<notin> set visited) cs) t) \<le> degree ?ind t"
        if "t \<in> set cs" "t \<notin> set visited" for t
        using Cons.prems(1) [of t] that False by (cases "t = c") auto
      show "\<forall>t \<in> set ?level. degree ?ind t = 0"
        using Cons.prems(2) \<open>c \<notin> set level\<close> by auto
    qed
    with False step show ?thesis by simp
  qed
qed simp

lemma count_filter: "count_list (filter P xs) t = (if P t then count_list xs t else 0)"
  by (induction xs) auto

lemma waiting_append:
  assumes "distinct (visited @ current)" "\<And>d t. count_list (out d) t = count_list (kd m t) d"
  shows "waiting m (set visited) t =
    waiting m (set (visited @ current)) t + count_list (concat (map out current)) t"
  using assms(1)
proof (induction current rule: rev_induct)
  case (snoc c current)
  then have "c \<notin> set (visited @ current)" by simp
  from waiting_insert [OF this, of m t] snoc show ?case by (simp add: assms(2))
qed simp

lemma fromkeys_distinct: "distinct xs \<Longrightarrow> fromkeys xs = xs"
proof -
  have "distinct (ks @ xs) \<Longrightarrow> fold (\<lambda>x ks. if x \<in> set ks then ks else ks @ [x]) xs ks = ks @ xs" for ks
    by (induction xs arbitrary: ks) simp_all
  from this [of "[]"] show "distinct xs \<Longrightarrow> fromkeys xs = xs" by (simp add: fromkeys_def)
qed

text \<open>A list of stages in which every known dependency of a task stands in an earlier one.\<close>

fun deps_first :: "tasks \<Rightarrow> string list \<Rightarrow> string list list \<Rightarrow> bool" where
  "deps_first m seen [] \<longleftrightarrow> True"
| "deps_first m seen (ts # tss) \<longleftrightarrow>
     list_all (\<lambda>t. list_all (\<lambda>d. d \<in> set seen) (kd m t)) ts \<and> deps_first m (seen @ ts) tss"

lemma deps_first_append:
  "deps_first m seen (tss @ uss) \<longleftrightarrow> deps_first m seen tss \<and> deps_first m (seen @ concat tss) uss"
  by (induction tss arbitrary: seen) auto

lemma deps_first_mono:
  "deps_first m seen tss \<Longrightarrow> set seen \<subseteq> set seen' \<Longrightarrow> deps_first m seen' tss"
proof (induction tss arbitrary: seen seen')
  case (Cons ts tss)
  have "deps_first m (seen' @ ts) tss" by (rule Cons.IH [of "seen @ ts"]) (use Cons.prems in auto)
  with Cons.prems show ?case by (fastforce simp: list_all_iff)
qed simp

lemma deps_first_seen:
  "(\<And>t. t \<in> set (concat tss) \<Longrightarrow> set (kd m t) \<subseteq> set seen) \<Longrightarrow> deps_first m seen tss"
proof (induction tss arbitrary: seen)
  case (Cons ts tss)
  have "deps_first m (seen @ ts) tss" by (rule Cons.IH) (use Cons.prems in fastforce)
  with Cons.prems show ?case by (fastforce simp: list_all_iff)
qed simp

text \<open>
  The loop: the degrees of the tasks not reached yet count the dependencies they wait for, and the
  only tasks that are ready and not in the current stage are syntheses.
\<close>

definition stage_inv :: "tasks \<Rightarrow> string list \<Rightarrow> string list \<Rightarrow> (string, int) dict \<Rightarrow> bool" where
  "stage_inv m current visited ind \<longleftrightarrow>
     distinct (visited @ current) \<and> set (visited @ current) \<subseteq> fst ` set m \<and>
     (\<forall>t. t \<notin> set (visited @ current) \<longrightarrow> degree ind t = int (waiting m (set visited) t)) \<and>
     (\<forall>t \<in> fst ` set m. t \<notin> set (visited @ current) \<longrightarrow> waiting m (set visited) t = 0 \<longrightarrow>
        current \<noteq> [] \<and> t \<in> set (synthesis_ids m))"

lemma synthesis_keys: "set (synthesis_ids m) \<subseteq> fst ` set m"
  by (auto simp: synthesis_ids_def)

lemma next_level_spec:
  assumes wf: "wf_dict m" and inv: "stage_inv m current visited ind"
    and run: "next_level (tg_outgoing (build_graph m)) (visited @ current) current ind = (ind', level)"
  shows "distinct level"
    and "set level \<subseteq> {t \<in> fst ` set m. t \<notin> set (visited @ current) \<and> waiting m (set (visited @ current)) t = 0}"
    and "\<And>t. t \<notin> set (visited @ current) \<Longrightarrow> degree ind' t = int (waiting m (set (visited @ current)) t)"
    and "\<And>t. t \<in> fst ` set m \<Longrightarrow> t \<notin> set (visited @ current) \<Longrightarrow> t \<notin> set level \<Longrightarrow>
           waiting m (set (visited @ current)) t = 0 \<Longrightarrow> waiting m (set visited) t = 0"
proof -
  let ?V = "visited @ current"
  let ?cs = "concat (map (neighbours (tg_outgoing (build_graph m))) current)"
  let ?new = "filter (\<lambda>c. c \<notin> set ?V) ?cs"
  have dist: "distinct ?V" using inv by (simp add: stage_inv_def)
  have split: "waiting m (set visited) t = waiting m (set ?V) t + count_list ?cs t" for t
    by (rule waiting_append [OF dist graph_spec(3) [OF wf]])
  have deg: "degree ind t = int (waiting m (set ?V) t + count_list ?new t)" if "t \<notin> set ?V" for t
  proof -
    have "degree ind t = int (waiting m (set visited) t)" using inv that by (simp add: stage_inv_def)
    with split [of t] that show ?thesis by (simp add: count_filter)
  qed
  have le: "int (count_list ?new t) \<le> degree ind t" if "t \<notin> set ?V" for t
    using deg [OF that] by simp
  have cs: "t \<in> fst ` set m" if "t \<in> set ?cs" for t
  proof -
    from that obtain d where "t \<in> set (neighbours (tg_outgoing (build_graph m)) d)" by auto
    then have "0 < count_list (kd m t) d"
      using graph_spec(3) [OF wf, of d t] count_list_0_iff [of "neighbours (tg_outgoing (build_graph m)) d" t]
      by (metis gr0I)
    then have "d \<in> set (kd m t)" using count_list_0_iff [of "kd m t" d] by auto
    then show ?thesis by (simp add: kd_keys)
  qed
  have children: "fold (stage_child ?V) ?cs (ind, []) = fold release_child ?new (ind, [])"
    by (rule stage_children) (use le in auto)
  have "\<exists>ind' new. fold release_child ?new (ind, []) = (ind', [] @ new) \<and> distinct new \<and>
      set new = {t \<in> set ?new. degree ind t = int (count_list ?new t)} \<and>
      (\<forall>t. degree ind' t = degree ind t - int (count_list ?new t))"
    by (rule release_children) (rule le, simp)
  moreover have "fold release_child ?new (ind, []) = (ind', level)"
    using run unfolding next_level_def fold_concat_map children .
  ultimately have level: "distinct level"
      "set level = {t \<in> set ?new. degree ind t = int (count_list ?new t)}"
    and ind': "\<And>t. degree ind' t = degree ind t - int (count_list ?new t)"
    by auto
  show "distinct level" by (rule level(1))
  show "degree ind' t = int (waiting m (set ?V) t)" if "t \<notin> set ?V" for t
    using deg [OF that] ind' [of t] by simp
  show "set level \<subseteq> {t \<in> fst ` set m. t \<notin> set ?V \<and> waiting m (set ?V) t = 0}"
  proof
    fix t assume "t \<in> set level"
    then have t: "t \<in> set ?cs" "t \<notin> set ?V" "degree ind t = int (count_list ?new t)"
      unfolding level(2) by simp_all
    from t(3) deg [OF t(2)] have "waiting m (set ?V) t = 0" by simp
    with t cs show "t \<in> {t \<in> fst ` set m. t \<notin> set ?V \<and> waiting m (set ?V) t = 0}" by blast
  qed
  show "waiting m (set visited) t = 0"
    if "t \<in> fst ` set m" "t \<notin> set ?V" "t \<notin> set level" "waiting m (set ?V) t = 0" for t
  proof -
    have "t \<notin> set ?new" using that(3) deg [OF that(2)] that(4) unfolding level(2) by simp
    with that(2) have "count_list ?cs t = 0" by (simp add: count_list_0_iff)
    with split that(4) show ?thesis by simp
  qed
qed

lemma found_in: "find P xs = Some x \<Longrightarrow> x \<in> set xs \<and> P x"
  by (induction xs) (auto split: if_splits)

lemma ready_synthesis_spec:
  assumes "wf_dict m" "ready = ready_synthesis (tg_depends_on (build_graph m)) (synthesis_ids m) V"
  shows "distinct ready" "set ready \<subseteq> {t \<in> fst ` set m. t \<notin> set V \<and> waiting m (set V) t = 0}"
    and "ready = [] \<Longrightarrow> t \<in> set (synthesis_ids m) \<Longrightarrow> t \<notin> set V \<Longrightarrow> waiting m (set V) t \<noteq> 0"
proof -
  let ?P = "\<lambda>sid. sid \<notin> set V \<and> list_all (\<lambda>dep. dep \<in> set V) (kd m sid)"
  have ready: "ready = (case find ?P (synthesis_ids m) of None \<Rightarrow> [] | Some sid \<Rightarrow> [sid])"
    using assms by (simp add: ready_synthesis_def graph_spec(2))
  show "distinct ready" by (simp add: ready split: option.split)
  show "set ready \<subseteq> {t \<in> fst ` set m. t \<notin> set V \<and> waiting m (set V) t = 0}"
  proof (cases "find ?P (synthesis_ids m)")
    case (Some sid)
    then have "sid \<in> set (synthesis_ids m)" "?P sid" using found_in by metis+
    moreover have "ready = [sid]" by (simp add: ready Some)
    ultimately show ?thesis using synthesis_keys [of m] by (auto simp: waiting_0 list_all_iff)
  qed (simp add: ready)
  show "waiting m (set V) t \<noteq> 0" if "ready = []" "t \<in> set (synthesis_ids m)" "t \<notin> set V"
  proof -
    have "find ?P (synthesis_ids m) = None" using that(1) by (simp add: ready split: option.splits)
    with that(2,3) show ?thesis by (auto simp: find_None_iff waiting_0 list_all_iff)
  qed
qed

lemma stage_step:
  assumes wf: "wf_dict m" and inv: "stage_inv m current visited ind" and nonempty: "current \<noteq> []"
    and run: "next_level (tg_outgoing (build_graph m)) (visited @ current) current ind = (ind', level)"
    and level': "level' = (if level = [] then ready_synthesis (tg_depends_on (build_graph m)) (synthesis_ids m) (visited @ current)
                           else level)"
  shows "stage_inv m level' (visited @ current) ind'" "distinct level'"
    and "\<And>t. t \<in> set level' \<Longrightarrow> set (kd m t) \<subseteq> set (visited @ current)"
proof -
  let ?V = "visited @ current"
  have before: "distinct ?V" "set ?V \<subseteq> fst ` set m"
      "\<And>t. t \<in> fst ` set m \<Longrightarrow> t \<notin> set ?V \<Longrightarrow> waiting m (set visited) t = 0 \<Longrightarrow> t \<in> set (synthesis_ids m)"
    using inv unfolding stage_inv_def by (simp, simp, blast)
  note next_stage = next_level_spec [OF wf inv run]
  note synthesis = ready_synthesis_spec [OF wf refl, of ?V]
  have ready: "set level' \<subseteq> {t \<in> fst ` set m. t \<notin> set ?V \<and> waiting m (set ?V) t = 0}"
    unfolding level' by (cases "level = []") (simp_all only: if_True if_False simp_thms next_stage(2) synthesis(2))
  show dist: "distinct level'"
    unfolding level' by (cases "level = []") (simp_all only: if_True if_False simp_thms next_stage(1) synthesis(1))
  show "set (kd m t) \<subseteq> set ?V" if "t \<in> set level'" for t
  proof -
    from ready that have "waiting m (set ?V) t = 0" by blast
    then show ?thesis unfolding waiting_0 .
  qed
  show "stage_inv m level' ?V ind'"
    unfolding stage_inv_def
  proof (intro conjI allI ballI impI)
    have "set ?V \<inter> set level' = {}" using ready by blast
    with before(1) dist show "distinct (?V @ level')" unfolding distinct_append by simp
    have "set level' \<subseteq> fst ` set m" using ready by blast
    with before(2) show "set (?V @ level') \<subseteq> fst ` set m" unfolding set_append by (rule Un_least)
    show "degree ind' t = int (waiting m (set ?V) t)" if "t \<notin> set (?V @ level')" for t
      by (rule next_stage(3)) (use that in simp)
    fix t assume t: "t \<in> fst ` set m" "t \<notin> set (?V @ level')" "waiting m (set ?V) t = 0"
    have V: "t \<notin> set ?V" using t(2) by simp
    have "t \<notin> set level" using t(2) unfolding level' by (cases "level = []") simp_all
    then have "waiting m (set visited) t = 0" by (rule next_stage(4) [OF t(1) V _ t(3)])
    with t(1) V show syn: "t \<in> set (synthesis_ids m)" by (rule before(3))
    show "level' \<noteq> []"
    proof
      assume "level' = []"
      then have "ready_synthesis (tg_depends_on (build_graph m)) (synthesis_ids m) ?V = []"
        unfolding level' by (cases "level = []") simp_all
      from synthesis(3) [OF this syn V] t(3) show False ..
    qed
  qed
qed

lemma stages_end:
  assumes "wf_dict m" "stage_inv m current (concat staged) ind"
  shows "\<exists>staged'. stages (build_graph m) (synthesis_ids m) current (concat staged) ind staged =
      Some (staged', concat staged') \<and> distinct (concat staged') \<and> set (concat staged') \<subseteq> fst ` set m \<and>
      settled m \<subseteq> set (concat staged') \<and>
      (deps_first m [] (staged @ [current]) \<longrightarrow> deps_first m [] staged')"
  using assms(2)
proof (induction "card (fst ` set m) - length (concat staged)" arbitrary: current staged ind rule: less_induct)
  case less
  show ?case
  proof (cases "current = []")
    case True
    have "settled m \<subseteq> set (concat staged)"
    proof (rule settled_least)
      fix t assume "t \<in> fst ` set m" "set (kd m t) \<subseteq> set (concat staged)"
      with less.prems True show "t \<in> set (concat staged)"
        unfolding stage_inv_def by (metis append_Nil2 waiting_0)
    qed
    with True less.prems show ?thesis
      by (subst stages.simps) (simp add: stage_inv_def deps_first_append)
  next
    case False
    let ?g = "build_graph m" and ?V = "concat staged @ current"
    obtain ind' level where run: "next_level (tg_outgoing ?g) ?V current ind = (ind', level)"
      by (meson surj_pair)
    define level' where "level' = (if level = [] then ready_synthesis (tg_depends_on ?g) (synthesis_ids m) ?V else level)"
    note step = stage_step [OF assms(1) less.prems False run level'_def]
    have V: "concat (staged @ [current]) = ?V" by simp
    have "finite (fst ` set m)" by simp
    moreover have "set ?V \<subseteq> fst ` set m" "distinct ?V" using less.prems by (simp_all add: stage_inv_def)
    ultimately have "length ?V \<le> card (fst ` set m)"
      using card_mono [of "fst ` set m" "set ?V"] distinct_card [of ?V] by simp
    then have "card (fst ` set m) - length (concat (staged @ [current])) < card (fst ` set m) - length (concat staged)"
      using False unfolding V length_append length_greater_0_conv [symmetric] by arith
    from less.hyps [OF this, of level' ind'] step(1) obtain staged' where
      res: "stages ?g (synthesis_ids m) level' ?V ind' (staged @ [current]) = Some (staged', concat staged')"
        "distinct (concat staged')" "set (concat staged') \<subseteq> fst ` set m" "settled m \<subseteq> set (concat staged')"
        "deps_first m [] ((staged @ [current]) @ [level']) \<longrightarrow> deps_first m [] staged'"
      unfolding V by blast
    have "stages ?g (synthesis_ids m) current (concat staged) ind staged = Some (staged', concat staged')"
      using res(1) False
      by (subst stages.simps) (simp add: Let_def run fromkeys_distinct [OF step(2)] flip: level'_def)
    moreover have "deps_first m [] (staged @ [current]) \<Longrightarrow> deps_first m [] ((staged @ [current]) @ [level'])"
      using step(3) by (fastforce simp: deps_first_append list_all_iff)
    ultimately show ?thesis using res by blast
  qed
qed

lemma first_stage_inv:
  assumes "wf_dict m"
  shows "stage_inv m (first_stage m (tg_indegree (build_graph m))) [] (tg_indegree (build_graph m))"
proof -
  let ?ind = "tg_indegree (build_graph m)"
  have "distinct (synthesis_ids m)" unfolding synthesis_ids_def using assms by (rule distinct_map_filter)
  then have dist: "distinct (first_stage m ?ind)"
    using sources_spec(1) [OF assms] by (simp add: first_stage_def Let_def)
  have keys: "set (first_stage m ?ind) \<subseteq> fst ` set m"
    using sources_spec(2) [OF assms] synthesis_keys [of m] by (auto simp: first_stage_def Let_def)
  have "first_stage m ?ind \<noteq> [] \<and> t \<in> set (synthesis_ids m)"
    if "t \<in> fst ` set m" "t \<notin> set (first_stage m ?ind)" "kd m t = []" for t
  proof -
    let ?c = "filter (\<lambda>tid. tid \<notin> set (synthesis_ids m)) (sources ?ind)"
    have t: "t \<in> set (sources ?ind)" using that sources_spec(2) [OF assms] by simp
    have f: "first_stage m ?ind = (if ?c = [] \<and> synthesis_ids m \<noteq> [] then synthesis_ids m else ?c)"
      by (simp add: first_stage_def Let_def)
    have "t \<in> set (synthesis_ids m)"
    proof (rule ccontr)
      assume n: "t \<notin> set (synthesis_ids m)"
      with t have "t \<in> set ?c" by simp
      with f that(2) show False by (metis list.set(1) empty_iff)
    qed
    moreover from this that(2) f have "?c \<noteq> []" by (metis list.set(1) empty_iff)
    ultimately show ?thesis using f by metis
  qed
  with dist keys show ?thesis
    unfolding stage_inv_def using graph_spec(1) [OF assms] by (simp add: waiting_def)
qed

lemma staged_order_spec:
  assumes "wf_dict m"
  shows "\<exists>staged. staged_order m = Some staged \<and> distinct (concat staged) \<and> set (concat staged) = fst ` set m \<and>
    (acyclic (depends m) \<longrightarrow> list_all (\<lambda>t. kd m t = []) (first_stage m (tg_indegree (build_graph m))) \<longrightarrow>
     deps_first m [] staged)"
proof -
  let ?g = "build_graph m"
  let ?first = "first_stage m (tg_indegree ?g)"
  have "stage_inv m ?first (concat []) (tg_indegree ?g)" using first_stage_inv [OF assms] by simp
  from stages_end [OF assms this] obtain staged where
    run: "stages ?g (synthesis_ids m) ?first [] (tg_indegree ?g) [] = Some (staged, concat staged)"
    and res: "distinct (concat staged)" "set (concat staged) \<subseteq> fst ` set m" "settled m \<subseteq> set (concat staged)"
    and ordered: "deps_first m [] [?first] \<longrightarrow> deps_first m [] staged"
    by auto
  let ?rest = "filter (\<lambda>tid. tid \<notin> set (concat staged)) (map fst m)"
  let ?all = "if ?rest = [] then staged else staged @ [?rest]"
  have run: "staged_order m = Some ?all" using run by (simp add: staged_order_def Let_def)
  have "concat ?all = concat staged @ ?rest" by simp
  then have "distinct (concat ?all)" using res(1) assms by auto
  moreover have "set (concat ?all) = fst ` set m"
    using res(2) unfolding \<open>concat ?all = _\<close> by auto
  moreover have "deps_first m [] ?all"
    if "acyclic (depends m)" "list_all (\<lambda>t. kd m t = []) ?first"
  proof -
    have "fst ` set m \<subseteq> set (concat staged)" using res(3) that(1) settled_acyclic [of m] by blast
    then have "?rest = []" by (auto simp: filter_empty_conv)
    then have "?all = staged" by (rule if_P)
    moreover have "deps_first m [] [?first]" using that(2) by (simp add: list_all_iff)
    ultimately show ?thesis using ordered by simp
  qed
  ultimately show ?thesis using run by blast
qed

section \<open>The order of execution\<close>

abbreviation ids :: "schedule \<Rightarrow> string list list" where
  "ids s \<equiv> map st_task_ids (sc_execution_order s)"

text \<open>Stages are numbered from one, hold a task, and are parallel when they hold more than one.\<close>

definition stages_ok :: "schedule \<Rightarrow> bool" where
  "stages_ok s \<longleftrightarrow>
     map st_stage (sc_execution_order s) = [1..<length (sc_execution_order s) + 1] \<and>
     list_all (\<lambda>st. st_task_ids st \<noteq> [] \<and> (st_mode st = ''parallel'' \<longleftrightarrow> 1 < length (st_task_ids st)))
       (sc_execution_order s)"

lemma add_serial_ids: "ids (fold add_serial ts s) = ids s @ map (\<lambda>t. [t]) ts"
  by (induction ts arbitrary: s) (simp_all add: add_serial_def)

lemma add_stage_ids:
  "ids (add_stage alone ts s) =
     ids s @ map (\<lambda>t. [t]) (filter alone ts) @
     (if filter (\<lambda>t. \<not> alone t) ts = [] then [] else [filter (\<lambda>t. \<not> alone t) ts])"
  by (simp add: add_stage_def add_together_def add_serial_ids Let_def)

lemma add_stage_ok: "stages_ok s \<Longrightarrow> stages_ok (add_stage alone ts s)"
proof -
  have serial: "stages_ok s \<Longrightarrow> stages_ok (add_serial t s)" for t s
    by (simp add: stages_ok_def add_serial_def)
  have "stages_ok s \<Longrightarrow> stages_ok (fold add_serial us s)" for us s
    by (induction us arbitrary: s) (simp_all add: serial)
  moreover have "stages_ok s \<Longrightarrow> stages_ok (add_together us s)" for us s
    by (cases "us = []") (simp_all add: stages_ok_def add_together_def Let_def)
  ultimately show "stages_ok s \<Longrightarrow> stages_ok (add_stage alone ts s)" by (simp add: add_stage_def)
qed

lemma mset_split: "mset (filter P xs) + mset (filter (\<lambda>x. \<not> P x) xs) = mset xs"
  by (induction xs) simp_all

lemma schedule_ids:
  "stages_ok s \<Longrightarrow> stages_ok (fold (add_stage alone) tss s) \<and>
     mset (concat (ids (fold (add_stage alone) tss s))) = mset (concat (ids s)) + mset (concat tss) \<and>
     (deps_first m [] (ids s @ tss) \<longrightarrow> deps_first m [] (ids (fold (add_stage alone) tss s)))"
proof (induction tss arbitrary: s)
  case (Cons ts tss)
  let ?s = "add_stage alone ts s"
  have new: "concat (ids ?s) = concat (ids s) @ filter alone ts @ filter (\<lambda>t. \<not> alone t) ts"
    by (simp add: add_stage_ids)
  have "deps_first m [] (ids ?s @ tss)" if "deps_first m [] (ids s @ ts # tss)"
  proof -
    have "list_all (\<lambda>t. list_all (\<lambda>d. d \<in> set (concat (ids s))) (kd m t)) ts"
      using that unfolding deps_first_append by simp
    then have "set (kd m t) \<subseteq> set (concat (ids s))" if "t \<in> set ts" for t
      using that unfolding list_all_iff by blast
    moreover have "t \<in> set ts" if "t \<in> set (concat (map (\<lambda>t. [t]) (filter alone ts) @
        (if filter (\<lambda>t. \<not> alone t) ts = [] then [] else [filter (\<lambda>t. \<not> alone t) ts])))" for t
      using that by (auto split: if_splits)
    ultimately have "deps_first m (concat (ids s)) (map (\<lambda>t. [t]) (filter alone ts) @
        (if filter (\<lambda>t. \<not> alone t) ts = [] then [] else [filter (\<lambda>t. \<not> alone t) ts]))"
      by (intro deps_first_seen) blast
    moreover have "deps_first m (concat (ids s) @ ts) tss" using that by (simp add: deps_first_append)
    then have "deps_first m (concat (ids ?s)) tss" by (rule deps_first_mono) (auto simp: new)
    ultimately show ?thesis using that by (simp add: deps_first_append add_stage_ids)
  qed
  moreover have "mset (concat (ids ?s)) = mset (concat (ids s)) + mset ts"
    unfolding new by (simp del: mset_filter add: mset_split)
  ultimately show ?case using Cons.IH [OF add_stage_ok [OF Cons.prems], of alone ts] by (simp add: ac_simps)
qed simp

lemma schedule_exists:
  "\<exists>s. build_execution_schedule plan = Some s \<and> stages_ok s \<and>
     mset (concat (ids s)) = mset (map fst (task_map (plan_tasks plan))) \<and>
     (acyclic (depends (task_map (plan_tasks plan))) \<longrightarrow>
      list_all (\<lambda>t. kd (task_map (plan_tasks plan)) t = [])
        (first_stage (task_map (plan_tasks plan)) (tg_indegree (build_graph (task_map (plan_tasks plan))))) \<longrightarrow>
      deps_first (task_map (plan_tasks plan)) [] (ids s))"
proof -
  let ?m = "task_map (plan_tasks plan)"
  have empty: "stages_ok empty_schedule" "ids empty_schedule = []"
    by (simp_all add: stages_ok_def empty_schedule_def)
  obtain staged where staged: "staged_order ?m = Some staged" "distinct (concat staged)"
      "set (concat staged) = fst ` set ?m"
    and ordered: "acyclic (depends ?m) \<longrightarrow> list_all (\<lambda>t. kd ?m t = []) (first_stage ?m (tg_indegree (build_graph ?m))) \<longrightarrow>
      deps_first ?m [] staged"
    using staged_order_spec [OF wf_task_map] by blast
  then have m: "mset (concat staged) = mset (map fst ?m)"
    using set_eq_iff_mset_eq_distinct [OF staged(2) wf_task_map] by (metis set_map)
  define alone where "alone = runs_alone ?m
      (hinted ?m (jlist (jget (jdict (jget plan ''scheduler_hints'')) ''serial_steps'')))
      (hinted ?m (concat (map jlist (jlist (jget (jdict (jget plan ''scheduler_hints'')) ''parallel_groups'')))))"
  have s: "build_execution_schedule plan =
      Some (if ?m = [] then empty_schedule else fold (add_stage alone) staged empty_schedule)"
    by (simp add: build_execution_schedule_def Let_def staged(1) alone_def)
  show ?thesis
  proof (cases "?m = []")
    case True
    with s empty show ?thesis by simp
  next
    case False
    with s m ordered schedule_ids [OF empty(1), of alone staged ?m] empty(2) show ?thesis by simp
  qed
qed

text \<open>C17
  Every plan gets a schedule: the staging of its tasks ends, whether or not their dependencies have
  a cycle. The stages are numbered from one, none is empty, and each task of the plan is in exactly
  one of them, once.
\<close>

theorem plan_scheduled_once:
  "\<exists>s. build_execution_schedule plan = Some s \<and> stages_ok s \<and>
     mset (concat (map st_task_ids (sc_execution_order s))) = mset (map fst (task_map (plan_tasks plan)))"
  using schedule_exists by blast

text \<open>C4
  A task runs after the tasks it depends on: when the dependencies of a plan are acyclic and none
  of the tasks of its first stage has one, every known dependency of a task stands in an earlier
  stage of the schedule than the task itself, whatever the hints of the plan ask for.
\<close>

theorem dependencies_scheduled_first:
  assumes "build_execution_schedule plan = Some s" "acyclic (depends (task_map (plan_tasks plan)))"
    and "list_all (\<lambda>t. kd (task_map (plan_tasks plan)) t = [])
      (first_stage (task_map (plan_tasks plan)) (tg_indegree (build_graph (task_map (plan_tasks plan)))))"
  shows "deps_first (task_map (plan_tasks plan)) [] (map st_task_ids (sc_execution_order s))"
  using schedule_exists [of plan] assms by auto

section \<open>Small plans\<close>

definition plan_task :: "string \<Rightarrow> string \<Rightarrow> string list \<Rightarrow> bool \<Rightarrow> json" where
  "plan_task tid skill deps together =
     JDict [(''task_id'', JStr tid), (''skill'', JStr skill), (''depends_on'', JList (map JStr deps)),
            (''can_parallelize'', JBool together)]"

definition plan_of :: "json list \<Rightarrow> jdict" where
  "plan_of ts = [(''tasks'', JList ts)]"

definition review_plan :: jdict where
  "review_plan = plan_of
     [plan_task ''search'' ''internal_knowledge_search'' [''review''] True,
      plan_task ''review'' ''context_review'' [] False,
      plan_task ''docs'' ''official_docs_fallback'' [''review''] True,
      plan_task ''answer'' ''synthesis'' [''search'', ''docs''] False]"

lemma review_plan_stages:
  "map_option (\<lambda>s. map st_task_ids (sc_execution_order s)) (build_execution_schedule review_plan) =
     Some [[''review''], [''search'', ''docs''], [''answer'']]"
  "fst (projr (the (validate_execute_plan review_plan)))" "isl (the (validate_execute_plan review_plan)) = False"
  by code_simp+

theorem dependencies_scheduled_first_witness:
  "deps_first (task_map (plan_tasks review_plan)) [] [[''review''], [''search'', ''docs''], [''answer'']]"
proof -
  obtain s where s: "build_execution_schedule review_plan = Some s"
      "map st_task_ids (sc_execution_order s) = [[''review''], [''search'', ''docs''], [''answer'']]"
    using review_plan_stages(1) by (cases "build_execution_schedule review_plan") auto
  let ?g = "build_graph (task_map (plan_tasks review_plan))"
  have "kahn (tg_outgoing ?g) (sources (tg_indegree ?g)) 0 (tg_indegree ?g) =
      Some (length (task_map (plan_tasks review_plan)))"
    by code_simp
  then have "card (settled (task_map (plan_tasks review_plan))) = length (task_map (plan_tasks review_plan))"
    unfolding kahn_counts [OF wf_task_map] by simp
  then have "acyclic (depends (task_map (plan_tasks review_plan)))"
    using settled_card [OF wf_task_map] by blast
  moreover have "list_all (\<lambda>t. kd (task_map (plan_tasks review_plan)) t = [])
      (first_stage (task_map (plan_tasks review_plan)) (tg_indegree (build_graph (task_map (plan_tasks review_plan)))))"
    by code_simp
  ultimately show ?thesis using dependencies_scheduled_first [OF s(1)] by (simp add: s(2))
qed

text \<open>
  The synthesis is meant to run last, and the stages to respect the dependencies. Neither holds of
  every valid plan: a synthesis whose dependencies are done is staged with whatever else is ready,
  and when only syntheses are ready at the start, all of them form the first stage, those that wait
  for other tasks included.
\<close>

definition early_plan :: jdict where
  "early_plan = plan_of
     [plan_task ''A'' ''context_review'' [] False, plan_task ''B'' ''internal_knowledge_search'' [''A''] False,
      plan_task ''S'' ''synthesis'' [''A''] False, plan_task ''C'' ''official_docs_fallback'' [''B''] False]"

definition hasty_plan :: jdict where
  "hasty_plan = plan_of
     [plan_task ''S1'' ''synthesis'' [] False, plan_task ''B'' ''context_review'' [''S1''] False,
      plan_task ''S2'' ''synthesis'' [''B''] False]"


end
