(* ===== verification/Weknora_Client.thy ===== *)
theory Weknora_Client
  imports Json_Values
begin

text \<open>
  The client of the WeKnora knowledge service (\<open>services/weknora_client.py\<close>). Which operations exist,
  where they are and what their requests and replies look like is pinned by a contract, a JSON
  object of the configuration; the client renders a request from it, sends it, and reads the reply.

  The service is behind HTTP: \<open>transport\<close> is an argument, from a request and the state \<open>'w\<close> of the
  outside world to a reply and the next state, and so is \<open>loads\<close>, the JSON decoder (\<open>None\<close> where it
  raises). A request carries its JSON body as a value, before it is serialised. Time-outs are left
  to the transport. Every operation is \<open>'w \<Rightarrow> (wk_error + 'a) \<times> 'w\<close>: an error ends it but does not
  undo what was sent.
\<close>

section \<open>Errors and replies\<close>

record wk_error =
  we_message :: string
  we_failure_kind :: string
  we_status_code :: "int option"

definition plain_error :: "string \<Rightarrow> string \<Rightarrow> wk_error" where
  "plain_error message kind = \<lparr> we_message = message, we_failure_kind = kind, we_status_code = None \<rparr>"

definition server_failure :: "wk_error \<Rightarrow> bool" where
  "server_failure e \<longleftrightarrow>
     we_failure_kind e = ''http'' \<and> (case we_status_code e of None \<Rightarrow> False | Some code \<Rightarrow> 500 \<le> code)"

definition retryable :: "wk_error \<Rightarrow> bool" where
  "retryable e \<longleftrightarrow> we_failure_kind e \<in> set [''timeout'', ''transport''] \<or> server_failure e"

datatype http_reply =
    Reply string
  | HttpError int string
  | TimedOut
  | Unreachable

record http_request =
  hr_method :: string
  hr_url :: string
  hr_headers :: "(string, string) dict"
  hr_body :: "jdict option"

type_synonym ('w, 'a) wk = "'w \<Rightarrow> (wk_error + 'a) \<times> 'w"

definition wbind :: "('w \<Rightarrow> ('e + 'a) \<times> 'w) \<Rightarrow> ('a \<Rightarrow> 'w \<Rightarrow> ('e + 'b) \<times> 'w) \<Rightarrow> 'w \<Rightarrow> ('e + 'b) \<times> 'w" where
  "wbind f g w = (case f w of (Inl e, w') \<Rightarrow> (Inl e, w') | (Inr x, w') \<Rightarrow> g x w')"

text \<open>A step that reads no state.\<close>

definition wlift :: "'e + 'a \<Rightarrow> 'w \<Rightarrow> ('e + 'a) \<times> 'w" where
  "wlift r w = (r, w)"

section \<open>Reading a reply\<close>

text \<open>\<open>path.split(".")\<close>.\<close>

fun split_char :: "char \<Rightarrow> string \<Rightarrow> string \<Rightarrow> string list" where
  "split_char sep acc [] = [rev acc]"
| "split_char sep acc (c # s) =
     (if c = sep then rev acc # split_char sep [] s else split_char sep (c # acc) s)"

fun extract_parts :: "json \<Rightarrow> string list \<Rightarrow> json" where
  "extract_parts node [] = node"
| "extract_parts node (part # parts) =
     (if part = [] then extract_parts node parts
      else case node of
        JDict d \<Rightarrow> (case dget d part of None \<Rightarrow> JNull | Some v \<Rightarrow> extract_parts v parts)
      | _ \<Rightarrow> JNull)"

text \<open>\<open>_extract\<close>, whose \<open>None\<close> is \<open>JNull\<close>.\<close>

definition wk_extract :: "json \<Rightarrow> string \<Rightarrow> json" where
  "wk_extract payload path = extract_parts payload (split_char CHR ''.'' [] path)"

text \<open>\<open>_json_loads\<close> of the decoded text of a reply.\<close>

definition wk_loads :: "(string \<Rightarrow> json option) \<Rightarrow> string \<Rightarrow> json" where
  "wk_loads loads raw =
     (let text = strip raw
      in if text = [] then JDict []
         else case loads text of None \<Rightarrow> JDict [(''message'', JStr text)] | Some v \<Rightarrow> v)"

section \<open>The client\<close>

record weknora =
  wk_base_url :: string
  wk_api_token :: string
  wk_contract :: jdict
  wk_knowledge_base_id :: string
  wk_memory_identity :: string
  wk_tenant_id :: string
  wk_auth_header_name :: string
  wk_auth_scheme :: string

definition wk_operation :: "weknora \<Rightarrow> string \<Rightarrow> jdict option" where
  "wk_operation c name =
     (case jget (wk_contract c) name of
        JDict entry \<Rightarrow> if jstrip (jget entry ''path'') = [] then None else Some entry
      | _ \<Rightarrow> None)"

definition wk_field :: "weknora \<Rightarrow> string \<Rightarrow> string \<Rightarrow> string" where
  "wk_field c key fallback = or_else (jstrip (jget (wk_contract c) key)) fallback"

definition is_configured :: "weknora \<Rightarrow> bool" where
  "is_configured c \<longleftrightarrow> wk_base_url c \<noteq> [] \<and> wk_api_token c \<noteq> [] \<and> wk_operation c ''health'' \<noteq> None"

definition has_memory_identity :: "weknora \<Rightarrow> bool" where
  "has_memory_identity c \<longleftrightarrow> wk_memory_identity c \<noteq> []"

section \<open>The URL and the headers\<close>

text \<open>\<open>urllib.parse.urlencode\<close>.\<close>

definition quote_plus :: "string \<Rightarrow> string" where
  "quote_plus s = concat (map (\<lambda>c. if c = CHR '' '' then ''+'' else quote [c]) s)"

definition urlencode :: "jdict \<Rightarrow> string" where
  "urlencode d = intersperse ''&'' (map (\<lambda>(k, v). quote_plus k @ ''='' @ quote_plus (py_str v)) d)"

definition build_url :: "weknora \<Rightarrow> string \<Rightarrow> jdict \<Rightarrow> string" where
  "build_url c path query =
     (let normalized_path = (if take 1 path = ''/'' then path else ''/'' @ path);
          url = wk_base_url c @ normalized_path;
          filtered = filter (\<lambda>(k, v). v \<noteq> JNull) query
      in if filtered = [] then url else url @ ''?'' @ urlencode filtered)"

definition wk_headers :: "weknora \<Rightarrow> (string, string) dict" where
  "wk_headers c =
     (let headers = [(''Accept'', ''application/json''), (''User-Agent'', ''supportportal-weknora/1'')]
      in if wk_api_token c \<noteq> []
         then dset (wk_auth_header_name c) (strip (wk_auth_scheme c @ '' '' @ wk_api_token c)) headers
         else headers)"

text \<open>
  The placeholders of a path, \<open>\{([a-zA-Z0-9_]+)\}\<close>, left to right; what stands for them is quoted
  and so holds no brace. The first of several placeholders without a value is the one reported.
\<close>

definition token_char :: "char \<Rightarrow> bool" where
  "token_char c \<longleftrightarrow>
     (let n = (of_char c :: nat)
      in (48 \<le> n \<and> n \<le> 57) \<or> (65 \<le> n \<and> n \<le> 90) \<or> (97 \<le> n \<and> n \<le> 122) \<or> n = 95)"

definition token_at :: "string \<Rightarrow> string option" where
  "token_at s =
     (let t = takeWhile token_char s
      in if t \<noteq> [] \<and> take 1 (drop (length t) s) = [CHR 0x7D] then Some t else None)"

fun render_path :: "string \<Rightarrow> nat \<Rightarrow> jdict \<Rightarrow> wk_error + string" where
  "render_path [] skip semantic = Inr []"
| "render_path (c # s) skip semantic =
     (if 0 < skip then render_path s (skip - 1) semantic
      else case (if c = CHR 0x7B then token_at s else None) of
        None \<Rightarrow> map_sum id (Cons c) (render_path s 0 semantic)
      | Some t \<Rightarrow>
          (case dget semantic t of
             None \<Rightarrow> Inl (plain_error (''WeKnora path placeholder '' @ [CHR 0x7B] @ t @ [CHR 0x7D] @ '' has no request value'')
                            ''not_configured'')
           | Some v \<Rightarrow> map_sum id (\<lambda>rest. quote (py_str v) @ rest)
                        (render_path s (length t + 1) semantic)))"

section \<open>The body\<close>

text \<open>A template value is a literal or \<open>{"$": name}\<close>, which must name a value that is not empty.\<close>

fun blank :: "json \<Rightarrow> bool" where
  "blank JNull = True"
| "blank (JStr s) = (strip s = [])"
| "blank (JDict d) = (d = [])"
| "blank _ = False"

definition binding_of :: "json \<Rightarrow> json option" where
  "binding_of spec =
     (case spec of JDict d \<Rightarrow> if map fst d = [''$''] then Some (jget d ''$'') else None | _ \<Rightarrow> None)"

definition rendered_value :: "jdict \<Rightarrow> string \<Rightarrow> string \<Rightarrow> string \<Rightarrow> json \<Rightarrow> wk_error + json" where
  "rendered_value semantic operation kind field spec =
     (case binding_of spec of
        None \<Rightarrow> Inr spec
      | Some n \<Rightarrow>
          (let name = py_str n; value = jget semantic name
           in if blank value
              then Inl (plain_error (''WeKnora '' @ operation @ '' '' @ kind @ '' field '' @ [CHR 0x27] @ field @ [CHR 0x27] @
                     '' requires semantic input '' @ [CHR 0x27] @ name @ [CHR 0x27] @ '', which is missing or empty'')
                     ''not_configured'')
              else Inr value))"

fun render_template :: "jdict \<Rightarrow> string \<Rightarrow> string \<Rightarrow> jdict \<Rightarrow> wk_error + jdict" where
  "render_template semantic operation kind [] = Inr []"
| "render_template semantic operation kind ((field, spec) # template) =
     sbind (rendered_value semantic operation kind field spec) (\<lambda>v.
     sbind (render_template semantic operation kind template) (\<lambda>rest. Inr ((field, v) # rest)))"

section \<open>A request\<close>

text \<open>\<open>str.upper\<close> on the letters of code points below 128, which is all a method is compared with.\<close>

definition upper_char :: "char \<Rightarrow> char" where
  "upper_char c =
     (let n = (of_char c :: nat) in if 97 \<le> n \<and> n \<le> 122 then char_of (n - 32) else c)"

definition method_of :: "jdict \<Rightarrow> string" where
  "method_of entry = map upper_char (strip (jstr (jor (jget entry ''method'') (JStr ''GET''))))"

text \<open>\<open>entry.get(k) if isinstance(entry.get(k), dict) else None\<close>.\<close>

definition template_of :: "jdict \<Rightarrow> string \<Rightarrow> jdict option" where
  "template_of entry k = (case jget entry k of JDict d \<Rightarrow> Some d | _ \<Rightarrow> None)"

definition semantic_of :: "weknora \<Rightarrow> jdict \<Rightarrow> jdict" where
  "semantic_of c body =
     (if wk_tenant_id c \<noteq> [] then setdefault ''tenant_id'' (JStr (wk_tenant_id c)) body else body)"

definition body_of :: "weknora \<Rightarrow> jdict \<Rightarrow> string \<Rightarrow> jdict option \<Rightarrow> wk_error + jdict option" where
  "body_of c entry operation json_body =
     (case template_of entry ''body'' of
        Some template \<Rightarrow>
          map_sum id Some (render_template (semantic_of c (case json_body of None \<Rightarrow> [] | Some b \<Rightarrow> b)) operation ''body'' template)
      | None \<Rightarrow>
          Inr (if method_of entry \<noteq> ''GET''
               then map_option (\<lambda>b. if wk_tenant_id c \<noteq> []
                      then setdefault (wk_field c ''tenant_field'' ''tenant_id'') (JStr (wk_tenant_id c)) b else b) json_body
               else None))"

definition query_of :: "weknora \<Rightarrow> jdict \<Rightarrow> string \<Rightarrow> jdict option \<Rightarrow> jdict \<Rightarrow> wk_error + jdict" where
  "query_of c entry operation json_body query =
     (case template_of entry ''query_params'' of
        None \<Rightarrow> Inr query
      | Some template \<Rightarrow>
          map_sum id (\<lambda>t. jupdate t query)
            (render_template (semantic_of c (case json_body of None \<Rightarrow> [] | Some b \<Rightarrow> b)) operation ''query'' template))"

definition http_failure_kind :: "int \<Rightarrow> string" where
  "http_failure_kind code =
     (if code = 401 \<or> code = 403 then ''auth''
      else if code = 404 then ''not_found''
      else if code = 409 \<or> code = 412 then ''conflict''
      else ''http'')"

fun reply_payload :: "(string \<Rightarrow> json option) \<Rightarrow> string \<Rightarrow> http_reply \<Rightarrow> wk_error + jdict" where
  "reply_payload loads operation (Reply raw) =
     Inr (case wk_loads loads raw of JDict d \<Rightarrow> d | v \<Rightarrow> [(''payload'', v)])"
| "reply_payload loads operation (HttpError code raw) =
     Inl \<lparr> we_message = ''WeKnora returned HTTP '' @ show_int code @ '' for '' @ operation,
           we_failure_kind = http_failure_kind code, we_status_code = Some code \<rparr>"
| "reply_payload loads operation TimedOut =
     Inl (plain_error (''WeKnora request failed for '' @ operation) ''timeout'')"
| "reply_payload loads operation Unreachable =
     Inl (plain_error (''WeKnora request failed for '' @ operation) ''transport'')"

definition wk_request_of ::
    "weknora \<Rightarrow> string \<Rightarrow> jdict option \<Rightarrow> jdict \<Rightarrow> wk_error + http_request" where
  "wk_request_of c operation json_body query =
     (case wk_operation c operation of
        None \<Rightarrow> Inl (plain_error (''WeKnora operation '' @ [CHR 0x27] @ operation @ [CHR 0x27] @ '' is not configured'') ''not_configured'')
      | Some entry \<Rightarrow>
          if wk_base_url c = [] \<or> wk_api_token c = []
          then Inl (plain_error (''WeKnora operation '' @ [CHR 0x27] @ operation @ [CHR 0x27] @ '' is not configured'') ''not_configured'')
          else sbind (query_of c entry operation json_body query) (\<lambda>rendered_query.
               sbind (body_of c entry operation json_body) (\<lambda>body.
               sbind (render_path (py_str (jget entry ''path'')) 0 (semantic_of c (case json_body of None \<Rightarrow> [] | Some b \<Rightarrow> b))) (\<lambda>path.
               Inr \<lparr> hr_method = method_of entry, hr_url = build_url c path rendered_query,
                     hr_headers = (if body = None then wk_headers c
                                   else dset ''Content-Type'' ''application/json'' (wk_headers c)),
                     hr_body = body \<rparr>))))"

type_synonym 'w transport = "http_request \<Rightarrow> 'w \<Rightarrow> http_reply \<times> 'w"

definition wk_send ::
    "'w transport \<Rightarrow> (string \<Rightarrow> json option) \<Rightarrow> weknora \<Rightarrow> string \<Rightarrow> jdict option \<Rightarrow> jdict \<Rightarrow> ('w, jdict) wk" where
  "wk_send transport loads c operation json_body query w =
     (case wk_request_of c operation json_body query of
        Inl e \<Rightarrow> (Inl e, w)
      | Inr request \<Rightarrow>
          (let (reply, w') = transport request w in (reply_payload loads operation reply, w')))"

section \<open>Receipts\<close>

text \<open>\<open>{...}\<close> whose keys are computed: a repeated key keeps its place and takes the later value.\<close>

definition dict_of :: "jdict \<Rightarrow> jdict" where
  "dict_of entries = jupdate entries []"

definition invalid_response :: "string \<Rightarrow> wk_error" where
  "invalid_response message = plain_error message ''invalid_response''"

definition extract_object_id :: "weknora \<Rightarrow> jdict \<Rightarrow> string" where
  "extract_object_id c payload =
     (case filter (\<lambda>v. v \<noteq> [])
        (map (\<lambda>path. jstrip (wk_extract (JDict payload) path))
           [wk_field c ''object_id_key'' ''object_id'', ''object_id'', ''id'']) of
        [] \<Rightarrow> []
      | value # _ \<Rightarrow> value)"

definition normalize_write_receipt :: "weknora \<Rightarrow> string \<Rightarrow> jdict \<Rightarrow> wk_error + jdict" where
  "normalize_write_receipt c operation payload =
     (let object_id = extract_object_id c payload;
          version = jstrip (wk_extract (JDict payload) (wk_field c ''version_key'' ''version''))
      in if object_id = []
         then Inl (invalid_response (''WeKnora '' @ operation @ '' receipt is missing object id''))
         else Inr [(''object_id'', JStr object_id), (''version'', jopt version), (''receipt'', JDict payload)])"

text \<open>\<open>str(x).strip().lower() if x is not None else None\<close>.\<close>

definition status_text :: "json \<Rightarrow> json" where
  "status_text x = (if x = JNull then JNull else JStr (slower (py_str x)))"

definition normalize_read_receipt :: "weknora \<Rightarrow> string \<Rightarrow> jdict \<Rightarrow> wk_error + jdict" where
  "normalize_read_receipt c object_id payload =
     (let content = wk_extract (JDict payload) (wk_field c ''content_key'' ''content'');
          title = wk_extract (JDict payload) (wk_field c ''title_key'' ''title'');
          version = jstrip (wk_extract (JDict payload) (wk_field c ''version_key'' ''version''))
      in if content = JNull then Inl (invalid_response ''WeKnora read response is missing content'')
         else Inr
           [(''object_id'', JStr (or_else (extract_object_id c payload) object_id)),
            (''version'', jopt version), (''title'', JStr (jstr title)), (''content'', JStr (py_str content)),
            (''parse_status'', status_text (wk_extract (JDict payload) (wk_field c ''parse_status_key'' ''data.parse_status''))),
            (''enable_status'', status_text (wk_extract (JDict payload) (wk_field c ''enable_status_key'' ''data.enable_status''))),
            (''payload'', JDict payload)])"

definition weknora_readback_is_ready :: "jdict \<Rightarrow> bool" where
  "weknora_readback_is_ready receipt \<longleftrightarrow>
     jlower (jget receipt ''parse_status'') = ''completed'' \<and>
     jlower (jget receipt ''enable_status'') = ''enabled''"

section \<open>Knowledge\<close>

definition require_knowledge_base :: "weknora \<Rightarrow> wk_error + string" where
  "require_knowledge_base c =
     (if wk_knowledge_base_id c = []
      then Inl (plain_error ''WeKnora knowledge base id is not configured'' ''not_configured'')
      else Inr (wk_knowledge_base_id c))"

text \<open>A request whose JSON body needs the knowledge base, and the reading of its reply.\<close>

definition knowledge_request ::
    "'w transport \<Rightarrow> (string \<Rightarrow> json option) \<Rightarrow> weknora \<Rightarrow> string \<Rightarrow> (string \<Rightarrow> jdict) \<Rightarrow> ('w, jdict) wk" where
  "knowledge_request transport loads c operation body =
     wbind (wlift (require_knowledge_base c)) (\<lambda>kb. wk_send transport loads c operation (Some (body kb)) [])"

definition knowledge_search ::
    "'w transport \<Rightarrow> (string \<Rightarrow> json option) \<Rightarrow> weknora \<Rightarrow> string \<Rightarrow> int option \<Rightarrow> ('w, jdict list) wk" where
  "knowledge_search transport loads c query top_k =
     wbind (knowledge_request transport loads c ''knowledge_search'' (\<lambda>kb.
         [(''query'', JStr query), (''knowledge_base_id'', JStr kb),
          (''top_k'', (case top_k of None \<Rightarrow> JNull | Some n \<Rightarrow> JInt n))])) (\<lambda>payload.
     wlift (case wk_extract (JDict payload) (wk_field c ''results_key'' ''results'') of
              JNull \<Rightarrow> Inr []
            | JList xs \<Rightarrow> Inr (map jdict (filter is_jdict xs))
            | _ \<Rightarrow> Inl (invalid_response ''WeKnora search response is missing the results list'')))"

definition knowledge_read ::
    "'w transport \<Rightarrow> (string \<Rightarrow> json option) \<Rightarrow> weknora \<Rightarrow> string \<Rightarrow> ('w, jdict) wk" where
  "knowledge_read transport loads c object_id =
     (let normalized_id = strip object_id
      in if normalized_id = [] then wlift (Inl (invalid_response ''object_id is required''))
         else wbind (knowledge_request transport loads c ''knowledge_read'' (\<lambda>kb.
                  [(''object_id'', JStr normalized_id), (''knowledge_base_id'', JStr kb)])) (\<lambda>payload.
              wlift (normalize_read_receipt c normalized_id payload)))"

definition knowledge_versions ::
    "'w transport \<Rightarrow> (string \<Rightarrow> json option) \<Rightarrow> weknora \<Rightarrow> string \<Rightarrow> ('w, jdict) wk" where
  "knowledge_versions transport loads c object_id =
     (let normalized_id = strip object_id
      in if normalized_id = [] then wlift (Inl (invalid_response ''object_id is required''))
         else knowledge_request transport loads c ''knowledge_versions'' (\<lambda>kb.
                [(''object_id'', JStr normalized_id), (''knowledge_base_id'', JStr kb)]))"

definition require_publish_capable_contract :: "weknora \<Rightarrow> string \<Rightarrow> wk_error + unit" where
  "require_publish_capable_contract c operation =
     (let template = (case wk_operation c operation of None \<Rightarrow> [] | Some entry \<Rightarrow> jdict (jget entry ''body''))
      in if template = [] \<or> list_ex (\<lambda>spec. jget (jdict spec) ''$'' = JStr ''status'') (dvalues template)
         then Inr ()
         else Inl (plain_error (''the pinned WeKnora contract cannot publish via '' @ operation @
                '': the body template has no status binding'') ''not_configured''))"

text \<open>The publication status a write asks for, checked before anything is sent.\<close>

definition write_status :: "weknora \<Rightarrow> string \<Rightarrow> string option \<Rightarrow> wk_error + string" where
  "write_status c operation status =
     (let normalized_status = olower status
      in if normalized_status = [] then Inr []
         else if normalized_status \<notin> set [''draft'', ''publish'']
         then Inl (plain_error (''WeKnora knowledge status must be '' @ repr_str ''draft'' @ '' or '' @ repr_str ''publish'' @
                '', got '' @ py_repr (of_opt status)) ''not_configured'')
         else if normalized_status = ''publish''
         then map_sum id (\<lambda>_. normalized_status) (require_publish_capable_contract c operation)
         else Inr normalized_status)"

definition with_status :: "string \<Rightarrow> jdict" where
  "with_status status = (if status = [] then [] else [(''status'', JStr status)])"

definition requested :: "string \<Rightarrow> jdict \<Rightarrow> jdict" where
  "requested status receipt = (if status = [] then receipt else dset ''requested_status'' (JStr status) receipt)"

definition knowledge_create ::
    "'w transport \<Rightarrow> (string \<Rightarrow> json option) \<Rightarrow> weknora \<Rightarrow> string \<Rightarrow> string \<Rightarrow> string \<Rightarrow> jdict \<Rightarrow> string option
       \<Rightarrow> ('w, jdict) wk" where
  "knowledge_create transport loads c title content idempotency_key metadata status =
     wbind (wlift (write_status c ''knowledge_create'' status)) (\<lambda>normalized_status.
     wbind (knowledge_request transport loads c ''knowledge_create'' (\<lambda>kb. dict_of
         ([(''title'', JStr (strip title)), (''content'', JStr content),
           (wk_field c ''idempotency_key_field'' ''idempotency_key'', JStr (strip idempotency_key)),
           (''knowledge_base_id'', JStr kb), (''metadata'', JDict metadata)] @ with_status normalized_status))) (\<lambda>payload.
     wlift (map_sum id (requested normalized_status) (normalize_write_receipt c ''knowledge_create'' payload))))"

definition knowledge_update ::
    "'w transport \<Rightarrow> (string \<Rightarrow> json option) \<Rightarrow> weknora \<Rightarrow> string \<Rightarrow> string \<Rightarrow> string \<Rightarrow> string \<Rightarrow> string \<Rightarrow> jdict
       \<Rightarrow> string option \<Rightarrow> ('w, jdict) wk" where
  "knowledge_update transport loads c object_id base_version title content idempotency_key metadata status =
     wbind (wlift (write_status c ''knowledge_update'' status)) (\<lambda>normalized_status.
     wbind (knowledge_request transport loads c ''knowledge_update'' (\<lambda>kb. dict_of
         ([(''object_id'', JStr (strip object_id)),
           (wk_field c ''base_version_field'' ''base_version'', JStr (strip base_version)),
           (''title'', JStr (strip title)), (''content'', JStr content),
           (wk_field c ''idempotency_key_field'' ''idempotency_key'', JStr (strip idempotency_key)),
           (''knowledge_base_id'', JStr kb), (''metadata'', JDict metadata)] @ with_status normalized_status))) (\<lambda>payload.
     wlift (map_sum id (requested normalized_status) (normalize_write_receipt c ''knowledge_update'' payload))))"

section \<open>Memory\<close>

definition memory_semantics :: "weknora \<Rightarrow> jdict \<Rightarrow> wk_error + jdict" where
  "memory_semantics c body =
     (if wk_memory_identity c = []
      then Inl (plain_error ''WeKnora shared memory identity is not configured'' ''not_configured'')
      else Inr (dset ''identity'' (JStr (wk_memory_identity c)) body))"

definition supports_conditional_update :: "weknora \<Rightarrow> string \<Rightarrow> bool" where
  "supports_conditional_update c candidate_type \<longleftrightarrow>
     (case wk_operation c (if candidate_type = ''knowledge'' then ''knowledge_update'' else ''memory_update'') of
        None \<Rightarrow> False
      | Some entry \<Rightarrow> jget entry ''conditional_update'' = JBool True)"

definition legacy_memory_body :: "weknora \<Rightarrow> jdict \<Rightarrow> jdict" where
  "legacy_memory_body c semantics =
     (let payload = dset (wk_field c ''identity_field'' ''user_id'') (JStr (wk_memory_identity c)) semantics;
          payload = dset (wk_field c ''idempotency_key_field'' ''idempotency_key'')
            (jget_or semantics ''idempotency_key'' (JStr [])) payload;
          payload = dset (wk_field c ''base_version_field'' ''base_version'')
            (jget_or semantics ''base_version'' (JStr [])) payload
      in filter (\<lambda>(k, v). \<not> (k \<in> set [''kind'', ''importance'', ''metadata'', ''object_id'', ''top_k''] \<and>
           (v = JNull \<or> v = JStr []))) payload)"

text \<open>Every memory operation sends its body with the shared identity.\<close>

definition memory_request ::
    "'w transport \<Rightarrow> (string \<Rightarrow> json option) \<Rightarrow> weknora \<Rightarrow> string \<Rightarrow> (jdict \<Rightarrow> jdict) \<Rightarrow> jdict \<Rightarrow> jdict \<Rightarrow> ('w, jdict) wk" where
  "memory_request transport loads c operation shape body query =
     wbind (wlift (memory_semantics c body)) (\<lambda>semantics.
       wk_send transport loads c operation (Some (shape semantics)) query)"

definition memory_write ::
    "'w transport \<Rightarrow> (string \<Rightarrow> json option) \<Rightarrow> weknora \<Rightarrow> string \<Rightarrow> jdict \<Rightarrow> ('w, jdict) wk" where
  "memory_write transport loads c operation body =
     wbind (memory_request transport loads c operation (legacy_memory_body c) body []) (\<lambda>payload.
       wlift (normalize_write_receipt c operation payload))"

definition memory_create ::
    "'w transport \<Rightarrow> (string \<Rightarrow> json option) \<Rightarrow> weknora \<Rightarrow> string \<Rightarrow> string \<Rightarrow> string \<Rightarrow> int \<Rightarrow> jdict \<Rightarrow> ('w, jdict) wk" where
  "memory_create transport loads c content idempotency_key kind importance metadata =
     memory_write transport loads c ''memory_create''
       [(''content'', JStr content), (''idempotency_key'', JStr (strip idempotency_key)), (''kind'', JStr kind),
        (''importance'', JInt importance), (''metadata'', JDict metadata)]"

definition memory_update ::
    "'w transport \<Rightarrow> (string \<Rightarrow> json option) \<Rightarrow> weknora \<Rightarrow> string \<Rightarrow> string \<Rightarrow> string \<Rightarrow> string \<Rightarrow> string \<Rightarrow> int \<Rightarrow> jdict
       \<Rightarrow> ('w, jdict) wk" where
  "memory_update transport loads c object_id base_version content idempotency_key kind importance metadata =
     memory_write transport loads c ''memory_update''
       [(''object_id'', JStr (strip object_id)), (''base_version'', JStr (strip base_version)),
        (''content'', JStr content), (''idempotency_key'', JStr (strip idempotency_key)), (''kind'', JStr kind),
        (''importance'', JInt importance), (''metadata'', JDict metadata)]"

definition memory_decision ::
    "'w transport \<Rightarrow> (string \<Rightarrow> json option) \<Rightarrow> weknora \<Rightarrow> string \<Rightarrow> string \<Rightarrow> ('w, jdict) wk" where
  "memory_decision transport loads c operation object_id =
     memory_request transport loads c operation id [(''object_id'', JStr (strip object_id))] []"

definition memory_confirm ::
    "'w transport \<Rightarrow> (string \<Rightarrow> json option) \<Rightarrow> weknora \<Rightarrow> string \<Rightarrow> ('w, jdict) wk" where
  "memory_confirm transport loads c = memory_decision transport loads c ''memory_confirm''"

definition memory_reject ::
    "'w transport \<Rightarrow> (string \<Rightarrow> json option) \<Rightarrow> weknora \<Rightarrow> string \<Rightarrow> ('w, jdict) wk" where
  "memory_reject transport loads c = memory_decision transport loads c ''memory_reject''"

section \<open>The memory listing\<close>

text \<open>\<open>_memory_page_results\<close> and \<open>_memory_page_items\<close>: no list is an error, never an empty page.\<close>

definition memory_page_results :: "weknora \<Rightarrow> jdict \<Rightarrow> json" where
  "memory_page_results c payload =
     (case wk_extract (JDict payload) (wk_field c ''results_key'' ''results'') of
        JNull \<Rightarrow>
          (case jget payload ''data'' of
             JList xs \<Rightarrow> JList xs
           | JDict data \<Rightarrow>
               (case jget data ''items'' of
                  JList xs \<Rightarrow> JList xs
                | _ \<Rightarrow> (case jget data ''results'' of JList xs \<Rightarrow> JList xs | _ \<Rightarrow> JNull))
           | _ \<Rightarrow> JNull)
      | results \<Rightarrow> results)"

definition memory_page_items :: "weknora \<Rightarrow> jdict \<Rightarrow> wk_error + jdict list" where
  "memory_page_items c payload =
     (case memory_page_results c payload of
        JList xs \<Rightarrow>
          if list_all is_jdict xs then Inr (map jdict xs)
          else Inl (invalid_response ''WeKnora memory list response contains a malformed item'')
      | _ \<Rightarrow> Inl (invalid_response ''WeKnora memory list response is missing the results list''))"

definition memory_list ::
    "'w transport \<Rightarrow> (string \<Rightarrow> json option) \<Rightarrow> weknora \<Rightarrow> int option \<Rightarrow> ('w, jdict list) wk" where
  "memory_list transport loads c top_k =
     wbind (memory_request transport loads c ''memory_list'' id
         [(''top_k'', (case top_k of None \<Rightarrow> JNull | Some n \<Rightarrow> JInt n))] [])
       (\<lambda>payload. wlift (memory_page_items c payload))"

definition memory_list_page ::
    "'w transport \<Rightarrow> (string \<Rightarrow> json option) \<Rightarrow> weknora \<Rightarrow> int \<Rightarrow> int \<Rightarrow> ('w, jdict list \<times> int option) wk" where
  "memory_list_page transport loads c limit offset =
     wbind (memory_request transport loads c ''memory_list'' id [] [(''limit'', JInt limit), (''offset'', JInt offset)])
       (\<lambda>payload. wlift (map_sum id
          (\<lambda>items. (items, jint (wk_extract (JDict payload) (wk_field c ''total_key'' ''total''))))
          (memory_page_items c payload)))"

definition memory_item_id :: "weknora \<Rightarrow> jdict \<Rightarrow> string" where
  "memory_item_id c item = jstr (jor (jget item (wk_field c ''object_id_key'' ''object_id'')) (jget item ''id''))"

definition incomplete_listing :: "string \<Rightarrow> wk_error" where
  "incomplete_listing message = plain_error message ''incomplete_listing''"

fun add_items :: "weknora \<Rightarrow> jdict list \<Rightarrow> jdict list \<Rightarrow> string list \<Rightarrow> wk_error + jdict list \<times> string list" where
  "add_items c [] collected seen = Inr (collected, seen)"
| "add_items c (item # items) collected seen =
     (let item_id = memory_item_id c item
      in if item_id \<noteq> [] \<and> item_id \<in> set seen
         then Inl (incomplete_listing ''WeKnora memory listing repeated a page (offset ignored)'')
         else add_items c items (collected @ [item]) (if item_id \<noteq> [] then seen @ [item_id] else seen))"

definition page_size :: "int \<Rightarrow> int" where
  "page_size cap = min 200 (max 1 cap)"

text \<open>\<open>total is not None and len(collected) < total\<close>.\<close>

definition missing_items :: "jdict list \<Rightarrow> int option \<Rightarrow> bool" where
  "missing_items collected reported \<longleftrightarrow> (case reported of None \<Rightarrow> False | Some n \<Rightarrow> int (length collected) < n)"

function memory_walk ::
    "(int \<Rightarrow> int \<Rightarrow> ('w, jdict list \<times> int option) wk) \<Rightarrow> weknora \<Rightarrow> int \<Rightarrow> int \<Rightarrow> jdict list \<Rightarrow> string list
       \<Rightarrow> ('w, jdict list) wk" where
  "memory_walk page c cap offset collected seen w =
     (if offset < cap
      then case page (page_size cap) offset w of
             (Inl e, w') \<Rightarrow> (Inl e, w')
           | (Inr (items, reported), w') \<Rightarrow>
               if items = []
               then (if missing_items collected reported
                     then Inl (incomplete_listing ''WeKnora memory listing ended before the reported total'')
                     else Inr collected, w')
               else case add_items c items collected seen of
                      Inl e \<Rightarrow> (Inl e, w')
                    | Inr (collected', seen') \<Rightarrow>
                        if reported \<noteq> None \<and> \<not> missing_items collected' reported then (Inr collected', w')
                        else if int (length items) < page_size cap
                        then (if missing_items collected' reported
                              then Inl (incomplete_listing ''WeKnora memory listing short page before the reported total'')
                              else Inr collected', w')
                        else memory_walk page c cap (offset + page_size cap) collected' seen' w'
      else (Inl (incomplete_listing ''WeKnora memory listing hit the hard cap before exhaustion''), w))"
  by auto

termination
  by (relation "measure (\<lambda>(page, c, cap, offset, _). nat (cap - offset))") (auto simp: page_size_def)

definition memory_list_all ::
    "'w transport \<Rightarrow> (string \<Rightarrow> json option) \<Rightarrow> weknora \<Rightarrow> int option \<Rightarrow> ('w, jdict list) wk" where
  "memory_list_all transport loads c hard_cap =
     memory_walk (memory_list_page transport loads c) c
       (case hard_cap of None \<Rightarrow> 5000 | Some n \<Rightarrow> n) 0 [] []"

declare memory_walk.simps [simp del]

section \<open>A listing that is returned is complete\<close>

lemma wbind_cases:
  "wbind f g w = (case fst (f w) of Inl e \<Rightarrow> (Inl e, snd (f w)) | Inr x \<Rightarrow> g x (snd (f w)))"
  by (simp add: wbind_def split: prod.split sum.split)

lemma add_items_spec:
  "add_items c items collected seen = Inr (collected', seen') \<Longrightarrow> \<forall>i \<in> set items. memory_item_id c i \<noteq> [] \<Longrightarrow>
     seen = map (memory_item_id c) collected \<Longrightarrow> distinct seen \<Longrightarrow>
     collected' = collected @ items \<and> seen' = map (memory_item_id c) collected' \<and> distinct seen'"
  by (induction c items collected seen rule: add_items.induct)
    (fastforce simp: Let_def split: if_splits)+

text \<open>
  What the service documents about its pages, as far as completeness needs it: every item is stored,
  and the reported total counts what is stored. How it pages, and whether it does, is not assumed.
\<close>

definition counts_items :: "(int \<Rightarrow> int \<Rightarrow> ('w, jdict list \<times> int option) wk) \<Rightarrow> jdict list \<Rightarrow> bool" where
  "counts_items page stored \<longleftrightarrow>
     (\<forall>limit offset w items reported w'. page limit offset w = (Inr (items, reported), w') \<longrightarrow>
        set items \<subseteq> set stored \<and> reported = Some (int (length stored)))"

lemma complete_if_counted:
  assumes "set items \<subseteq> set stored" "distinct (map f items)" "distinct (map f stored)"
    and "\<not> missing_items items (Some (int (length stored)))"
  shows "distinct items \<and> set items = set stored"
proof -
  have "distinct items" "distinct stored" using assms(2,3) by (auto simp: distinct_map)
  moreover have "length stored \<le> length items" using assms(4) by (simp add: missing_items_def)
  ultimately have "card (set stored) \<le> card (set items)" by (simp add: distinct_card)
  with assms(1) have "set items = set stored" by (intro card_seteq) auto
  with \<open>distinct items\<close> show ?thesis by simp
qed

lemma walk_complete:
  assumes "counts_items page stored" "distinct (map (memory_item_id c) stored)"
    and "\<forall>i \<in> set stored. memory_item_id c i \<noteq> []"
    and "set collected \<subseteq> set stored" "seen = map (memory_item_id c) collected" "distinct seen"
    and "memory_walk page c cap offset collected seen w = (Inr items, w')"
  shows "distinct items \<and> set items = set stored"
  using assms
proof (induction page c cap offset collected seen w rule: memory_walk.induct)
  case (1 page c cap offset collected seen w)
  note run = "1.prems"(7) [unfolded memory_walk.simps [of page c cap offset collected seen w]]
  have more: "offset < cap" using run by (cases "offset < cap") simp_all
  obtain its reported w1 where page: "page (page_size cap) offset w = (Inr (its, reported), w1)"
    using run more by (auto split: prod.splits sum.splits)
  from "1.prems"(1) [unfolded counts_items_def, rule_format, OF page]
  have its: "set its \<subseteq> set stored" and total: "reported = Some (int (length stored))" by simp_all
  show ?case
  proof (cases "its = []")
    case True
    with run more page total "1.prems" show ?thesis
      by (intro complete_if_counted [of _ _ "memory_item_id c"]) (auto split: if_splits)
  next
    case False
    obtain collected' seen' where add: "add_items c its collected seen = Inr (collected', seen')"
      using run more page False by (auto split: sum.splits)
    have new: "collected' = collected @ its" "seen' = map (memory_item_id c) collected'" "distinct seen'"
      using add_items_spec [OF add _ "1.prems"(5,6)] its "1.prems"(3) by blast+
    then have sub: "set collected' \<subseteq> set stored" using its "1.prems"(4) by auto
    show ?thesis
    proof (cases "missing_items collected' reported")
      case True
      then have full: "\<not> int (length its) < page_size cap"
        and rest: "memory_walk page c cap (offset + page_size cap) collected' seen' w1 = (Inr items, w')"
        using run more page False add by (auto split: if_splits)
      show ?thesis
        by (rule "1.IH" [OF more page [symmetric] refl refl False add refl _ full "1.prems"(1-3) sub new(2,3) rest])
          (use True in simp)
    next
      case enough: False
      then have "items = collected'" using run more page False add total by (simp split: if_splits)
      with enough total new sub "1.prems"(2) show ?thesis
        by (intro complete_if_counted [of _ _ "memory_item_id c"]) simp_all
    qed
  qed
qed

text \<open>C19
  The deduplication of memory relies on a listing being whole. If the service pages items it stores,
  under distinct ids, and reports how many there are, then a listing that is returned has every
  stored item exactly once, however the service pages: ignored offsets, short pages and pages that
  change between requests end in an error instead. The walk itself always ends.
\<close>

theorem memory_listing_complete:
  assumes "counts_items (memory_list_page transport loads c) stored"
    and "distinct (map (memory_item_id c) stored)" "list_all (\<lambda>i. memory_item_id c i \<noteq> []) stored"
    and "memory_list_all transport loads c hard_cap w = (Inr items, w')"
  shows "distinct items \<and> set items = set stored"
  by (rule walk_complete [OF assms(1,2) _ _ _ _ assms(4) [unfolded memory_list_all_def]])
    (use assms(3) in \<open>simp_all add: list_all_iff\<close>)

section \<open>A small service\<close>

definition sample_weknora :: weknora where
  "sample_weknora =
     \<lparr> wk_base_url = ''https://w'', wk_api_token = ''t'',
       wk_contract = [(''memory_list'', JDict [(''path'', JStr ''/memory'')])],
       wk_knowledge_base_id = ''kb'', wk_memory_identity = ''hermes'', wk_tenant_id = [],
       wk_auth_header_name = ''Authorization'', wk_auth_scheme = ''Bearer'' \<rparr>"

definition sample_memories :: "jdict list" where
  "sample_memories = [[(''id'', JStr ''m1'')], [(''id'', JStr ''m2'')]]"

definition sample_page :: json where
  "sample_page = JDict [(''data'', JDict [(''items'', JList (map JDict sample_memories))]), (''total'', JInt 2)]"

lemma sample_listing:
  "memory_list_page (\<lambda>r w. (Reply ''page'', w)) (\<lambda>_. Some sample_page) sample_weknora limit offset w =
     (Inr (sample_memories, Some 2), w)"
proof -
  let ?entry = "[(''path'', JStr ''/memory'')]"
  have "wk_operation sample_weknora ''memory_list'' = Some ?entry" by code_simp
  moreover have "method_of ?entry = ''GET''" "template_of ?entry ''body'' = None"
      "template_of ?entry ''query_params'' = None" by code_simp+
  moreover have "render_path ''/memory'' 0 (semantic_of sample_weknora [(''identity'', JStr ''hermes'')]) = Inr ''/memory''"
    by code_simp
  ultimately have "\<exists>r. wk_request_of sample_weknora ''memory_list'' (Some [(''identity'', JStr ''hermes'')])
      [(''limit'', JInt limit), (''offset'', JInt offset)] = Inr r"
    by (simp add: wk_request_of_def query_of_def body_of_def) (simp add: sample_weknora_def)
  moreover have "memory_semantics sample_weknora [] = Inr [(''identity'', JStr ''hermes'')]" by code_simp
  moreover have "reply_payload (\<lambda>_. Some sample_page) ''memory_list'' (Reply ''page'') = Inr (jdict sample_page)" by code_simp
  moreover have "memory_page_items sample_weknora (jdict sample_page) = Inr sample_memories"
      "jint (wk_extract (JDict (jdict sample_page)) (wk_field sample_weknora ''total_key'' ''total'')) = Some 2"
    by code_simp+
  ultimately show ?thesis
    by (auto simp: memory_list_page_def memory_request_def wk_send_def wlift_def wbind_def)
qed

theorem memory_listing_complete_witness:
  "distinct sample_memories \<and> set sample_memories = set (rev sample_memories)"
proof (rule memory_listing_complete)
  let ?page = "memory_list_page (\<lambda>r (w :: unit). (Reply ''page'', w)) (\<lambda>_. Some sample_page) sample_weknora"
  show "counts_items ?page (rev sample_memories)"
    by (auto simp: counts_items_def sample_listing) (simp add: sample_memories_def)
  show "distinct (map (memory_item_id sample_weknora) (rev sample_memories))"
      "list_all (\<lambda>i. memory_item_id sample_weknora i \<noteq> []) (rev sample_memories)"
    by code_simp+
  show "memory_list_all (\<lambda>r w. (Reply ''page'', w)) (\<lambda>_. Some sample_page) sample_weknora None () =
      (Inr sample_memories, ())"
    by code_simp
qed

end
