(* ===== verification/Knowledge_Retrieval.thy ===== *)
theory Knowledge_Retrieval
  imports Weknora_Client
begin

text \<open>
  The evidence an investigation works with (\<open>services/weknora_knowledge_retrieval.py\<close>). WeKnora is
  asked first, and only objects that are parsed and enabled may become evidence; AgentMemory is
  asked only when WeKnora is unavailable; when both are, the verdict says so and carries nothing.

  The two clients are arguments, as in the code: \<open>search\<close> and \<open>read\<close> of WeKnora, and the search of
  AgentMemory, which is not configured (\<open>None\<close>) or gives the decoded answer, or \<open>None\<close> for any
  exception it raises.
\<close>

type_synonym 'w search = "string \<Rightarrow> int \<Rightarrow> ('w, jdict list) wk"
type_synonym 'w reader = "string \<Rightarrow> ('w, jdict) wk"
type_synonym 'w memory_search = "string \<Rightarrow> int \<Rightarrow> 'w \<Rightarrow> json option \<times> 'w"

record retrieval =
  rt_source :: string
  rt_results :: "jdict list"
  rt_fallback_reason :: "string option"

definition escalated :: "string \<Rightarrow> retrieval" where
  "escalated reason = \<lparr> rt_source = ''escalate_human'', rt_results = [], rt_fallback_reason = Some reason \<rparr>"

definition weknora_unavailable :: "wk_error \<Rightarrow> bool" where
  "weknora_unavailable e \<longleftrightarrow>
     (if we_failure_kind e = ''http'' then server_failure e
      else we_failure_kind e \<in> set [''timeout'', ''transport'', ''auth'', ''http''])"

section \<open>The entry of an object\<close>

definition lineage_from_read :: "jdict \<Rightarrow> jdict" where
  "lineage_from_read rd =
     (let payload = jdict (jget rd ''payload''); data = jdict (jget payload ''data'');
          metadata = jdict (jget data ''metadata''); lineage = jdict (jget metadata ''lineage'')
      in map (\<lambda>(k, v). (k, JStr (py_str v))) (filter (\<lambda>(k, v). jstrip v \<noteq> []) lineage))"

definition weknora_evidence_entry :: "jdict \<Rightarrow> jdict" where
  "weknora_evidence_entry rd =
     (let lineage = lineage_from_read rd; content = jstrip (jget rd ''content'')
      in [(''retrieval_source'', JStr ''weknora''), (''weknora_object_id'', JStr (jstr (jget rd ''object_id''))),
          (''content_version'', JStr (jstr (jget rd ''version''))),
          (''content_hash'', jget_or lineage ''content_hash'' (JStr [])),
          (''source_type'', jget_or lineage ''source_type'' (JStr [])),
          (''source_id'', jget_or lineage ''source_id'' (JStr [])),
          (''title'', JStr (jstr (jget rd ''title''))), (''evidence'', JStr (take 2000 content))])"

definition memory_evidence_entry :: "jdict \<Rightarrow> jdict" where
  "memory_evidence_entry hit =
     [(''retrieval_source'', JStr ''agent_memory_fallback''), (''title'', JStr (jstr (jget hit ''title''))),
      (''evidence'', JStr (take 2000 (jstr (jor (jget hit ''excerpt'') (jget hit ''content''))))),
      (''source_type'', JStr ''agent_memory_wiki''),
      (''source_id'', JStr (jstr (jor (jget hit ''wiki_id'') (jget hit ''page_id''))))]"

section \<open>Retrieval\<close>

text \<open>An object may be evidence when it is ready and has content.\<close>

definition usable :: "jdict \<Rightarrow> bool" where
  "usable rd \<longleftrightarrow> weknora_readback_is_ready rd \<and> jstrip (jget rd ''content'') \<noteq> []"

text \<open>Reading the hits back, one by one. An error that leaves WeKnora unverifiable ends the loop.\<close>

fun read_hits :: "'w reader \<Rightarrow> jdict list \<Rightarrow> jdict list \<Rightarrow> ('w, jdict list) wk" where
  "read_hits read [] results w = (Inr results, w)"
| "read_hits read (hit # hits) results w =
     (let object_id = jstrip (jget hit ''object_id'')
      in if object_id = [] then read_hits read hits results w
         else case read object_id w of
           (Inl e, w') \<Rightarrow>
             if weknora_unavailable e \<or> we_failure_kind e = ''invalid_response'' then (Inl e, w')
             else read_hits read hits results w'
         | (Inr rd, w') \<Rightarrow>
             read_hits read hits (if usable rd then results @ [weknora_evidence_entry rd] else results) w')"

definition weknora_results :: "'w search \<Rightarrow> 'w reader \<Rightarrow> string \<Rightarrow> int \<Rightarrow> ('w, jdict list) wk" where
  "weknora_results search read query top_k =
     wbind (search query top_k) (\<lambda>hits. read_hits read (py_take top_k hits) [])"

definition fallback :: "'w memory_search option \<Rightarrow> string \<Rightarrow> int \<Rightarrow> wk_error \<Rightarrow> 'w \<Rightarrow> retrieval \<times> 'w" where
  "fallback memory query top_k e w =
     (let outage = ''weknora_unavailable: '' @ we_failure_kind e
      in case memory of
           None \<Rightarrow> (escalated (outage @ ''; no fallback configured''), w)
         | Some search_knowledge \<Rightarrow>
             (case search_knowledge query top_k w of
                (None, w') \<Rightarrow> (escalated (outage @ ''; agent_memory_unavailable''), w')
              | (Some am, w') \<Rightarrow>
                  (case jget (jdict am) ''hits'' of
                     JList hits \<Rightarrow>
                       (\<lparr> rt_source = ''agent_memory_fallback'',
                          rt_results = map (\<lambda>hit. memory_evidence_entry (jdict hit)) (filter is_jdict (py_take top_k hits)),
                          rt_fallback_reason = Some outage \<rparr>, w')
                   | _ \<Rightarrow> (escalated ''agent_memory malformed response'', w'))))"

definition retrieve_knowledge_evidence ::
    "'w search \<Rightarrow> 'w reader \<Rightarrow> 'w memory_search option \<Rightarrow> int \<Rightarrow> string \<Rightarrow> ('w, retrieval) wk" where
  "retrieve_knowledge_evidence search read memory top_k query w =
     (let normalized_query = strip query
      in if normalized_query = [] then (Inr (escalated ''empty query''), w)
         else case weknora_results search read normalized_query top_k w of
           (Inr results, w') \<Rightarrow>
             (Inr \<lparr> rt_source = ''weknora'', rt_results = results, rt_fallback_reason = None \<rparr>, w')
         | (Inl e, w') \<Rightarrow>
             if \<not> weknora_unavailable e \<and> we_failure_kind e \<noteq> ''invalid_response'' then (Inl e, w')
             else let (r, w'') = fallback memory normalized_query top_k e w' in (Inr r, w''))"

section \<open>Where evidence comes from\<close>

text \<open>An entry made of what some read returned for an object that may be evidence.\<close>

definition read_back :: "'w reader \<Rightarrow> jdict \<Rightarrow> bool" where
  "read_back read e \<longleftrightarrow>
     (\<exists>object_id w rd. fst (read object_id w) = Inr rd \<and> usable rd \<and> e = weknora_evidence_entry rd)"

lemma read_hits_back:
  "read_hits read hits results w = (Inr results', w') \<Longrightarrow> list_all (read_back read) results \<Longrightarrow>
     list_all (read_back read) results' \<and> length results' \<le> length results + length hits"
proof (induction read hits results w rule: read_hits.induct)
  case (2 read hit hits results w)
  show ?case
  proof (cases "jstrip (jget hit ''object_id'') = []")
    case True
    with 2(1) [OF refl True] "2.prems" show ?thesis by (simp add: Let_def)
  next
    case False
    obtain r w1 where read: "read (jstrip (jget hit ''object_id'')) w = (r, w1)" by (meson surj_pair)
    show ?thesis
    proof (cases r)
      case (Inl e)
      with 2(2) [OF refl False read [symmetric] Inl] "2.prems" False read show ?thesis
        by (auto split: if_splits)
    next
      case (Inr rd)
      have "read_back read (weknora_evidence_entry rd)" if "usable rd"
        unfolding read_back_def using read Inr that by (metis fst_conv)
      with 2(3) [OF refl False read [symmetric] Inr] "2.prems" False read Inr show ?thesis
        by (auto split: if_splits)
    qed
  qed
qed simp

lemma length_py_take: "length (py_take n xs) \<le> length xs"
  by (simp add: py_take_def)


text \<open>A service that knows one object, which is ready.\<close>

definition known_read :: jdict where
  "known_read = [(''object_id'', JStr ''o1''), (''version'', JStr ''2''), (''title'', JStr ''T''), (''content'', JStr ''text''),
     (''parse_status'', JStr ''completed''), (''enable_status'', JStr ''enabled'')]"

definition known_search :: "unit search" where
  "known_search query top_k = wlift (Inr [[(''object_id'', JStr ''o1'')], [(''object_id'', JStr ''o2'')]])"

definition known_reader :: "unit reader" where
  "known_reader object_id =
     wlift (if object_id = ''o1'' then Inr known_read else Inl (plain_error ''absent'' ''not_found''))"

definition known_evidence :: retrieval where
  "known_evidence = \<lparr> rt_source = ''weknora'', rt_results = [weknora_evidence_entry known_read], rt_fallback_reason = None \<rparr>"


end
