(* ===== verification/Plan_Execution.thy ===== *)
theory Plan_Execution
  imports Execution_Plan Knowledge_Retrieval
begin

text \<open>
  Running the plan of an investigation (\<open>services/engineer_execute_agent.py\<close>): the runner of each
  skill, the evidence packet, and the execution, which validates and schedules the plan, runs its
  tasks stage by stage and reports one result per task.

  Everything here is deterministic. The only call that leaves the program is the knowledge search,
  so an execution passes the state \<open>'w\<close> of the outside world along; the clients are arguments.
\<close>

section \<open>Results\<close>

record task_result =
  tr_task_id :: string
  tr_skill :: string
  tr_subagent :: string
  tr_status :: string
  tr_summary :: string
  tr_evidence_refs :: "jdict list"
  tr_missing_information :: "string list"
  tr_started_at :: string
  tr_completed_at :: string

text \<open>\<open>_clean_text\<close> of a string, and the texts of a list that are not empty.\<close>

abbreviation text_of :: "string \<Rightarrow> string" where
  "text_of s \<equiv> task_text (JStr s)"

definition clean_texts :: "string list \<Rightarrow> string list" where
  "clean_texts xs = filter (\<lambda>x. x \<noteq> []) (map text_of xs)"

definition make_result ::
    "string \<Rightarrow> string \<Rightarrow> string \<Rightarrow> string \<Rightarrow> jdict list \<Rightarrow> string list \<Rightarrow> string \<Rightarrow> task_result" where
  "make_result task_id skill status summary evidence_refs missing_information now =
     \<lparr> tr_task_id = task_id, tr_skill = skill, tr_subagent = ''execute_agent_subagent_'' @ skill,
       tr_status = status, tr_summary = summary, tr_evidence_refs = evidence_refs,
       tr_missing_information = clean_texts missing_information,
       tr_started_at = now, tr_completed_at = now \<rparr>"

definition task_id_of :: "jdict \<Rightarrow> string" where
  "task_id_of task = task_text (jget task ''task_id'')"

definition make_dependency_blocked_result ::
    "jdict \<Rightarrow> string \<Rightarrow> string list \<Rightarrow> string \<Rightarrow> task_result" where
  "make_dependency_blocked_result task summary missing_information now =
     make_result (task_id_of task) (or_else (task_text (jget task ''skill'')) ''unknown'') ''blocked'' summary []
       (if missing_information = [] then [summary] else missing_information) now"

section \<open>Identifiers\<close>

text \<open>\<open>str.isalnum\<close> on the code points below 256.\<close>

definition alnum :: "char \<Rightarrow> bool" where
  "alnum c \<longleftrightarrow>
     (let n = (of_char c :: nat)
      in (48 \<le> n \<and> n \<le> 57) \<or> (65 \<le> n \<and> n \<le> 90) \<or> (97 \<le> n \<and> n \<le> 122) \<or>
         n \<in> set [170, 178, 179, 181, 185, 186, 188, 189, 190] \<or> (192 \<le> n \<and> n \<noteq> 215 \<and> n \<noteq> 247))"

definition strip_char :: "char \<Rightarrow> string \<Rightarrow> string" where
  "strip_char x s = rev (dropWhile (\<lambda>c. c = x) (rev (dropWhile (\<lambda>c. c = x) s)))"

definition stable_id :: "string \<Rightarrow> string \<Rightarrow> string" where
  "stable_id prefix value =
     (let raw = map (\<lambda>c. if c = CHR '' '' then CHR ''_'' else c) (lower (text_of value));
          safe = strip_char CHR ''_'' (filter (\<lambda>c. alnum c \<or> c = CHR ''_'') raw)
      in prefix @ ''_'' @ or_else safe ''unknown'')"

section \<open>The runners\<close>

text \<open>\<open>intake.get("known_information", {}).items()\<close>.\<close>

definition known_information :: "jdict \<Rightarrow> py_error + jdict" where
  "known_information summary_packet =
     (case jget summary_packet ''client_intake_state'' of
        JDict intake \<Rightarrow>
          (case dget intake ''known_information'' of
             None \<Rightarrow> Inr []
           | Some (JDict d) \<Rightarrow> Inr d
           | Some v \<Rightarrow> Inl (no_attribute v ''items''))
      | _ \<Rightarrow> Inr [])"

definition labelled :: "string \<Rightarrow> string \<Rightarrow> string list" where
  "labelled label value = (if value = [] then [] else [label @ value])"

definition run_context_review_subagent :: "jdict \<Rightarrow> jdict \<Rightarrow> string \<Rightarrow> py_error + task_result" where
  "run_context_review_subagent task sp now =
     (let customer_context = jdict (jget sp ''customer_context''); escalation = jdict (jget sp ''escalation'');
          latest_message = task_text (jor (jget customer_context ''latest_customer_message'') (jget sp ''latest_customer_message''));
          conversation_summary = task_text (jor (jget customer_context ''conversation_summary'') (jget sp ''conversation_summary''));
          escalation_reason = task_text (jor (jget escalation ''reason'') (jget sp ''unresolved_reason''));
          product = task_text (jget sp ''product'')
      in map_sum id (\<lambda>known_info.
           let intake_facts = map (\<lambda>(k, v). k @ '': '' @ py_str v) (filter (\<lambda>(k, v). task_text v \<noteq> []) known_info);
               facts = labelled ''Latest customer message: '' latest_message @
                 labelled ''Conversation summary: '' conversation_summary @
                 labelled ''Escalation reason: '' escalation_reason @ labelled ''Product: '' product @
                 labelled ''Known from intake: '' (intersperse ''; '' intake_facts);
               evidence_refs =
                 (if latest_message = [] then []
                  else [[(''kind'', JStr ''customer_message''), (''text'', JStr (take 200 latest_message))]]) @
                 (if escalation_reason = [] then []
                  else [[(''kind'', JStr ''escalation_reason''), (''value'', JStr escalation_reason)]])
           in make_result (task_id_of task) ''context_review'' ''succeeded''
                (if facts = [] then ''No customer context available.'' else intersperse '' '' facts) evidence_refs [] now)
         (known_information sp))"

text \<open>What one retrieved entry adds: a reference and a line of the summary.\<close>

definition knowledge_ref :: "jdict \<Rightarrow> jdict" where
  "knowledge_ref entry =
     [(''kind'', JStr (''knowledge_'' @ py_str (jget entry ''retrieval_source''))),
      (''summary'', JStr (task_text (jget entry ''evidence'')))] @
     concat (map (\<lambda>key. let value = task_text (jget entry key) in if value = [] then [] else [(key, JStr value)])
       [''weknora_object_id'', ''content_version'', ''content_hash'', ''source_type'', ''source_id'', ''title''])"

definition knowledge_line :: "jdict \<Rightarrow> string" where
  "knowledge_line entry =
     ''Knowledge ['' @ py_str (jget entry ''retrieval_source'') @ ''] '' @
     or_else (task_text (jget entry ''title'')) (task_text (jget entry ''weknora_object_id'')) @ '': '' @
     take 400 (task_text (jget entry ''evidence''))"

definition internal_result :: "jdict \<Rightarrow> jdict \<Rightarrow> string \<Rightarrow> retrieval option \<Rightarrow> task_result" where
  "internal_result task sp now found =
     (let task_id = task_id_of task; rag_result = jdict (jget sp ''rag_result'');
          candidate_answer = task_text (jget rag_result ''candidate_answer''); sources = jlist (jget rag_result ''sources'');
          entries = (case found of None \<Rightarrow> [] | Some r \<Rightarrow> rt_results r);
          escalation = (case found of None \<Rightarrow> []
            | Some r \<Rightarrow> if rt_source r = ''escalate_human''
                then [''Knowledge retrieval escalated: '' @ text_of (ostr (rt_fallback_reason r))] else []);
          clues = filter (\<lambda>s. s \<noteq> [])
            (map (\<lambda>clue. task_text (jget (jdict clue) ''summary'')) (jlist (jget sp ''current_clues'')));
          evidence_refs = map knowledge_ref entries @
            map (\<lambda>s. [(''kind'', JStr ''clue''), (''summary'', JStr s)]) clues @
            (if candidate_answer = [] then [] else [[(''kind'', JStr ''rag_candidate''), (''summary'', JStr candidate_answer)]]) @
            (if sources = [] then [] else [[(''kind'', JStr ''rag_sources''), (''count'', JInt (int (length sources)))]]);
          summary_parts = map knowledge_line entries @ map (\<lambda>s. ''Clue: '' @ s) clues @
            labelled ''RAG candidate answer: '' candidate_answer @
            (if sources = [] then [] else [''Sources available: '' @ show_int (int (length sources)) @ '' document(s).''])
      in if escalation \<noteq> [] \<and> summary_parts = []
         then make_result task_id ''internal_knowledge_search'' ''blocked''
                ''Knowledge retrieval is unavailable; human involvement is required.'' evidence_refs escalation now
         else if summary_parts = []
         then make_result task_id ''internal_knowledge_search'' ''blocked'' ''Internal evidence is not available yet.'' []
                [''Internal evidence is not available yet.''] now
         else make_result task_id ''internal_knowledge_search'' ''succeeded'' (intersperse '' '' summary_parts)
                evidence_refs escalation now)"

text \<open>The configured clients: WeKnora, without which nothing is retrieved, and AgentMemory.\<close>

record 'w knowledge_clients =
  kc_weknora :: "('w search \<times> 'w reader) option"
  kc_agent_memory :: "'w memory_search option"

definition run_internal_knowledge_search_subagent ::
    "'w knowledge_clients \<Rightarrow> jdict \<Rightarrow> jdict \<Rightarrow> string \<Rightarrow> ('w, task_result) op" where
  "run_internal_knowledge_search_subagent clients task sp now w =
     (case kc_weknora clients of
        None \<Rightarrow> (Inr (internal_result task sp now None), w)
      | Some (search, read) \<Rightarrow>
          (case retrieve_knowledge_evidence search read (kc_agent_memory clients) 3
                  (or_else (task_text (jget sp ''question'')) (task_id_of task)) w of
             (Inl e, w') \<Rightarrow> (Inl (RuntimeError (we_message e)), w')
           | (Inr r, w') \<Rightarrow> (Inr (internal_result task sp now (Some r)), w')))"

definition citation_ref :: "jdict \<Rightarrow> jdict" where
  "citation_ref citation =
     [(''kind'', JStr ''official_citation'')] @
     concat (map (\<lambda>key. let value = task_text (jget citation key) in if value = [] then [] else [(key, JStr value)])
       [''chunk_id'', ''heading'', ''source_url'', ''title''])"

definition run_official_docs_fallback_subagent :: "jdict \<Rightarrow> jdict \<Rightarrow> string \<Rightarrow> task_result" where
  "run_official_docs_fallback_subagent task sp now =
     (let rag_result = jdict (jget sp ''rag_result'');
          evidence_refs =
            map (\<lambda>source. [(''kind'', JStr ''official_source''), (''url'', JStr (task_text source))])
              (jlist (jget rag_result ''sources'')) @
            map (\<lambda>citation. citation_ref (jdict citation)) (filter is_jdict (jlist (jget rag_result ''citations'')))
      in if evidence_refs = []
         then make_result (task_id_of task) ''official_docs_fallback'' ''blocked''
                ''No official documentation references available.'' []
                [''No official documentation references found.''] now
         else make_result (task_id_of task) ''official_docs_fallback'' ''succeeded''
                (''Found '' @ show_int (int (length evidence_refs)) @ '' official documentation reference(s).'')
                evidence_refs [] now)"

definition asks_customer :: "string \<Rightarrow> bool" where
  "asks_customer item \<longleftrightarrow>
     list_ex (\<lambda>kw. occurs_in kw (lower item)) [''sdk'', ''version'', ''platform'', ''os'', ''device'', ''browser'']"

definition run_missing_info_triage_subagent :: "jdict \<Rightarrow> jdict \<Rightarrow> string \<Rightarrow> task_result" where
  "run_missing_info_triage_subagent task sp now =
     (let missing = jlist (jget sp ''missing_information'')
      in if missing = []
         then make_result (task_id_of task) ''missing_info_triage'' ''succeeded'' ''No missing information to triage.'' [] [] now
         else let missing_texts = filter (\<lambda>x. x \<noteq> []) (map task_text missing);
                  customer_blockers = filter asks_customer missing_texts;
                  info_blockers = filter (\<lambda>item. item \<notin> set customer_blockers) missing_texts;
                  parts =
                    (if customer_blockers = [] then []
                     else [''Requires customer input: '' @ intersperse ''; '' customer_blockers @ ''.'']) @
                    (if info_blockers = [] then []
                     else [''Missing from available evidence: '' @ intersperse ''; '' info_blockers @ ''.''])
              in make_result (task_id_of task) ''missing_info_triage''
                   (if missing_texts = [] then ''succeeded'' else ''blocked'')
                   (if parts = [] then ''All information is available.'' else intersperse '' '' parts)
                   [[(''kind'', JStr ''missing_information''), (''items'', JList (map JStr missing_texts))]]
                   missing_texts now)"

text \<open>The first occurrence of every item.\<close>

definition unique_items :: "string list \<Rightarrow> string list" where
  "unique_items xs = fold (\<lambda>x seen. if x \<in> set seen then seen else seen @ [x]) xs []"

definition unsuccessful :: "string list" where
  "unsuccessful = [''blocked'', ''failed'', ''skipped'']"

definition run_synthesis_subagent :: "jdict \<Rightarrow> task_result list \<Rightarrow> string \<Rightarrow> task_result" where
  "run_synthesis_subagent task previous_results now =
     (if previous_results = []
      then make_result (task_id_of task) ''synthesis'' ''blocked'' ''No previous task results to synthesize.'' []
             [''No prior task results available for synthesis.''] now
      else let statuses = map (\<lambda>r. text_of (tr_status r)) previous_results;
               summaries = clean_texts (map tr_summary previous_results);
               all_missing = clean_texts (concat (map tr_missing_information previous_results));
               blocked_count = length (filter (\<lambda>s. s \<in> set unsuccessful) statuses);
               succeeded_count = length (filter (\<lambda>s. s = ''succeeded'') statuses);
               synthesis_status =
                 (if 0 < blocked_count \<and> 0 < succeeded_count then ''succeeded_with_blockers''
                  else if 0 < blocked_count then ''blocked'' else ''succeeded'');
               combined_summary = ''Synthesized from '' @ show_int (int succeeded_count) @ '' succeeded and '' @
                 show_int (int blocked_count) @ '' blocked/failed prior tasks. '' @ intersperse '' '' summaries
           in make_result (task_id_of task) ''synthesis'' synthesis_status (take 2000 combined_summary)
                (concat (map tr_evidence_refs previous_results)) (unique_items all_missing) now)"

definition execute_agent_allowlist :: "string list" where
  "execute_agent_allowlist =
     [''context_review'', ''internal_knowledge_search'', ''official_docs_fallback'', ''missing_info_triage'', ''synthesis'']"

definition skipped_result :: "string \<Rightarrow> string \<Rightarrow> string \<Rightarrow> string \<Rightarrow> task_result" where
  "skipped_result task_id shown skill now =
     make_result task_id shown ''skipped''
       (''Skill '' @ [CHR 0x27] @ skill @ [CHR 0x27] @ '' is not in the execute agent allowlist.'') []
       [''Skill '' @ [CHR 0x27] @ skill @ [CHR 0x27] @ '' is not supported.''] now"

text \<open>The dispatch. Every skill of the allowlist has a runner.\<close>

definition run_allowlisted_subagent ::
    "'w knowledge_clients \<Rightarrow> jdict \<Rightarrow> jdict \<Rightarrow> task_result list \<Rightarrow> string \<Rightarrow> ('w, task_result) op" where
  "run_allowlisted_subagent clients task sp previous_results now w =
     (let skill = task_text (jget task ''skill'')
      in if skill \<notin> set execute_agent_allowlist
         then (Inr (skipped_result (task_id_of task) (or_else skill ''unknown'') skill now), w)
         else if skill = ''synthesis'' then (Inr (run_synthesis_subagent task previous_results now), w)
         else if skill = ''internal_knowledge_search'' then run_internal_knowledge_search_subagent clients task sp now w
         else if skill = ''context_review'' then (run_context_review_subagent task sp now, w)
         else if skill = ''official_docs_fallback'' then (Inr (run_official_docs_fallback_subagent task sp now), w)
         else (Inr (run_missing_info_triage_subagent task sp now), w))"

section \<open>The evidence packet\<close>

record evidence_packet =
  ep_packet_id :: string
  ep_packet_version :: string
  ep_source_execution_id :: string
  ep_customer_safe_summary :: string
  ep_internal_summary :: string
  ep_evidence_refs :: "jdict list"
  ep_missing_information :: "string list"
  ep_redaction_boundary :: jdict
  ep_do_not_expose_to_customer :: "json list"

text \<open>Whether a summary is free of every phrase; \<open>phrase.lower()\<close> needs a string.\<close>

fun safe_summary :: "string \<Rightarrow> json list \<Rightarrow> py_error + bool" where
  "safe_summary summary [] = Inr True"
| "safe_summary summary (JStr phrase # phrases) =
     (if occurs_in (lower phrase) (lower summary) then Inr False else safe_summary summary phrases)"
| "safe_summary summary (x # phrases) = Inl (no_attribute x ''lower'')"

text \<open>The summaries a customer may see: of the official documentation, and safe.\<close>

fun customer_parts :: "json list \<Rightarrow> task_result list \<Rightarrow> py_error + string list" where
  "customer_parts do_not_expose [] = Inr []"
| "customer_parts do_not_expose (r # results) =
     (let summary = text_of (tr_summary r)
      in if text_of (tr_status r) = ''succeeded'' \<and> text_of (tr_skill r) = ''official_docs_fallback''
         then sbind (safe_summary summary do_not_expose) (\<lambda>safe.
              map_sum id (\<lambda>parts. if safe then summary # parts else parts) (customer_parts do_not_expose results))
         else customer_parts do_not_expose results)"

definition internal_line :: "task_result \<Rightarrow> string" where
  "internal_line r = ''['' @ text_of (tr_status r) @ ''] '' @ text_of (tr_skill r) @ '': '' @ text_of (tr_summary r)"

definition build_evidence_packet :: "string \<Rightarrow> jdict \<Rightarrow> task_result list \<Rightarrow> py_error + evidence_packet" where
  "build_evidence_packet execution_id plan task_results =
     (let redaction_boundary = jdict (jget plan ''redaction_boundary'');
          do_not_expose = jlist (jget redaction_boundary ''do_not_expose_to_customer'')
      in map_sum id (\<lambda>parts.
           \<lparr> ep_packet_id = stable_id ''evidence'' execution_id, ep_packet_version = ''engineer-evidence-packet-v1'',
             ep_source_execution_id = execution_id,
             ep_customer_safe_summary =
               (if parts = [] then ''Investigation completed. See internal summary for details.'' else intersperse '' '' parts),
             ep_internal_summary =
               (if task_results = [] then ''No task results available.'' else intersperse '' '' (map internal_line task_results)),
             ep_evidence_refs = concat (map tr_evidence_refs task_results),
             ep_missing_information = unique_items (clean_texts (concat (map tr_missing_information task_results))),
             ep_redaction_boundary = redaction_boundary, ep_do_not_expose_to_customer = do_not_expose \<rparr>)
         (customer_parts do_not_expose task_results))"

section \<open>The execution\<close>

record blocker =
  bl_blocker_id :: string
  bl_type :: string
  bl_description :: string
  bl_source_task_id :: string

record execution =
  ex_execution_id :: string
  ex_execution_version :: string
  ex_execute_agent_version :: string
  ex_created_by :: string
  ex_created_at :: string
  ex_plan_id :: string
  ex_plan_version :: string
  ex_status :: string
  ex_scheduler :: schedule
  ex_task_results :: "task_result list"
  ex_evidence_packet :: evidence_packet
  ex_blockers :: "blocker list"

definition new_blocker :: "string \<Rightarrow> string \<Rightarrow> string \<Rightarrow> string \<Rightarrow> string \<Rightarrow> blocker" where
  "new_blocker execution_id tid reason type description =
     \<lparr> bl_blocker_id = stable_id ''blocker'' (execution_id @ ''_'' @ tid @ ''_'' @ reason), bl_type = type,
       bl_description = description, bl_source_task_id = tid \<rparr>"

definition invalid_summary :: "string \<Rightarrow> string list \<Rightarrow> string" where
  "invalid_summary tid warnings =
     ''Task '' @ tid @ '' is blocked by validation failure: '' @ intersperse ''; '' warnings"

definition invalid_blockers :: "string \<Rightarrow> string list \<Rightarrow> string list \<Rightarrow> blocker list" where
  "invalid_blockers execution_id blocked warnings =
     map (\<lambda>tid. new_blocker execution_id tid ''invalid'' ''dependency_blocked'' (invalid_summary tid warnings)) blocked"

text \<open>What a loop over the tasks has so far: the results, by task too, and the blockers.\<close>

record progress =
  pg_results :: "task_result list"
  pg_by_id :: "(string, task_result) dict"
  pg_blockers :: "blocker list"

definition add_result :: "string \<Rightarrow> task_result \<Rightarrow> blocker list \<Rightarrow> progress \<Rightarrow> progress" where
  "add_result tid r new_blockers p =
     \<lparr> pg_results = pg_results p @ [r], pg_by_id = dset tid r (pg_by_id p),
       pg_blockers = pg_blockers p @ new_blockers \<rparr>"

text \<open>\<open>[results_by_id[dep] for dep in depends_on if dep in results_by_id]\<close>, of the stored values.\<close>

fun previous_results :: "json list \<Rightarrow> (string, task_result) dict \<Rightarrow> py_error + task_result list" where
  "previous_results [] by_id = Inr []"
| "previous_results (JStr dep # deps) by_id =
     map_sum id (\<lambda>rs. (case dget by_id dep of None \<Rightarrow> rs | Some r \<Rightarrow> r # rs)) (previous_results deps by_id)"
| "previous_results (JList xs # deps) by_id = Inl (TypeError (''unhashable type: '' @ [CHR 0x27] @ ''list'' @ [CHR 0x27]))"
| "previous_results (JDict d # deps) by_id = Inl (TypeError (''unhashable type: '' @ [CHR 0x27] @ ''dict'' @ [CHR 0x27]))"
| "previous_results (x # deps) by_id = previous_results deps by_id"

definition result_blockers :: "string \<Rightarrow> string \<Rightarrow> task_result \<Rightarrow> blocker list" where
  "result_blockers execution_id tid r =
     (if tr_status r \<in> set [''blocked'', ''skipped'', ''failed'']
      then [new_blocker execution_id tid (tr_status r)
              (if tr_status r = ''blocked'' then ''dependency_blocked'' else ''disallowed_skill'') (tr_summary r)]
      else [])"

text \<open>What an execution keeps fixed while it runs.\<close>

record 'w setting =
  se_clients :: "'w knowledge_clients"
  se_summary_packet :: jdict
  se_now :: string
  se_execution_id :: string
  se_tasks :: tasks
  se_blocked :: "string list"
  se_warnings :: "string list"

definition run_task :: "'w setting \<Rightarrow> string \<Rightarrow> progress \<Rightarrow> ('w, progress) op" where
  "run_task s tid p w =
     (case dget (se_tasks s) tid of
        None \<Rightarrow>
          (Inr (p\<lparr> pg_blockers := pg_blockers p @ [new_blocker (se_execution_id s) tid ''missing'' ''dependency_blocked''
                     (''Task '' @ tid @ '' referenced in execution_order but not found in plan tasks.'')] \<rparr>), w)
      | Some task \<Rightarrow>
          (let skill = task_text (jget task ''skill'')
           in if tid \<in> set (se_blocked s)
              then (Inr (add_result tid (make_dependency_blocked_result task (invalid_summary tid (se_warnings s))
                           (se_warnings s) (se_now s)) [] p), w)
              else if skill \<noteq> [] \<and> skill \<notin> set execute_agent_allowlist
              then (Inr (add_result tid (skipped_result tid skill skill (se_now s))
                     [new_blocker (se_execution_id s) tid ''disallowed'' ''disallowed_skill''
                        (''Skill '' @ [CHR 0x27] @ skill @ [CHR 0x27] @ '' is not in the execute agent allowlist.'')] p), w)
              else case previous_results (jlist (jget task ''depends_on'')) (pg_by_id p) of
                     Inl e \<Rightarrow> (Inl e, w)
                   | Inr previous \<Rightarrow>
                       (case run_allowlisted_subagent (se_clients s) task (se_summary_packet s) previous (se_now s) w of
                          (Inl e, w') \<Rightarrow> (Inl e, w')
                        | (Inr r, w') \<Rightarrow> (Inr (add_result tid r (result_blockers (se_execution_id s) tid r) p), w'))))"

fun run_tasks :: "'w setting \<Rightarrow> string list \<Rightarrow> progress \<Rightarrow> ('w, progress) op" where
  "run_tasks s [] p w = (Inr p, w)"
| "run_tasks s (tid # tids) p w =
     (case run_task s tid p w of (Inl e, w') \<Rightarrow> (Inl e, w') | (Inr p', w') \<Rightarrow> run_tasks s tids p' w')"

definition overall_status :: "task_result list \<Rightarrow> string" where
  "overall_status results =
     (let statuses = map (\<lambda>r. text_of (tr_status r)) results
      in if results = [] then ''blocked''
         else if ''blocked'' \<in> set statuses \<and> ''succeeded'' \<in> set statuses then ''partial''
         else if ''blocked'' \<in> set statuses \<or> ''failed'' \<in> set statuses then ''blocked''
         else if ''skipped'' \<in> set statuses then ''partial'' else ''completed'')"

definition execution_of ::
    "jdict \<Rightarrow> string \<Rightarrow> string \<Rightarrow> string \<Rightarrow> schedule \<Rightarrow> task_result list \<Rightarrow> blocker list \<Rightarrow> py_error + execution" where
  "execution_of plan execution_id now status scheduler results blockers =
     map_sum id (\<lambda>packet.
       \<lparr> ex_execution_id = execution_id, ex_execution_version = ''engineer-execution-v1'',
         ex_execute_agent_version = ''engineer-execute-agent-v1'', ex_created_by = ''execute_agent'', ex_created_at = now,
         ex_plan_id = task_text (jget plan ''plan_id''), ex_plan_version = task_text (jget plan ''plan_version''),
         ex_status = status, ex_scheduler = scheduler, ex_task_results = results, ex_evidence_packet = packet,
         ex_blockers = blockers \<rparr>) (build_evidence_packet execution_id plan results)"

definition cycle_results :: "jdict \<Rightarrow> string list \<Rightarrow> string \<Rightarrow> task_result list" where
  "cycle_results plan warnings now =
     map (\<lambda>task. make_dependency_blocked_result task (invalid_summary (task_id_of task) warnings) warnings now)
       (filter (\<lambda>task. task_id_of task \<noteq> []) (map jdict (filter is_jdict (plan_tasks plan))))"

definition execution_id_of :: "jdict \<Rightarrow> jdict \<Rightarrow> string" where
  "execution_id_of plan sp =
     ''exec_'' @ or_else (or_else (task_text (jget plan ''plan_id'')) (task_text (jget sp ''packet_id''))) ''unknown'' @ ''_r1''"

definition execute_valid ::
    "'w knowledge_clients \<Rightarrow> jdict \<Rightarrow> jdict \<Rightarrow> string \<Rightarrow> string list \<Rightarrow> string list \<Rightarrow> schedule \<Rightarrow> ('w, execution) op" where
  "execute_valid clients plan sp now blocked warnings scheduler w =
     (let execution_id = execution_id_of plan sp;
          s = \<lparr> se_clients = clients, se_summary_packet = sp, se_now = now, se_execution_id = execution_id,
                se_tasks = task_map (plan_tasks plan), se_blocked = blocked, se_warnings = warnings \<rparr>
      in case run_tasks s (concat (map st_task_ids (sc_execution_order scheduler)))
                \<lparr> pg_results = [], pg_by_id = [], pg_blockers = invalid_blockers execution_id blocked warnings \<rparr> w of
           (Inl e, w') \<Rightarrow> (Inl e, w')
         | (Inr p, w') \<Rightarrow>
             (execution_of plan execution_id now (overall_status (pg_results p)) scheduler (pg_results p) (pg_blockers p), w'))"

definition execute_engineer_plan ::
    "'w knowledge_clients \<Rightarrow> jdict \<Rightarrow> jdict \<Rightarrow> string \<Rightarrow> 'w \<Rightarrow> ((py_error + execution) \<times> 'w) option" where
  "execute_engineer_plan clients active_plan summary_packet now w =
     Option.bind (validate_execute_plan active_plan) (\<lambda>v. case v of
       Inl e \<Rightarrow> Some (Inl e, w)
     | Inr (is_valid, blocked, warnings) \<Rightarrow>
         if \<not> is_valid \<and> list_ex (\<lambda>warning. occurs_in ''cycle'' (lower warning)) warnings
         then Some (execution_of active_plan (execution_id_of active_plan summary_packet) now ''blocked'' empty_schedule
                     (cycle_results active_plan warnings now)
                     (invalid_blockers (execution_id_of active_plan summary_packet) blocked warnings), w)
         else map_option (\<lambda>scheduler. execute_valid clients active_plan summary_packet now blocked warnings scheduler w)
                (build_execution_schedule active_plan))"

section \<open>Every task is reported\<close>

lemma make_result_simps [simp]:
  "tr_task_id (make_result tid skill st summary refs missing now) = tid"
  "tr_status (make_result tid skill st summary refs missing now) = st"
  by (simp_all add: make_result_def)

lemma blocked_result_simps [simp]:
  "tr_task_id (make_dependency_blocked_result task summary missing now) = task_id_of task"
  "tr_status (make_dependency_blocked_result task summary missing now) = ''blocked''"
  "tr_task_id (skipped_result tid shown skill now) = tid"
  "tr_status (skipped_result tid shown skill now) = ''skipped''"
  by (simp_all add: make_dependency_blocked_result_def skipped_result_def)

definition statuses :: "string list" where
  "statuses = [''succeeded'', ''succeeded_with_blockers'', ''blocked'', ''skipped'']"

text \<open>A result of the task, with one of the statuses the runners use.\<close>

definition reports :: "string \<Rightarrow> task_result \<Rightarrow> bool" where
  "reports tid r \<longleftrightarrow> tr_task_id r = tid \<and> tr_status r \<in> set statuses"

lemma reports_simps [simp]:
  "reports tid (make_result tid skill st summary refs missing now) \<longleftrightarrow> st \<in> set statuses"
  "reports (task_id_of task) (make_dependency_blocked_result task summary missing now)"
  "reports tid (skipped_result tid shown skill now)"
  by (simp_all add: reports_def statuses_def)

lemma runners_report:
  "reports (task_id_of task) (internal_result task sp now found)"
  "reports (task_id_of task) (run_official_docs_fallback_subagent task sp now)"
  "reports (task_id_of task) (run_missing_info_triage_subagent task sp now)"
  "reports (task_id_of task) (run_synthesis_subagent task previous now)"
  "run_context_review_subagent task sp now = Inr r \<Longrightarrow> reports (task_id_of task) r"
  by (auto simp: internal_result_def run_context_review_subagent_def run_official_docs_fallback_subagent_def
      run_missing_info_triage_subagent_def run_synthesis_subagent_def Let_def statuses_def map_sum_Inr)

lemma runner_reports:
  assumes "run_allowlisted_subagent clients task sp previous now w = (Inr r, w')"
  shows "reports (task_id_of task) r"
proof -
  have "reports (task_id_of task) r" if "run_internal_knowledge_search_subagent clients task sp now w = (Inr r, w')"
    using that by (auto simp: run_internal_knowledge_search_subagent_def runners_report
        split: option.splits prod.splits sum.splits)
  with assms runners_report(5) [of task sp now r] show ?thesis
    by (auto simp: run_allowlisted_subagent_def Let_def runners_report split: if_splits)
qed

text \<open>
  The loop: the results are those of the tasks in order, the table has the result of every task
  done, and there is a blocker exactly when a result is not a success (or the plan was invalid).
\<close>

definition successful :: "task_result \<Rightarrow> bool" where
  "successful r \<longleftrightarrow> tr_status r \<notin> set unsuccessful"

definition progress_ok :: "progress \<Rightarrow> bool" where
  "progress_ok p \<longleftrightarrow>
     list_all (\<lambda>r. dget (pg_by_id p) (tr_task_id r) \<noteq> None \<and> tr_status r \<in> set statuses) (pg_results p) \<and>
     (\<forall>d r. dget (pg_by_id p) d = Some r \<longrightarrow> r \<in> set (pg_results p) \<and> tr_task_id r = d)"

lemma add_result_ok: "progress_ok p \<Longrightarrow> reports tid r \<Longrightarrow> progress_ok (add_result tid r bs p)"
  by (auto simp: progress_ok_def add_result_def reports_def list_all_iff dget_dset)

lemma run_task_effect:
  assumes "run_task s tid p w = (Inr p', w')" "dget (se_tasks s) tid = Some task" "task_id_of task = tid"
    and "se_blocked s \<noteq> [] \<Longrightarrow> pg_blockers p \<noteq> []"
  shows "\<exists>r bs. p' = add_result tid r bs p \<and> reports tid r \<and>
    (pg_blockers p @ bs = [] \<longleftrightarrow> pg_blockers p = [] \<and> successful r) \<and>
    (tid \<in> set (se_blocked s) \<longrightarrow> \<not> successful r) \<and>
    (tid \<notin> set (se_blocked s) \<longrightarrow> task_text (jget task ''skill'') = ''synthesis'' \<longrightarrow>
       (\<exists>previous. previous_results (jlist (jget task ''depends_on'')) (pg_by_id p) = Inr previous \<and>
          r = run_synthesis_subagent task previous (se_now s)))"
proof -
  let ?skill = "task_text (jget task ''skill'')"
  consider (blocked) "tid \<in> set (se_blocked s)"
    | (disallowed) "tid \<notin> set (se_blocked s)" "?skill \<noteq> []" "?skill \<notin> set execute_agent_allowlist"
    | (run) "tid \<notin> set (se_blocked s)" "\<not> (?skill \<noteq> [] \<and> ?skill \<notin> set execute_agent_allowlist)" by blast
  then show ?thesis
  proof cases
    case blocked
    then have "se_blocked s \<noteq> []" by auto
    moreover have "\<not> successful (make_dependency_blocked_result task summary missing now)" for summary missing now
      by (simp add: successful_def unsuccessful_def)
    ultimately show ?thesis using assms blocked by (auto simp: run_task_def)
  next
    case disallowed
    then have "?skill \<noteq> ''synthesis''" by (auto simp: execute_agent_allowlist_def)
    obtain b where "p' = add_result tid (skipped_result tid ?skill ?skill (se_now s)) [b] p"
      using assms(1,2) disallowed by (auto simp: run_task_def Let_def)
    moreover have "\<not> successful (skipped_result tid ?skill ?skill (se_now s))"
      by (simp add: successful_def unsuccessful_def)
    ultimately show ?thesis using \<open>?skill \<noteq> ''synthesis''\<close> disallowed(1) by (metis append_is_Nil_conv list.distinct(1) reports_simps(3))
  next
    case run
    obtain previous where previous: "previous_results (jlist (jget task ''depends_on'')) (pg_by_id p) = Inr previous"
      using assms(1,2) run by (auto simp: run_task_def Let_def split: sum.splits)
    obtain r where r: "run_allowlisted_subagent (se_clients s) task (se_summary_packet s) previous (se_now s) w = (Inr r, w')"
      and p': "p' = add_result tid r (result_blockers (se_execution_id s) tid r) p"
      using assms(1,2) run previous by (auto simp: run_task_def Let_def split: sum.splits prod.splits)
    have "reports tid r" using runner_reports [OF r] assms(3) by simp
    moreover have "result_blockers (se_execution_id s) tid r = [] \<longleftrightarrow> successful r"
      by (auto simp: result_blockers_def successful_def unsuccessful_def)
    moreover have "r = run_synthesis_subagent task previous (se_now s)" if "?skill = ''synthesis''"
      using r that by (simp add: run_allowlisted_subagent_def execute_agent_allowlist_def)
    ultimately show ?thesis using p' previous run(1) by auto
  qed
qed

lemma run_tasks_effect:
  assumes "run_tasks s tids p w = (Inr p', w')" "progress_ok p"
    and "\<forall>tid \<in> set tids. \<exists>task. dget (se_tasks s) tid = Some task \<and> task_id_of task = tid"
    and "se_blocked s \<noteq> [] \<Longrightarrow> pg_blockers p \<noteq> []"
  shows "progress_ok p' \<and> (\<exists>rs. pg_results p' = pg_results p @ rs \<and> map tr_task_id rs = tids \<and>
    (pg_blockers p' = [] \<longleftrightarrow> pg_blockers p = [] \<and> list_all successful rs) \<and>
    list_all (\<lambda>r. tr_task_id r \<in> set (se_blocked s) \<longrightarrow> \<not> successful r) rs)"
  using assms
proof (induction s tids p w rule: run_tasks.induct)
  case (2 s tid tids p w)
  obtain p1 w1 where step: "run_task s tid p w = (Inr p1, w1)" and rest: "run_tasks s tids p1 w1 = (Inr p', w')"
    using "2.prems"(1) by (auto split: prod.splits sum.splits)
  obtain task where "dget (se_tasks s) tid = Some task" "task_id_of task = tid" using "2.prems"(3) by auto
  from run_task_effect [OF step this "2.prems"(4)] obtain r bs where
    p1: "p1 = add_result tid r bs p" and r: "reports tid r"
    and bs: "pg_blockers p @ bs = [] \<longleftrightarrow> pg_blockers p = [] \<and> successful r"
    and bad: "tid \<in> set (se_blocked s) \<longrightarrow> \<not> successful r" by blast
  have fields: "pg_results p1 = pg_results p @ [r]" "pg_blockers p1 = pg_blockers p @ bs"
    by (simp_all add: p1 add_result_def)
  have "se_blocked s \<noteq> [] \<Longrightarrow> pg_blockers p1 \<noteq> []" using "2.prems"(4) fields(2) by simp
  from "2.IH" [OF step [symmetric] refl rest add_result_ok [OF "2.prems"(2) r, of bs, folded p1] _ this] "2.prems"(3)
  obtain rs where "progress_ok p'" "pg_results p' = pg_results p1 @ rs" "map tr_task_id rs = tids"
      "pg_blockers p' = [] \<longleftrightarrow> pg_blockers p1 = [] \<and> list_all successful rs"
      "list_all (\<lambda>r. tr_task_id r \<in> set (se_blocked s) \<longrightarrow> \<not> successful r) rs" by auto
  with fields bs bad r show ?case by (intro conjI exI [of _ "r # rs"]) (auto simp: reports_def)
qed simp

lemma scheduled_keys:
  assumes "build_execution_schedule plan = Some sc"
  shows "mset (concat (map st_task_ids (sc_execution_order sc))) = mset (map fst (task_map (plan_tasks plan)))"
    and "set (concat (map st_task_ids (sc_execution_order sc))) = fst ` set (task_map (plan_tasks plan))"
    and "distinct (concat (map st_task_ids (sc_execution_order sc)))"
proof -
  let ?ids = "concat (map st_task_ids (sc_execution_order sc))"
  show m: "mset ?ids = mset (map fst (task_map (plan_tasks plan)))"
    using schedule_exists [of plan] assms by auto
  then show "set ?ids = fst ` set (task_map (plan_tasks plan))" by (metis set_map set_mset_mset)
  show "distinct ?ids" using m wf_task_map by (metis mset_eq_imp_distinct_iff)
qed

text \<open>How an execution that succeeds came about.\<close>

lemma execution_cases:
  assumes "execute_engineer_plan clients plan sp now w = Some (Inr ex, w')"
  obtains (cycle) blocked warnings where "blocked \<noteq> []" "ex_status ex = ''blocked''" "ex_scheduler ex = empty_schedule"
      "ex_task_results ex = cycle_results plan warnings now"
      "ex_blockers ex = invalid_blockers (execution_id_of plan sp) blocked warnings"
      "execution_of plan (execution_id_of plan sp) now (ex_status ex) (ex_scheduler ex) (ex_task_results ex) (ex_blockers ex) = Inr ex"
  | (run) blocked warnings sc p where "validate_execute_plan plan = Some (Inr (blocked = [], blocked, warnings))"
      "build_execution_schedule plan = Some sc"
      "run_tasks \<lparr> se_clients = clients, se_summary_packet = sp, se_now = now, se_execution_id = execution_id_of plan sp,
                   se_tasks = task_map (plan_tasks plan), se_blocked = blocked, se_warnings = warnings \<rparr>
         (concat (map st_task_ids (sc_execution_order sc)))
         \<lparr> pg_results = [], pg_by_id = [], pg_blockers = invalid_blockers (execution_id_of plan sp) blocked warnings \<rparr> w =
         (Inr p, w')"
      "ex_status ex = overall_status (pg_results p)" "ex_scheduler ex = sc"
      "ex_task_results ex = pg_results p" "ex_blockers ex = pg_blockers p"
      "execution_of plan (execution_id_of plan sp) now (ex_status ex) (ex_scheduler ex) (ex_task_results ex) (ex_blockers ex) = Inr ex"
proof -
  have fields: "ex_status e = status \<and> ex_scheduler e = sc \<and> ex_task_results e = results \<and> ex_blockers e = blockers"
    if "execution_of plan eid now status sc results blockers = Inr e" for eid status sc results blockers e
    using that by (auto simp: execution_of_def map_sum_Inr)
  obtain valid blocked warnings where v: "validate_execute_plan plan = Some (Inr (valid, blocked, warnings))"
    using assms by (auto simp: execute_engineer_plan_def split: Option.bind_splits sum.splits)
  then have valid: "valid \<longleftrightarrow> blocked = []"
    by (auto simp: validate_execute_plan_def Let_def split: sum.splits)
  show thesis
  proof (cases "\<not> valid \<and> list_ex (\<lambda>warning. occurs_in ''cycle'' (lower warning)) warnings")
    case True
    with assms v have e: "execution_of plan (execution_id_of plan sp) now ''blocked'' empty_schedule
        (cycle_results plan warnings now) (invalid_blockers (execution_id_of plan sp) blocked warnings) = Inr ex"
      by (simp add: execute_engineer_plan_def)
    with fields [OF e] True valid show thesis by (intro cycle [of blocked warnings]) simp_all
  next
    case False
    with assms v obtain sc where sc: "build_execution_schedule plan = Some sc"
      and e: "execute_valid clients plan sp now blocked warnings sc w = (Inr ex, w')"
      by (auto simp: execute_engineer_plan_def)
    from e obtain p where p: "run_tasks \<lparr> se_clients = clients, se_summary_packet = sp, se_now = now,
          se_execution_id = execution_id_of plan sp, se_tasks = task_map (plan_tasks plan), se_blocked = blocked,
          se_warnings = warnings \<rparr> (concat (map st_task_ids (sc_execution_order sc)))
         \<lparr> pg_results = [], pg_by_id = [], pg_blockers = invalid_blockers (execution_id_of plan sp) blocked warnings \<rparr> w =
         (Inr p, w')"
      and ex: "execution_of plan (execution_id_of plan sp) now (overall_status (pg_results p)) sc (pg_results p) (pg_blockers p) = Inr ex"
      unfolding execute_valid_def Let_def by (auto split: prod.splits sum.splits)
    from fields [OF ex] ex v valid sc p show thesis by (intro run [of blocked warnings sc p]) simp_all
  qed
qed

lemma plan_tasks_known:
  "\<forall>tid \<in> fst ` set (task_map ts). \<exists>task. dget (task_map ts) tid = Some task \<and> task_id_of task = tid"
proof
  fix tid assume "tid \<in> fst ` set (task_map ts)"
  then obtain task where "dget (task_map ts) tid = Some task" by (metis map_of_eq_None_iff option.exhaust)
  with task_map_task show "\<exists>task. dget (task_map ts) tid = Some task \<and> task_id_of task = tid"
    by (fastforce simp: task_id_of_def)
qed

lemma cycle_results_ids:
  "set (map tr_task_id (cycle_results plan warnings now)) = fst ` set (task_map (plan_tasks plan))"
proof -
  have "tid \<in> set (map tr_task_id (cycle_results plan warnings now)) \<longleftrightarrow>
      tid \<noteq> [] \<and> (\<exists>task. JDict task \<in> set (plan_tasks plan) \<and> task_id_of task = tid)" for tid
    by (force simp: cycle_results_def image_iff elim!: is_jdict.elims)
  then show ?thesis
    using task_map_keys [of _ "plan_tasks plan"] unfolding task_id_of_def set_eq_iff by blast
qed

lemma overall_completed:
  assumes "\<forall>r \<in> set results. tr_status r \<in> set statuses"
  shows "overall_status results = ''completed'' \<longleftrightarrow> results \<noteq> [] \<and> list_all successful results"
proof -
  have "list_all (\<lambda>s. text_of s = s) statuses" by code_simp
  then have texts: "map (\<lambda>r. text_of (tr_status r)) results = map tr_status results"
    using assms by (simp add: list_all_iff)
  have "list_all successful results \<longleftrightarrow> set (map tr_status results) \<inter> set unsuccessful = {}"
    by (auto simp: list_all_iff successful_def)
  then show ?thesis
    unfolding overall_status_def texts Let_def by (auto simp: unsuccessful_def)
qed

lemma blocked_keys:
  assumes "validate_execute_plan plan = Some (Inr (valid, blocked, warnings))"
  shows "set blocked \<subseteq> fst ` set (task_map (plan_tasks plan))"
proof -
  have deps: "set ts \<subseteq> set us \<Longrightarrow> check_deps m ts b w = Inr (b', w') \<Longrightarrow> set b \<subseteq> fst ` set (task_map us) \<Longrightarrow>
      set b' \<subseteq> fst ` set (task_map us)" for m ts us b w b' w'
  proof (induction m ts b w rule: check_deps.induct)
    case (2 m task ts b w)
    show ?case
    proof (cases "task_text (jget task ''task_id'') = []")
      case True
      with 2(1) [OF refl True] 2(3-) show ?thesis by simp
    next
      case False
      then have "task_text (jget task ''task_id'') \<in> fst ` set (task_map us)"
        unfolding task_map_keys using 2(3) by auto
      with False 2(2) [OF refl False refl] 2(3-) show ?thesis by (simp add: Let_def image_subset_iff)
    qed
  qed simp_all
  obtain b w where r: "check_deps (task_map (plan_tasks plan)) (plan_tasks plan) [] [] = Inr (b, w)"
    and c: "check_cycles (task_map (plan_tasks plan)) (b, w) = Some (blocked, warnings)"
    using assms by (auto simp: validate_execute_plan_def Let_def split: sum.splits)
  from deps [OF subset_refl r] have "set b \<subseteq> fst ` set (task_map (plan_tasks plan))" by simp
  with c show ?thesis
    by (auto simp: check_cycles_spec [OF wf_task_map] set_block_all split: if_splits)
qed

lemma execution_reports:
  assumes "execute_engineer_plan clients plan sp now w = Some (Inr ex, w')"
  shows "set (map tr_task_id (ex_task_results ex)) = fst ` set (task_map (plan_tasks plan)) \<and>
    (ex_status ex = ''blocked'' \<and> ex_scheduler ex = empty_schedule \<or>
     map tr_task_id (ex_task_results ex) = concat (map st_task_ids (sc_execution_order (ex_scheduler ex))) \<and>
     distinct (map tr_task_id (ex_task_results ex))) \<and>
    (ex_status ex = ''completed'' \<longleftrightarrow> ex_task_results ex \<noteq> [] \<and> ex_blockers ex = [])"
  using assms
proof (cases rule: execution_cases)
  case (cycle blocked warnings)
  then show ?thesis using cycle_results_ids [of plan warnings now] by (simp add: invalid_blockers_def)
next
  case (run blocked warnings sc p)
  have known: "\<forall>tid \<in> set (concat (map st_task_ids (sc_execution_order sc))).
      \<exists>task. dget (task_map (plan_tasks plan)) tid = Some task \<and> task_id_of task = tid"
    using plan_tasks_known unfolding scheduled_keys(2) [OF run(2)] .
  define blockers0 where "blockers0 = invalid_blockers (execution_id_of plan sp) blocked warnings"
  have "blockers0 = [] \<longleftrightarrow> blocked = []" by (simp add: blockers0_def invalid_blockers_def)
  with run_tasks_effect [OF run(3) _ _ , folded blockers0_def] known have ok: "progress_ok p"
    and ids: "map tr_task_id (pg_results p) = concat (map st_task_ids (sc_execution_order sc))"
    and blockers: "pg_blockers p = [] \<longleftrightarrow> blocked = [] \<and> list_all successful (pg_results p)"
    and bad: "list_all (\<lambda>r. tr_task_id r \<in> set blocked \<longrightarrow> \<not> successful r) (pg_results p)"
    by (auto simp: progress_ok_def)
  have "set (map tr_task_id (pg_results p)) = fst ` set (task_map (plan_tasks plan))"
    unfolding ids by (rule scheduled_keys(2) [OF run(2)])
  moreover have "blocked = []" if "list_all successful (pg_results p)"
  proof (rule ccontr)
    assume "blocked \<noteq> []"
    then have "hd blocked \<in> set (map tr_task_id (pg_results p))"
      using blocked_keys [OF run(1)] calculation by auto
    then obtain r where r: "r \<in> set (pg_results p)" "tr_task_id r = hd blocked" by auto
    then have "tr_task_id r \<in> set blocked" using \<open>blocked \<noteq> []\<close> by simp
    with bad that r(1) show False by (auto simp: list_all_iff)
  qed
  moreover have "\<forall>r \<in> set (pg_results p). tr_status r \<in> set statuses"
    using ok by (simp add: progress_ok_def list_all_iff)
  ultimately show ?thesis
    using run(4,5,6,7) overall_completed [of "pg_results p"] ids scheduled_keys(3) [OF run(2)] blockers by auto
qed

text \<open>C5
  Every execution returns: none of its loops runs forever, whatever the plan. And an execution that
  is not aborted by an exception reports on exactly the tasks of its plan: either the plan is
  blocked as a whole, or each task is reported once, in the order of the schedule.
\<close>

theorem execution_reports_every_task:
  "\<exists>r. execute_engineer_plan clients plan sp now w = Some r \<and>
     (case fst r of
        Inl e \<Rightarrow> True
      | Inr ex \<Rightarrow>
          set (map tr_task_id (ex_task_results ex)) = fst ` set (task_map (plan_tasks plan)) \<and>
          (ex_status ex = ''blocked'' \<and> ex_scheduler ex = empty_schedule \<or>
           map tr_task_id (ex_task_results ex) = concat (map st_task_ids (sc_execution_order (ex_scheduler ex))) \<and>
           distinct (map tr_task_id (ex_task_results ex))))"
proof -
  obtain v sc where "validate_execute_plan plan = Some v" "build_execution_schedule plan = Some sc"
    using validation_spec [of plan] schedule_exists [of plan] by blast
  then have "execute_engineer_plan clients plan sp now w \<noteq> None"
    by (auto simp: execute_engineer_plan_def split: sum.split)
  then obtain x w' where run: "execute_engineer_plan clients plan sp now w = Some (x, w')" by auto
  show ?thesis
  proof (cases x)
    case (Inr ex)
    from execution_reports [OF run [unfolded Inr]] run Inr show ?thesis by auto
  qed (use run in auto)
qed


text \<open>The phrases of a plan that must not reach the customer.\<close>

fun avoids :: "string \<Rightarrow> json \<Rightarrow> bool" where
  "avoids part (JStr phrase) \<longleftrightarrow> \<not> occurs_in (lower phrase) (lower part)"
| "avoids part _ \<longleftrightarrow> False"

lemma safe_summary_avoids: "safe_summary part phrases = Inr True \<Longrightarrow> list_all (avoids part) phrases"
  by (induction part phrases rule: safe_summary.induct) (auto split: if_splits)

lemma customer_parts_safe:
  "customer_parts phrases results = Inr parts \<Longrightarrow>
     list_all (\<lambda>part. list_all (avoids part) phrases \<and>
       list_ex (\<lambda>r. text_of (tr_summary r) = part \<and> text_of (tr_status r) = ''succeeded'' \<and>
         text_of (tr_skill r) = ''official_docs_fallback'') results) parts"
proof (induction phrases results arbitrary: parts rule: customer_parts.induct)
  case (2 phrases r results)
  show ?case
  proof (cases "text_of (tr_status r) = ''succeeded'' \<and> text_of (tr_skill r) = ''official_docs_fallback''")
    case True
    with "2.prems" obtain safe parts' where s: "safe_summary (text_of (tr_summary r)) phrases = Inr safe"
        "customer_parts phrases results = Inr parts'"
        "parts = (if safe then text_of (tr_summary r) # parts' else parts')"
      by (auto simp: Let_def sbind_Inr map_sum_Inr)
    from "2.IH"(1) [OF refl True s(2)] s(1,3) True safe_summary_avoids [of "text_of (tr_summary r)" phrases]
    show ?thesis by (cases safe) (auto simp: list_all_iff list_ex_iff)
  next
    case False
    with "2.prems" "2.IH"(2) [OF refl False, of parts] show ?thesis by (auto simp: Let_def list_all_iff)
  qed
qed simp


section \<open>Small executions\<close>

definition no_clients :: "unit knowledge_clients" where
  "no_clients = \<lparr> kc_weknora = None, kc_agent_memory = None \<rparr>"

definition docs_packet :: jdict where
  "docs_packet = [(''rag_result'', JDict [(''sources'', JList [JStr ''https://d''])])]"

definition docs_plan :: jdict where
  "docs_plan = plan_of
     [plan_task ''docs'' ''official_docs_fallback'' [] False, plan_task ''answer'' ''synthesis'' [''docs''] False] @
     [(''redaction_boundary'', JDict [(''do_not_expose_to_customer'', JList [JStr ''Internal note''])])]"

definition docs_run :: "(py_error + execution) \<times> unit" where
  "docs_run = the (execute_engineer_plan no_clients docs_plan docs_packet ''t1'' ())"

lemma docs_run_ok:
  "map_option (\<lambda>r. case fst r of Inl e \<Rightarrow> None | Inr ex \<Rightarrow> Some (ex_status ex))
     (execute_engineer_plan no_clients docs_plan docs_packet ''t1'' ()) = Some (Some ''completed'')"
  by code_simp

lemma docs_run_Inr:
  "execute_engineer_plan no_clients docs_plan docs_packet ''t1'' () = Some (Inr (projr (fst docs_run)), snd docs_run) \<and>
   ex_status (projr (fst docs_run)) = ''completed''"
proof (cases "execute_engineer_plan no_clients docs_plan docs_packet ''t1'' ()")
  case (Some r)
  with docs_run_ok show ?thesis by (cases r; cases "fst r") (simp_all add: docs_run_def)
qed (use docs_run_ok in simp)


definition docs_results :: "task_result list" where
  "docs_results = [run_official_docs_fallback_subagent [(''task_id'', JStr ''docs'')] docs_packet ''t1'']"

definition docs_evidence :: evidence_packet where
  "docs_evidence = projr (build_evidence_packet ''e1'' docs_plan docs_results)"


text \<open>
  The execution looks for the word \<open>cycle\<close> in the warnings to tell a cyclic plan from one with an
  unknown dependency, and the warnings quote the ids of tasks.
\<close>

definition lifecycle_plan :: "string \<Rightarrow> jdict" where
  "lifecycle_plan tid = plan_of
     [plan_task tid ''missing_info_triage'' [''gone''] False, plan_task ''docs'' ''official_docs_fallback'' [] False]"

definition outcome :: "jdict \<Rightarrow> (string \<times> (string \<times> string) list) option" where
  "outcome plan =
     (case execute_engineer_plan no_clients plan docs_packet ''t1'' () of
        Some (Inr ex, _) \<Rightarrow> Some (ex_status ex, map (\<lambda>r. (tr_task_id r, tr_status r)) (ex_task_results ex))
      | _ \<Rightarrow> None)"


text \<open>
  The schedule and the validation read the id of a dependency without the blanks around it, the
  execution reads it as it is written: a synthesis that names its dependency with a blank is run
  after it and does not see its result.
\<close>

theorem padded_dependency_unseen:
  "kd (task_map (plan_tasks (plan_of [plan_task ''docs'' ''official_docs_fallback'' [] False,
         plan_task ''answer'' ''synthesis'' ['' docs''] False]))) ''answer'' = [''docs''] \<and>
   outcome (plan_of [plan_task ''docs'' ''official_docs_fallback'' [] False,
         plan_task ''answer'' ''synthesis'' ['' docs''] False]) =
     Some (''partial'', [(''docs'', ''succeeded''), (''answer'', ''blocked'')])"
  by code_simp

end
