(* ===== verification/Spec2Isabelle.thy ===== *)
theory Spec2Isabelle
  imports Case_Handoffs Prompt_Deployment Assignments Reroute_Jobs Idempotency Zendesk_Outbox Slack_Outbox Context_Budget Plan_Execution
begin

text \<open>
  SupportPortal: the state-keeping core and the checked logic around its language models.

  \<^bold>\<open>The program.\<close> SupportPortal (Python, \<open>src/backend\<close>) runs customer support: tickets come in
  from its own client and from Zendesk, are classified, answered or handled by an automation, and
  handed to engineers when neither suffices. Language models and HTTP services do the talking.
  What has to be right whatever they say is modelled here: the tables that record cases, jobs and
  deliveries, the workers' claims on them, the routing taxonomy, the managed prompts, and the
  deterministic code that checks, schedules and packs what the models and services return.

  \<^bold>\<open>How the parts interact.\<close> A case is classified and stored (\<open>Case_Routing\<close>, \<open>Account_Cases\<close>)
  and announced by e-mail (\<open>Classification_Email\<close>). A reply to the customer is a job
  (\<open>Reply_Jobs\<close>): a worker claims it, and publishing it writes the ticket's message, a Zendesk
  comment to deliver (\<open>Zendesk_Outbox\<close>) and a Slack event (\<open>Slack_Outbox\<close>) that waits for the
  comment. The result of the comment comes back through \<open>Account_Cases\<close>, which settles message,
  request and deliveries and releases the events that wait; snapshots of the Zendesk ticket
  (\<open>Zendesk_Comments\<close>) and its status events arrive there too. A case may be rerun by an operator
  (\<open>Reroute_Jobs\<close>), and an escalated case is assigned to an engineer on shift (\<open>Workspace\<close>,
  \<open>Assignments\<close>). Requests and notifications are made idempotent by \<open>Idempotency\<close>. The prompts of
  the models are versioned and released (\<open>Prompts\<close>, \<open>Prompt_Deployment\<close>). An investigation plan
  is validated, scheduled and run (\<open>Execution_Plan\<close>, \<open>Plan_Execution\<close>) on evidence fetched from
  WeKnora (\<open>Weknora_Client\<close>, \<open>Knowledge_Retrieval\<close>); answers are written from chunks packed into
  a token budget (\<open>Context_Budget\<close>), and each model call is accounted for (\<open>Token_Usage\<close>).

  \<^bold>\<open>Theories and sources.\<close> "Repository" is \<open>InMemoryTicketRepository\<close> of
  \<open>repositories/ticket_repository.py\<close>; the other files are under \<open>src/backend/services\<close>.
    \<^item> \<open>Prelude\<close>: Python strings, dictionaries in insertion order, exceptions as \<open>error + 'a\<close>.
      \<open>Timestamps\<close>: \<open>datetime\<close>, ISO texts, zones. \<open>Json_Values\<close>: JSON values and their reading
      with \<open>get\<close>, truthiness, \<open>str\<close>, \<open>int\<close>.
    \<^item> \<open>Outbox_Interface\<close>: locale \<open>outbox\<close>, the contract of a delivery table (claim only what is
      queued, \<open>delivered\<close> is final). \<open>Fence_Interface\<close>: locale \<open>fenced\<close>, the contract of work held
      by a token (a write is accepted only from the last worker that won the item).
    \<^item> \<open>Zendesk_Outbox\<close>, \<open>Slack_Outbox\<close>: the repository's four delivery tables (Zendesk comments,
      Slack events of replies with \<open>account_slack_n8n.py\<close>, classification e-mails, engineer events);
      each interprets \<open>outbox\<close>.
    \<^item> \<open>Idempotency\<close>: \<open>_idempotency_records\<close>, that is idempotent requests and native notifications.
      \<open>Reroute_Jobs\<close>: admission, leases, progress and recovery of reruns. Both interpret \<open>fenced\<close>.
    \<^item> \<open>Workspace\<close>: accounts, invitations, schedules (\<open>workspace_schedules.py\<close>). \<open>Assignments\<close>: the
      versioned update of an engineer case and the passes of \<open>engineer_assignment.py\<close>; its locale
      \<open>versioned\<close> is the optimistic update, interpreted on the repository's.
    \<^item> \<open>Prompts\<close>: the tables and operations of managed prompts with the checks of
      \<open>prompt_versioning.py\<close>. \<open>Prompt_Deployment\<close>: their invariant over all sequences of operations.
    \<^item> \<open>Case_Routing\<close>: \<open>account_processing_profiles.py\<close>, \<open>automation_routing.py\<close>,
      \<open>account_billing_handlers.py\<close>, \<open>account_automation_handlers.py\<close>, \<open>account_case_filters.py\<close>.
    \<^item> \<open>Zendesk_Comments\<close>: \<open>account_zendesk_comments.py\<close>. \<open>Account_Cases\<close>: the repository's case
      records, internal e-mail and Zendesk synchronisation, with
      \<open>account_automation_reconciliation.py\<close>. \<open>Reply_Jobs\<close>: \<open>account_reply_jobs.py\<close> and the
      repository's reply jobs and publication. \<open>Case_Handoffs\<close>: a step relation over all case
      tables, its reachable states and their invariants.
    \<^item> \<open>Classification_Email\<close>: the labels and the announcement of a case
      (\<open>account_route_pipeline.py\<close>, \<open>production_automation_classification_email.py\<close>,
      \<open>automation_intake_compat.py\<close>).
    \<^item> \<open>Token_Usage\<close>: \<open>token_usage.py\<close>. \<open>Context_Budget\<close>: \<open>rag_context_budget.py\<close>.
    \<^item> \<open>Execution_Plan\<close>, \<open>Plan_Execution\<close>: \<open>engineer_execute_agent.py\<close>. \<open>Weknora_Client\<close>:
      \<open>weknora_client.py\<close>. \<open>Knowledge_Retrieval\<close>: \<open>weknora_knowledge_retrieval.py\<close>.

  \<^bold>\<open>State and operations.\<close> A table of the repository is a dictionary or a list in the order the
  code iterates it; a row with fixed fields is a record, and a free-form one (tickets, cases,
  payloads) is a dictionary of JSON values, as in the code. An operation takes the state and
  returns it updated; one that raises returns \<open>Inl\<close> of its error, next to the state when the code
  has already changed it by then. Guards, their order and early returns are the code's. A private
  helper keeps its name without the underscore. One call of the repository is one step, as a
  transaction is in the database, so concurrency is the order of whole operations: sequences where
  one table is concerned (\<open>zendesk_op\<close>, the lists the two interfaces run over), step relations
  where several are (\<open>case_step\<close>, \<open>prompt_step\<close>).
\<close>

text \<open>
  \<^bold>\<open>What the lemmas show.\<close>
    \<^item> Work is done once: reply publication and its message, pending replies, worker claims, begun
      requests, e-mail claims, row claims per queueing, fenced reports and leases.
    \<^item> Order is kept: Slack only after the public Zendesk comment, the internal e-mail only after the
      public reply, a task only after its dependencies, one update per version of a case.
    \<^item> Nothing is lost or invented: synchronised comments, comment snapshots (independent of order,
      and read back from their own payloads), the state of a case across closing and reopening,
      the evidence of a prompt and of an investigation, the listing of memory.
    \<^item> Invariants: one active reroute job, the deployed prompts and their single active release,
      numbered versions that carry their digest.
    \<^item> Choice and arithmetic: the engineer dispatched is the one who waited longest, a shift is a
      window of the week, case groups partition the cases, the summary of the ledger refines a sum
      over its entries, the packed context is within its budget up to the separators.
    \<^item> Errors: theorems that exhibit, on concrete inputs, where the code departs from its intent
      (a status spelled with blanks, the staging of a synthesis, the word \<open>cycle\<close> in a task id,
      separators counted as one token).

  \<^bold>\<open>Loops and bounds.\<close> The \<open>while\<close> loops over a plan (\<open>kahn\<close>, \<open>stages\<close>) have no evident
  measure, because the queue is refilled from dependencies a model wrote. They are
  \<open>partial_function (option)\<close>, and the properties of \<open>Execution_Plan\<close> and \<open>Plan_Execution\<close> show that
  validation, scheduling and execution return on every plan. The paged listing of memory
  (\<open>memory_walk\<close>) ends because its offset grows by at least one up to a cap, and the search for
  the year of a date because the days left shrink. The only fuel is in the printing of a number
  (\<open>show_digits\<close>), one more than the number itself, and \<open>show_int_rec\<close> shows that it is enough.
  Python's integers are \<open>int\<close>; no fixed width occurs in this code. A year is between 1 and 9999,
  and leaving the range is an error, as in \<open>datetime\<close>.

  \<^bold>\<open>Parameters.\<close> What the code calls outside \<open>src/\<close>, or what depends on the machine, is an argument
  of the definitions that use it: the clock and the local time, the zone database, \<open>uuid4\<close> and
  random texts, SHA-256, \<open>json.loads\<close> and the splitting of a URL where a text is decoded, HTTP
  (\<open>transport\<close>), the model call (\<open>invoke\<close>), and the WeKnora and AgentMemory clients of an
  investigation. Where such an argument has effects, the state \<open>'w\<close> of the outside world is passed
  along. What a theorem assumes of one is in its statement, and its witness supplies a concrete
  function.

  \<^bold>\<open>Conventions.\<close> Characters are the first 256 code points, and the case and blank tests are
  Python's on them. A field the code reads as a dictionary or a list is taken as empty when it holds
  another type, where Python would raise. Copies made with \<open>deepcopy\<close> are the value itself.
  JSON numbers are integers: floating-point scores are only carried along (\<open>Context_Budget\<close>).

  \<^bold>\<open>Not modelled.\<close>
    \<^item> \<open>PostgresTicketRepository\<close>, the Automation ECS store and the knowledge repository: SQL, whose
      behaviour is the database's.
    \<^item> The HTTP API and gateways (\<open>main.py\<close> and the other entry points) and the polling loops of the
      workers: parsing and I/O around the operations modelled here.
    \<^item> Query understanding, retrieval and ranking (\<open>rag_qa.py\<close> and its neighbours, apart from the
      context budget): vector search and floating-point scores. Document ingestion and the promotion
      of memory into WeKnora (\<open>weknora_promotion_adapter.py\<close>).
    \<^item> The Hermes, engineer and client agents, the support router and the intake: model calls and
      regular expressions over free text.
    \<^item> Of the case records, the listing, counting and the reset before a rerun
      (\<open>reset_account_rerun_state\<close>). Of the prompts, the JSON contract of the fraud-account prompt
      (\<open>validate_release\<close>). Of the assignments, the migration of legacy tickets. Of the WeKnora
      client, the reading of the environment and the read-only probe of the contract.
    \<^item> Benchmarks, scripts, deployment, tests and vendored packages.
\<close>

end
